(* ===== verification/Prelude.thy ===== *)
theory Prelude
  imports Main "HOL-Library.Word"
begin

text \<open>
  The types and generic lemmas every part of the development shares: bytes, words and the
  two byte orders a C object can have in memory, the network byte order functions of the C
  library (\<open>htons\<close>, \<open>htonl\<close>), and a few facts on lists.
\<close>

unbundle bit_operations_syntax

section \<open>Machine types\<close>

type_synonym byte = "8 word"
type_synonym u16 = "16 word"
type_synonym u32 = "32 word"

text \<open>A pointer is a natural number; 0 is \<open>NULL\<close>.\<close>

type_synonym ptr = nat

text \<open>
  The named collections of the development: \<open>run_simps\<close> holds the equations that execute the
  state monad, \<open>frame_simps\<close> what an operation leaves unchanged, \<open>bytes_simps\<close> the
  evaluation of byte-order code.
\<close>

named_theorems run_simps
named_theorems frame_simps
named_theorems bytes_simps

section \<open>Objects in memory\<close>

text \<open>
  The bytes of a 16-bit and of a 32-bit object, lowest address first. The first argument is
  true on a big-endian machine.
\<close>

definition mem16 :: "bool \<Rightarrow> u16 \<Rightarrow> byte list" where
  "mem16 be w =
     (let le = [ucast w, ucast (drop_bit 8 w)] in if be then rev le else le)"

definition mem32 :: "bool \<Rightarrow> u32 \<Rightarrow> byte list" where
  "mem32 be w =
     (let le = [ucast w, ucast (drop_bit 8 w), ucast (drop_bit 16 w), ucast (drop_bit 24 w)]
      in if be then rev le else le)"

text \<open>Reading a 16-bit and a 32-bit object back; \<open>None\<close> when bytes are missing.\<close>

fun load16 :: "bool \<Rightarrow> byte list \<Rightarrow> u16 option" where
  "load16 be (a # b # _) =
     Some (if be then push_bit 8 (ucast a) OR ucast b
           else ucast a OR push_bit 8 (ucast b))"
| "load16 be _ = None"

fun load32 :: "bool \<Rightarrow> byte list \<Rightarrow> u32 option" where
  "load32 be (a # b # c # d # _) =
     Some (if be
           then push_bit 24 (ucast a) OR push_bit 16 (ucast b) OR push_bit 8 (ucast c) OR ucast d
           else ucast a OR push_bit 8 (ucast b) OR push_bit 16 (ucast c) OR push_bit 24 (ucast d))"
| "load32 be _ = None"

text \<open>
  A buffer is the list of its bytes. \<open>write_at\<close> is an assignment or a \<open>memcpy\<close> into it, \<open>writes\<close> a row
  of them, each with the offset it writes at. Writing past the end of the buffer is undefined.
\<close>

definition write_at :: "nat \<Rightarrow> byte list \<Rightarrow> byte list \<Rightarrow> byte list option" where
  "write_at off xs buf =
     (if off + length xs \<le> length buf
      then Some (take off buf @ xs @ drop (off + length xs) buf) else None)"

fun writes :: "(nat \<times> byte list) list \<Rightarrow> byte list \<Rightarrow> byte list option" where
  "writes [] buf = Some buf"
| "writes ((off, xs) # ws) buf =
     (case write_at off xs buf of None \<Rightarrow> None | Some buf \<Rightarrow> writes ws buf)"

text \<open>\<open>htons\<close>, \<open>ntohs\<close> and \<open>htonl\<close> of the C library.\<close>

definition bswap16 :: "u16 \<Rightarrow> u16" where
  "bswap16 w = push_bit 8 w OR drop_bit 8 w"

definition bswap32 :: "u32 \<Rightarrow> u32" where
  "bswap32 w =
     push_bit 24 w OR (push_bit 8 w AND 0x00FF0000) OR
     (drop_bit 8 w AND 0x0000FF00) OR drop_bit 24 w"

definition htons :: "bool \<Rightarrow> u16 \<Rightarrow> u16" where
  "htons be w = (if be then w else bswap16 w)"

definition htonl :: "bool \<Rightarrow> u32 \<Rightarrow> u32" where
  "htonl be w = (if be then w else bswap32 w)"

text \<open>
  The C library's \<open>htons\<close> applied to an \<open>int\<close>: the argument is converted to 16 bits first.
\<close>

abbreviation htons_int :: "bool \<Rightarrow> int \<Rightarrow> u16" where
  "htons_int be n \<equiv> htons be (word_of_int n)"

subsection \<open>Laws of the byte orders\<close>

lemma length_mem16 [simp]: "length (mem16 be w) = 2"
  by (simp add: mem16_def Let_def)

lemma length_mem32 [simp]: "length (mem32 be w) = 4"
  by (simp add: mem32_def Let_def)

lemma load16_mem16 [simp]: "load16 be (mem16 be w @ xs) = Some w"
  by (auto simp: mem16_def Let_def bit_simps intro!: bit_word_eqI)

lemma u32_bytes:
  "ucast (ucast (w :: u32) :: byte) OR push_bit 8 (ucast (ucast (drop_bit 8 w) :: byte)) OR
     push_bit 16 (ucast (ucast (drop_bit 16 w) :: byte)) OR
     push_bit 24 (ucast (ucast (drop_bit 24 w) :: byte)) = w" (is "?l = w")
proof (rule bit_word_eqI)
  fix n
  assume "n < LENGTH(32)"
  then consider "n < 8" | k where "n = 8 + k" "k < 8" | k where "n = 16 + k" "k < 8"
    | k where "n = 24 + k" "k < 8"
  proof -
    assume n: "n < LENGTH(32)" and hyps: "n < 8 \<Longrightarrow> thesis"
      "\<And>k. n = 8 + k \<Longrightarrow> k < 8 \<Longrightarrow> thesis" "\<And>k. n = 16 + k \<Longrightarrow> k < 8 \<Longrightarrow> thesis"
      "\<And>k. n = 24 + k \<Longrightarrow> k < 8 \<Longrightarrow> thesis"
    show thesis
      using hyps(1) hyps(2) [of "n - 8"] hyps(3) [of "n - 16"] hyps(4) [of "n - 24"] n by force
  qed
  then show "bit ?l n = bit w n"
    by cases (simp_all add: bit_simps)
qed

lemma load32_mem32 [simp]: "load32 be (mem32 be w @ xs) = Some w"
  using u32_bytes [of w] by (simp add: mem32_def Let_def ac_simps)

text \<open>A read is defined when its bytes are there.\<close>

lemma load16_defined: "2 \<le> length xs \<Longrightarrow> \<exists>w. load16 be xs = Some w"
  by (cases xs; cases "tl xs") auto

lemma load32_defined: "4 \<le> length xs \<Longrightarrow> \<exists>w. load32 be xs = Some w"
  by (cases xs; cases "tl xs"; cases "tl (tl xs)"; cases "tl (tl (tl xs))") auto

subsection \<open>Laws of the writes\<close>

lemma write_at_SomeD:
  assumes "write_at off xs buf = Some buf'"
  shows "length buf' = length buf" and "take off buf' = take off buf"
    and "drop off buf' = xs @ drop (off + length xs) buf"
  using assms by (auto simp: write_at_def split: if_splits)

text \<open>A write that goes on where the bytes written so far end, and a row of such writes.\<close>

lemma write_at_next:
  "off = length ys \<Longrightarrow> write_at off xs (ys @ zs) =
     (if length xs \<le> length zs then Some ((ys @ xs) @ drop (length xs) zs) else None)"
  by (simp add: write_at_def)

primrec in_row :: "nat \<Rightarrow> (nat \<times> byte list) list \<Rightarrow> bool" where
  "in_row n [] \<longleftrightarrow> True"
| "in_row n (w # ws) \<longleftrightarrow> fst w = n \<and> in_row (n + length (snd w)) ws"

lemma writes_in_row:
  assumes "in_row (length ys) ws"
  shows "writes ws (ys @ zs) =
    (let xs = concat (map snd ws) in
     if length xs \<le> length zs then Some (ys @ xs @ drop (length xs) zs) else None)"
  using assms
proof (induction ws arbitrary: ys zs)
  case (Cons w ws)
  obtain off xs where w: "w = (off, xs)" by (cases w)
  show ?case
    using Cons.prems Cons.IH [of "ys @ xs" "drop (length xs) zs"]
    by (auto simp: w write_at_next Let_def add.commute)
qed simp

lemma bswap16_bswap16 [simp]: "bswap16 (bswap16 w) = w"
  by (rule bit_word_eqI) (auto simp: bswap16_def bit_simps)

lemma htons_htons [simp]: "htons be (htons be w) = w"
  by (simp add: htons_def)

end
