(* ===== verification/Types.thy ===== *)
theory Types
  imports Prelude
begin

text \<open>
  The data of the program (\<^verbatim>\<open>src/portproxy.h\<close>, \<^verbatim>\<open>src/Portable.h\<close>) and of the machine it runs
  on. A struct is a record, an enum a datatype. Structs linked by a \<open>next\<close> field keep that
  field: it is a pointer into one of the heaps of the state. A \<open>struct in_addr\<close> is the 32-bit
  value of its \<open>s_addr\<close> as the machine reads it; its bytes in memory are \<open>mem32\<close> of that value.
  An \<open>unsigned int\<close> is a 32-bit word: an \<open>int\<close> is converted by \<open>word_of_int\<close> when it is stored there,
  and read back as an \<open>int\<close> it is \<open>sint\<close>.
\<close>

section \<open>Constants\<close>

definition IPPROTO_TCP :: int where "IPPROTO_TCP = 6"
definition IPPROTO_UDP :: int where "IPPROTO_UDP = 17"
definition IPPROTO_RAW :: int where "IPPROTO_RAW = 255"

lemmas ipproto_defs = IPPROTO_TCP_def IPPROTO_UDP_def IPPROTO_RAW_def

definition FD_SETSIZE :: int where "FD_SETSIZE = 1024"

definition MAX_IFNAME_LENGTH :: nat where "MAX_IFNAME_LENGTH = 255"

definition PORTPROXY_NATPMP_UDP_PORT :: int where "PORTPROXY_NATPMP_UDP_PORT = 5351"
definition PORTPROXY_UPNP_UDP_PORT :: int where "PORTPROXY_UPNP_UDP_PORT = 1900"
definition PORTPROXY_UPNP_TCP_PORT1 :: int where "PORTPROXY_UPNP_TCP_PORT1 = 2869"
definition PORTPROXY_UPNP_TCP_PORT2 :: int where "PORTPROXY_UPNP_TCP_PORT2 = 2857"
definition PORTPROXY_DEFAULT_TIMEOUT :: int where "PORTPROXY_DEFAULT_TIMEOUT = 10"
definition PORTPROXY_DEFAULT_LAN_IFACE :: string where "PORTPROXY_DEFAULT_LAN_IFACE = ''br-lan''"
definition PORTPROXY_DEFAULT_WAN_IFACE :: string where "PORTPROXY_DEFAULT_WAN_IFACE = ''eth0.1''"

text \<open>The low-level error codes.\<close>

definition LOWLEVEL_NO_ERROR :: int where "LOWLEVEL_NO_ERROR = 0"
definition LOWLEVEL_ERROR_UNSPEC :: int where "LOWLEVEL_ERROR_UNSPEC = -1"
definition LOWLEVEL_ERROR_BIND_IFACE :: int where "LOWLEVEL_ERROR_BIND_IFACE = -2"
definition LOWLEVEL_ERROR_BIND_FAILED :: int where "LOWLEVEL_ERROR_BIND_FAILED = -4"
definition LOWLEVEL_ERROR_MCAST_MEMBERSHIP :: int where "LOWLEVEL_ERROR_MCAST_MEMBERSHIP = -6"
definition LOWLEVEL_ERROR_GETADDRINFO :: int where "LOWLEVEL_ERROR_GETADDRINFO = -7"
definition LOWLEVEL_ERROR_SOCK_OPTS :: int where "LOWLEVEL_ERROR_SOCK_OPTS = -8"
definition LOWLEVEL_ERROR_REUSE_FAILED :: int where "LOWLEVEL_ERROR_REUSE_FAILED = -9"
definition LOWLEVEL_ERROR_SOCKET :: int where "LOWLEVEL_ERROR_SOCKET = -11"

lemmas lowlevel_defs =
  LOWLEVEL_NO_ERROR_def LOWLEVEL_ERROR_UNSPEC_def LOWLEVEL_ERROR_BIND_IFACE_def
  LOWLEVEL_ERROR_BIND_FAILED_def LOWLEVEL_ERROR_MCAST_MEMBERSHIP_def
  LOWLEVEL_ERROR_GETADDRINFO_def LOWLEVEL_ERROR_SOCK_OPTS_def
  LOWLEVEL_ERROR_REUSE_FAILED_def LOWLEVEL_ERROR_SOCKET_def

section \<open>The structs of the program\<close>

record mapping_t =
  m_clientIP :: u32
  m_lanIP :: u32
  m_wanIP :: u32
  m_aftrIPv4 :: u32
  m_proto :: int
  m_clientPort :: int
  m_lanPort :: int
  m_wanPort :: int
  m_routerPort :: int
  m_lanSock :: int
  m_wanSock :: int
  m_timeout :: u32  \<comment> \<open>an \<open>int\<close>; its signed value is \<open>sint\<close>\<close>
  m_next :: ptr

datatype socket_type_t =
    SOCKET_TYPE_UDP
  | SOCKET_TYPE_UDP6
  | SOCKET_TYPE_TCP_LISTENING
  | SOCKET_TYPE_TCP_CONNECTED

record socket_t =
  s_fd :: int
  s_ipproto :: int
  s_state :: socket_type_t
  s_peer :: int
  s_peer_addr :: u32
  s_peer_port :: int
  s_mcast :: int
  s_next :: ptr

record pkt_t =
  p_srcIP :: u32
  p_dstIP :: u32
  p_srcPort :: int
  p_dstPort :: int
  p_proto :: int
  p_data :: "byte list"
  p_datalen :: int
  p_sock :: int

record iface_t =
  if_name :: string
  if_id :: int
  if_hardwareType :: int
  if_mac :: "byte list"
  if_maclen :: int
  if_ipaddr :: "u32 list"
  if_ipaddrcount :: int
  if_flags :: int
  if_next :: ptr

record context_t =
  ifaces :: ptr
  lan :: string  \<comment> \<open>all \<open>MAX_IFNAME_LENGTH\<close> characters of the array\<close>
  wan :: string
  persistent :: int
  lanIP :: u32
  wanIP :: u32
  aftrIPv4 :: u32
  wanIPv6 :: "byte list"
  aftrIPv6 :: "byte list"
  sockets :: ptr
  mappings :: ptr
  natpmp_udp_port :: u32
  upnp_udp_port :: u32
  upnp_tcp_port1 :: u32
  upnp_tcp_port2 :: u32
  fwd_tcp_port1 :: u32
  fwd_tcp_port2 :: u32
  bind_ext_nat_pmp_to_natpmp_port :: int
  shared_udp_sock :: u32
  shared_udp_sock_fd :: int
  wan_ssdp_sock :: int
  lan_ssdp_sock :: int
  nat_pmp_ext_sock :: int
  nat_pmp_lan_sock :: int
  enable_nat_pmp :: int
  enable_nat_pmp_ext :: int
  enable_upnp_tcp :: int
  enable_upnp_udp :: int
  loglevel :: int
  timeout :: int
  daemon :: int
  pktCnt :: u32  \<comment> \<open>an \<open>int\<close>\<close>
  ssdpCnt :: int
  natpmpCnt :: int

section \<open>The system calls the program makes\<close>

datatype family = AF_INET | AF_INET6 | AF_NETLINK

datatype stype = SOCK_STREAM | SOCK_DGRAM | SOCK_RAW

text \<open>
  Socket addresses; the port is the field as stored, in network byte order. A netlink address is
  its port id and its groups.
\<close>

datatype sockaddr =
    Sockaddr_in u32 u16
  | Sockaddr_in6 "byte list" u16
  | Sockaddr_nl u32 u32  \<comment> \<open>\<open>nl_pid\<close> and \<open>nl_groups\<close>\<close>

datatype sockopt =
    IP_PKTINFO
  | SO_BINDTODEVICE string
  | SO_REUSEADDR
  | IP_ADD_MEMBERSHIP u32 u32
  | IP_MULTICAST_LOOP int
  | SO_SNDBUF int
  | SO_RCVBUF int

datatype syscall =
    Sys_time
  | Sys_socket family stype int
  | Sys_setsockopt int sockopt
  | Sys_bind int sockaddr
  | Sys_connect int sockaddr
  | Sys_listen int int
  | Sys_accept int
  | Sys_send int "byte list"
  | Sys_sendto int "byte list" sockaddr
  | Sys_recvmsg int nat
  | Sys_close int
  | Sys_getsockname int
  | Sys_select "int list" int
  | Sys_getfl int
  | Sys_setfl int int
  | Sys_getaddrinfo "u32 option" int
  | Sys_freeaddrinfo
  | Sys_sleep int
  | Sys_nanosleep int int  \<comment> \<open>seconds and nanoseconds\<close>
  | Sys_daemon

text \<open>A completed call is the call and the integer it returned.\<close>

type_synonym event = "syscall \<times> int"

text \<open>What \<open>recvmsg\<close> fills in besides its return value.\<close>

record rmsg =
  r_bytes :: "byte list"
  r_peer :: u32
  r_port :: u16  \<comment> \<open>network byte order\<close>
  r_pktinfo :: "u32 list"  \<comment> \<open>the \<open>ipi_addr\<close> of each \<open>IP_PKTINFO\<close> control message\<close>
  r_pktinfo6 :: "byte list list"  \<comment> \<open>the \<open>ipi6_addr\<close> of each \<open>IPV6_PKTINFO\<close> control message\<close>
  r_nlpid :: u32  \<comment> \<open>the sender's \<open>nl_pid\<close> on a netlink socket\<close>
  r_trunc :: bool  \<comment> \<open>\<open>MSG_TRUNC\<close> is set\<close>
  r_namelen :: int  \<comment> \<open>the length of the sender's address\<close>

text \<open>
  The machine and the kernel, as the program meets them: byte order, the sign of \<open>char\<close>, the width
  of \<open>long\<close>, the constants of the kernel's headers, and what each call answers after the calls
  already made (newest first). Nothing is assumed of the answers; a theorem that needs documented
  behaviour of the kernel states it as a hypothesis on this record.
\<close>

record env =
  big_endian :: bool
  e_ret :: "event list \<Rightarrow> syscall \<Rightarrow> int"
  e_recv :: "event list \<Rightarrow> int \<Rightarrow> rmsg"
  e_peer :: "event list \<Rightarrow> int \<Rightarrow> u32 \<times> u16"  \<comment> \<open>the client's address, from \<open>accept\<close>\<close>
  e_port :: "event list \<Rightarrow> int \<Rightarrow> u16"  \<comment> \<open>\<open>sin_port\<close> from \<open>getsockname\<close>\<close>
  e_ready :: "event list \<Rightarrow> int list \<Rightarrow> int list"  \<comment> \<open>what \<open>select\<close> leaves in the set\<close>
  e_signal :: "event list \<Rightarrow> bool"  \<comment> \<open>a termination signal has arrived by now\<close>
  e_stack :: "event list \<Rightarrow> u32"  \<comment> \<open>an uninitialised stack variable\<close>
  O_NONBLOCK :: int
  char_signed :: bool
  long_bits :: nat
  IFLA_MAX :: nat
  IFA_MAX :: nat
  e_nlname :: "event list \<Rightarrow> int \<Rightarrow> nat \<times> nat \<times> u32"
    \<comment> \<open>length, family and \<open>nl_pid\<close> from \<open>getsockname\<close> on a netlink socket\<close>
  e_heap :: "event list \<Rightarrow> ptr"  \<comment> \<open>a pointer in memory just allocated and not yet written\<close>
  e_route :: "event list \<Rightarrow> string option"  \<comment> \<open>\<^verbatim>\<open>/proc/net/route\<close>, if it can be opened\<close>
  e_pton6 :: "string \<Rightarrow> byte list option"  \<comment> \<open>\<open>inet_pton(AF_INET6, ...)\<close>\<close>

section \<open>The state\<close>

text \<open>
  The context (\<open>*ctx\<close>), the global variables, the heap objects by type, the next address
  \<open>malloc\<close> hands out and the calls made so far, newest first.
\<close>

record state = context_t +
  mheap :: "ptr \<Rightarrow> mapping_t option"
  sheap :: "ptr \<Rightarrow> socket_t option"
  pheap :: "ptr \<Rightarrow> pkt_t option"
  iheap :: "ptr \<Rightarrow> iface_t option"
  brk :: ptr
  hist :: "event list"
  mcast :: u32
  log_level :: int
  Shutdown :: int

text \<open>The file descriptors opened and not closed by a sequence of calls, newest first.\<close>

fun open_fds :: "event list \<Rightarrow> int set" where
  "open_fds [] = {}"
| "open_fds ((c, r) # h) =
     (case c of
        Sys_socket _ _ _ \<Rightarrow> (if 0 \<le> r then insert r (open_fds h) else open_fds h)
      | Sys_accept _ \<Rightarrow> (if 0 \<le> r then insert r (open_fds h) else open_fds h)
      | Sys_close fd \<Rightarrow> open_fds h - {fd}
      | _ \<Rightarrow> open_fds h)"

end
