(* ===== verification/Monad.thy ===== *)
theory Monad
  imports Types
begin

text \<open>
  The monad the statements of the program are written in. A statement takes a state to
  \<open>None\<close> (the C program has no defined result: a null, dangling or out-of-range access, or a
  loop that never ends), or to an outcome and the next state. The outcome is a value, or the
  \<open>exit\<close> status when the process ended.
\<close>

section \<open>Statements\<close>

datatype 'a outcome = Ret 'a | Exit int

type_synonym 'a M = "state \<Rightarrow> ('a outcome \<times> state) option"

definition returnM :: "'a \<Rightarrow> 'a M" where
  "returnM x s = Some (Ret x, s)"

definition bindM :: "'a M \<Rightarrow> ('a \<Rightarrow> 'b M) \<Rightarrow> 'b M" where
  "bindM m f s =
     (case m s of
        None \<Rightarrow> None
      | Some (Exit c, t) \<Rightarrow> Some (Exit c, t)
      | Some (Ret x, t) \<Rightarrow> f x t)"

abbreviation thenM :: "'a M \<Rightarrow> 'b M \<Rightarrow> 'b M" where
  "thenM m n \<equiv> bindM m (\<lambda>_. n)"

definition exitM :: "int \<Rightarrow> 'a M" where
  "exitM c s = Some (Exit c, s)"

text \<open>Undefined behaviour.\<close>

definition undefM :: "'a M" where
  "undefM s = None"

definition getM :: "(state \<Rightarrow> 'a) \<Rightarrow> 'a M" where
  "getM f s = Some (Ret (f s), s)"

definition modifyM :: "(state \<Rightarrow> state) \<Rightarrow> unit M" where
  "modifyM f s = Some (Ret (), f s)"

text \<open>An expression that may be undefined, evaluated in the current state.\<close>

definition readM :: "(state \<Rightarrow> 'a option) \<Rightarrow> 'a M" where
  "readM f s = (case f s of None \<Rightarrow> None | Some x \<Rightarrow> Some (Ret x, s))"

lemma run_simps' [run_simps]:
  "returnM x s = Some (Ret x, s)"
  "exitM c s = Some (Exit c, s)"
  "undefM s = None"
  "getM f s = Some (Ret (f s), s)"
  "modifyM g s = Some (Ret (), g s)"
  "readM h s = (case h s of None \<Rightarrow> None | Some x \<Rightarrow> Some (Ret x, s))"
  "bindM m k s =
     (case m s of
        None \<Rightarrow> None
      | Some (Exit c, t) \<Rightarrow> Some (Exit c, t)
      | Some (Ret x, t) \<Rightarrow> k x t)"
  by (simp_all add: returnM_def exitM_def undefM_def getM_def modifyM_def readM_def bindM_def)

lemma if_run [run_simps]: "(if b then m else n) s = (if b then m s else n s)"
  by simp

lemma bindM_returnM [simp]: "bindM (returnM x) f = f x"
  by (rule ext) (simp add: run_simps)

lemma bindM_assoc: "bindM (bindM m f) g = bindM m (\<lambda>x. bindM (f x) g)"
  by (rule ext) (auto simp: bindM_def split: option.splits outcome.splits)

text \<open>A loop may recurse in the continuation of a bind.\<close>

lemma bindM_mono [partial_function_mono]:
  assumes "\<And>x t. mono_option (\<lambda>f. C f x t)"
  shows "mono_option (\<lambda>f. bindM m (C f) s)"
proof (cases "m s")
  case None
  then show ?thesis by (simp add: bindM_def option.const_mono)
next
  case (Some r)
  then obtain out t where r: "m s = Some (out, t)"
    by (cases r) auto
  then show ?thesis
    using assms by (cases out) (simp_all add: bindM_def option.const_mono)
qed

section \<open>System calls and memory\<close>

text \<open>A system call: the kernel answers, and the call is recorded.\<close>

definition sys :: "env \<Rightarrow> syscall \<Rightarrow> int M" where
  "sys e c s = Some (Ret (e_ret e (hist s) c), s\<lparr>hist := (c, e_ret e (hist s) c) # hist s\<rparr>)"

lemmas [run_simps] = sys_def

text \<open>
  \<open>malloc\<close> always succeeds (the program does not check it) and returns an address no live object
  has; the objects it returns are cleared or filled before they are read.
\<close>

definition malloc_mapping :: "mapping_t \<Rightarrow> ptr M" where
  "malloc_mapping m s =
     Some (Ret (brk s), s\<lparr>brk := Suc (brk s), mheap := (mheap s)(brk s \<mapsto> m)\<rparr>)"

definition malloc_socket :: "socket_t \<Rightarrow> ptr M" where
  "malloc_socket x s =
     Some (Ret (brk s), s\<lparr>brk := Suc (brk s), sheap := (sheap s)(brk s \<mapsto> x)\<rparr>)"

definition malloc_pkt :: "pkt_t \<Rightarrow> ptr M" where
  "malloc_pkt x s =
     Some (Ret (brk s), s\<lparr>brk := Suc (brk s), pheap := (pheap s)(brk s \<mapsto> x)\<rparr>)"

text \<open>\<open>free\<close> of an address that holds no live object is undefined.\<close>

definition free_mapping :: "ptr \<Rightarrow> unit M" where
  "free_mapping p s =
     (case mheap s p of None \<Rightarrow> None | Some _ \<Rightarrow> Some (Ret (), s\<lparr>mheap := (mheap s)(p := None)\<rparr>))"

definition free_socket :: "ptr \<Rightarrow> unit M" where
  "free_socket p s =
     (case sheap s p of None \<Rightarrow> None | Some _ \<Rightarrow> Some (Ret (), s\<lparr>sheap := (sheap s)(p := None)\<rparr>))"

definition free_pkt :: "ptr \<Rightarrow> unit M" where
  "free_pkt p s =
     (case pheap s p of None \<Rightarrow> None | Some _ \<Rightarrow> Some (Ret (), s\<lparr>pheap := (pheap s)(p := None)\<rparr>))"

lemmas [run_simps] =
  malloc_mapping_def malloc_socket_def malloc_pkt_def
  free_mapping_def free_socket_def free_pkt_def

text \<open>Reading and writing an object through a pointer.\<close>

abbreviation mapping_at :: "ptr \<Rightarrow> mapping_t M" where
  "mapping_at p \<equiv> readM (\<lambda>s. mheap s p)"

abbreviation socket_at :: "ptr \<Rightarrow> socket_t M" where
  "socket_at p \<equiv> readM (\<lambda>s. sheap s p)"

abbreviation pkt_at :: "ptr \<Rightarrow> pkt_t M" where
  "pkt_at p \<equiv> readM (\<lambda>s. pheap s p)"

definition put_mapping :: "ptr \<Rightarrow> (mapping_t \<Rightarrow> mapping_t) \<Rightarrow> unit M" where
  "put_mapping p f s =
     (case mheap s p of None \<Rightarrow> None
      | Some m \<Rightarrow> Some (Ret (), s\<lparr>mheap := (mheap s)(p \<mapsto> f m)\<rparr>))"

definition put_socket :: "ptr \<Rightarrow> (socket_t \<Rightarrow> socket_t) \<Rightarrow> unit M" where
  "put_socket p f s =
     (case sheap s p of None \<Rightarrow> None
      | Some x \<Rightarrow> Some (Ret (), s\<lparr>sheap := (sheap s)(p \<mapsto> f x)\<rparr>))"

definition put_pkt :: "ptr \<Rightarrow> (pkt_t \<Rightarrow> pkt_t) \<Rightarrow> unit M" where
  "put_pkt p f s =
     (case pheap s p of None \<Rightarrow> None
      | Some x \<Rightarrow> Some (Ret (), s\<lparr>pheap := (pheap s)(p \<mapsto> f x)\<rparr>))"

lemmas [run_simps] = put_mapping_def put_socket_def put_pkt_def

section \<open>Total correctness\<close>

text \<open>
  \<open>wp m Q s\<close>: from \<open>s\<close> the statement \<open>m\<close> returns a value, and the value and the state satisfy \<open>Q\<close>.
  \<open>wp_exit m Q s\<close> also lets the process \<open>exit\<close>. Both are instances of \<open>wpx\<close>, whose first argument
  says whether an exit is allowed.
\<close>

definition wpx :: "bool \<Rightarrow> 'a M \<Rightarrow> ('a \<Rightarrow> state \<Rightarrow> bool) \<Rightarrow> state \<Rightarrow> bool" where
  "wpx b m Q s =
     (case m s of None \<Rightarrow> False | Some (Exit _, _) \<Rightarrow> b | Some (Ret x, t) \<Rightarrow> Q x t)"

abbreviation wp :: "'a M \<Rightarrow> ('a \<Rightarrow> state \<Rightarrow> bool) \<Rightarrow> state \<Rightarrow> bool" where
  "wp \<equiv> wpx False"

abbreviation wp_exit :: "'a M \<Rightarrow> ('a \<Rightarrow> state \<Rightarrow> bool) \<Rightarrow> state \<Rightarrow> bool" where
  "wp_exit \<equiv> wpx True"

named_theorems wp_simps

lemma wp_basic [wp_simps]:
  "wpx ex (returnM x) Q s = Q x s"
  "wpx ex (exitM k) Q s = ex"
  "wpx ex undefM Q s = False"
  "wpx ex (getM f) Q s = Q (f s) s"
  "wpx ex (modifyM g) Qu s = Qu () (g s)"
  "wpx ex (sys e c) Qi s =
     Qi (e_ret e (hist s) c) (s\<lparr>hist := (c, e_ret e (hist s) c) # hist s\<rparr>)"
  by (simp_all add: wpx_def run_simps)

lemma wp_readM [wp_simps]: "wpx ex (readM f) Q s = (\<exists>x. f s = Some x \<and> Q x s)"
  by (simp add: wpx_def run_simps split: option.splits)

lemma wp_memory [wp_simps]:
  "wpx ex (malloc_mapping m) Q s =
     Q (brk s) (s\<lparr>brk := Suc (brk s), mheap := (mheap s)(brk s \<mapsto> m)\<rparr>)"
  "wpx ex (malloc_socket n) Q s =
     Q (brk s) (s\<lparr>brk := Suc (brk s), sheap := (sheap s)(brk s \<mapsto> n)\<rparr>)"
  "wpx ex (malloc_pkt p) Q s =
     Q (brk s) (s\<lparr>brk := Suc (brk s), pheap := (pheap s)(brk s \<mapsto> p)\<rparr>)"
  "wpx ex (free_mapping a) Qu s =
     (mheap s a \<noteq> None \<and> Qu () (s\<lparr>mheap := (mheap s)(a := None)\<rparr>))"
  "wpx ex (free_socket a) Qu s =
     (sheap s a \<noteq> None \<and> Qu () (s\<lparr>sheap := (sheap s)(a := None)\<rparr>))"
  "wpx ex (free_pkt a) Qu s =
     (pheap s a \<noteq> None \<and> Qu () (s\<lparr>pheap := (pheap s)(a := None)\<rparr>))"
  "wpx ex (put_mapping a fm) Qu s =
     (\<exists>x. mheap s a = Some x \<and> Qu () (s\<lparr>mheap := (mheap s)(a \<mapsto> fm x)\<rparr>))"
  "wpx ex (put_socket a fs) Qu s =
     (\<exists>x. sheap s a = Some x \<and> Qu () (s\<lparr>sheap := (sheap s)(a \<mapsto> fs x)\<rparr>))"
  "wpx ex (put_pkt a fp) Qu s =
     (\<exists>x. pheap s a = Some x \<and> Qu () (s\<lparr>pheap := (pheap s)(a \<mapsto> fp x)\<rparr>))"
  by (auto simp: wpx_def run_simps split: option.splits)

lemma wp_bindM [wp_simps]: "wpx ex (bindM m f) Q s = wpx ex m (\<lambda>x t. wpx ex (f x) Q t) s"
  by (simp add: wpx_def bindM_def split: option.splits outcome.splits prod.splits)

lemma wp_if [wp_simps]:
  "wpx ex (if b then m else n) Q s = ((b \<longrightarrow> wpx ex m Q s) \<and> (\<not> b \<longrightarrow> wpx ex n Q s))"
  by simp

lemma wp_conseq: "wpx ex m P s \<Longrightarrow> (\<And>x t. P x t \<Longrightarrow> Q x t) \<Longrightarrow> wpx ex m Q s"
  by (auto simp: wpx_def split: option.splits outcome.splits)

lemma wp_defined: "wpx ex m Q s \<Longrightarrow> m s \<noteq> None"
  by (auto simp: wpx_def split: option.splits)

lemma wpD: "wpx ex m Q s \<Longrightarrow> m s = Some (Ret x, t) \<Longrightarrow> Q x t"
  by (simp add: wpx_def)

lemma wp_bindI: "wpx ex m P s \<Longrightarrow> (\<And>x t. P x t \<Longrightarrow> wpx ex (f x) Q t) \<Longrightarrow> wpx ex (bindM m f) Q s"
  by (simp add: wp_bindM) (rule wp_conseq)

text \<open>Without an exit there is a result.\<close>

lemma wp_result: "wp m Q s \<Longrightarrow> \<exists>x t. m s = Some (Ret x, t) \<and> Q x t"
  by (auto simp: wpx_def split: option.splits prod.splits outcome.splits)

lemma wp_weaken: "wp m Q s \<Longrightarrow> wpx ex m Q s"
  by (auto simp: wpx_def split: option.splits outcome.splits)

text \<open>A statement whose run is known.\<close>

lemma wp_run: "m s = Some (Ret x, t) \<Longrightarrow> wpx ex m Q s = Q x t"
  by (simp add: wpx_def)

section \<open>Frames\<close>

text \<open>
  \<open>framed R m\<close>: wherever \<open>m\<close> has a result, returned or exited, the states before and after are
  related by \<open>R\<close>. For a reflexive and transitive \<open>R\<close> this passes through the monad.
\<close>

definition framed :: "(state \<Rightarrow> state \<Rightarrow> bool) \<Rightarrow> 'a M \<Rightarrow> bool" where
  "framed R m = (\<forall>s out t. m s = Some (out, t) \<longrightarrow> R s t)"

lemma framedD: "framed R m \<Longrightarrow> m s = Some (out, t) \<Longrightarrow> R s t"
  by (simp add: framed_def)

lemma wp_framed: "framed R m \<Longrightarrow> wpx b m Q s \<Longrightarrow> wpx b m (\<lambda>x t. Q x t \<and> R s t) s"
  by (auto simp: wpx_def framed_def split: option.splits outcome.splits)

locale frame =
  fixes R :: "state \<Rightarrow> state \<Rightarrow> bool"
  assumes R_refl: "R s s"
    and R_trans: "R s t \<Longrightarrow> R t u \<Longrightarrow> R s u"
begin

lemma framed_pure [simp]:
  "framed R (returnM x)" "framed R (exitM c)" "framed R undefM" "framed R (getM f)"
  "framed R (readM g)"
  by (auto simp: framed_def run_simps R_refl split: option.splits)

lemma framed_bind:
  assumes "framed R m" and "\<And>x. framed R (f x)"
  shows "framed R (bindM m f)"
  unfolding framed_def
proof (intro allI impI)
  fix s out u
  assume run: "bindM m f s = Some (out, u)"
  show "R s u"
  proof (cases "m s")
    case None
    with run show ?thesis by (simp add: run_simps)
  next
    case (Some r)
    then obtain o1 t where m: "m s = Some (o1, t)" by (cases r) auto
    then have "R s t" using assms(1) by (rule framedD [rotated])
    with m run show ?thesis
      using assms(2) by (cases o1) (auto simp: run_simps dest: framedD intro: R_trans)
  qed
qed

lemma framed_if: "(b \<Longrightarrow> framed R m) \<Longrightarrow> (\<not> b \<Longrightarrow> framed R n) \<Longrightarrow> framed R (if b then m else n)"
  by simp

lemma framed_case_option:
  "framed R m \<Longrightarrow> (\<And>x. framed R (f x)) \<Longrightarrow>
     framed R (case v of None \<Rightarrow> m | Some x \<Rightarrow> f x)"
  by (cases v) simp_all

lemma framed_case_prod: "(\<And>x y. framed R (f x y)) \<Longrightarrow> framed R (case p of (x, y) \<Rightarrow> f x y)"
  by (cases p) simp

lemmas framed_intros = framed_pure framed_bind framed_if framed_case_option framed_case_prod

end

text \<open>Two states that differ only in the calls made.\<close>

definition only_hist :: "state \<Rightarrow> state \<Rightarrow> bool" where
  "only_hist s t = (\<exists>h. t = s\<lparr>hist := h @ hist s\<rparr>)"

interpretation only_hist: frame only_hist
proof unfold_locales
  show "only_hist s s" for s
    by (auto simp: only_hist_def intro!: exI [of _ "[]"])
next
  fix s t u
  assume "only_hist s t" "only_hist t u"
  then obtain h k where "t = s\<lparr>hist := h @ hist s\<rparr>" "u = t\<lparr>hist := k @ hist t\<rparr>"
    by (auto simp: only_hist_def)
  then have "u = s\<lparr>hist := (k @ h) @ hist s\<rparr>" by simp
  then show "only_hist s u" unfolding only_hist_def by blast
qed

lemma only_hist_push [simp]: "only_hist s (s\<lparr>hist := x # hist s\<rparr>)"
  unfolding only_hist_def by (rule exI [of _ "[x]"]) simp

lemma only_hist_sys [simp]: "framed only_hist (sys e c)"
  by (auto simp: framed_def run_simps)

end
