(* ===== verification/Lowlevel.thy ===== *)
theory Lowlevel
  imports Monad
begin

text \<open>
  The socket layer of \<^verbatim>\<open>src/lowlevel-linux.c\<close>: creating, naming, reading, writing and closing
  IPv4 sockets with the system calls the code makes, in its order, with its error codes.
\<close>

section \<open>Operations\<close>

text \<open>
  The first \<open>n\<close> bytes of a buffer of which the bytes \<open>data\<close> are initialised; undefined when the
  code asks for more.
\<close>

definition buf_bytes :: "byte list \<Rightarrow> int \<Rightarrow> byte list option" where
  "buf_bytes data n = (if 0 \<le> n \<and> n \<le> int (length data) then Some (take (nat n) data) else None)"

text \<open>C divides towards zero. Not called by the program.\<close>

definition microsleep :: "env \<Rightarrow> int \<Rightarrow> unit M" where
  "microsleep e microsecs =
     (let sec = sgn microsecs * (\<bar>microsecs\<bar> div 1000000)
      in thenM (sys e (Sys_nanosleep sec ((microsecs - sec * 1000000) * 1000))) (returnM ()))"

definition setnonblocking :: "env \<Rightarrow> int \<Rightarrow> unit M" where
  "setnonblocking e sock =
     bindM (sys e (Sys_getfl sock)) (\<lambda>opts.
     if opts < 0 then exitM 1
     else bindM (sys e (Sys_setfl sock (opts OR O_NONBLOCK e))) (\<lambda>r.
       if r < 0 then exitM 1 else returnM ()))"

definition sock_stype :: "int \<Rightarrow> stype option" where
  "sock_stype proto =
     (if proto = IPPROTO_TCP then Some SOCK_STREAM
      else if proto = IPPROTO_UDP then Some SOCK_DGRAM
      else if proto = IPPROTO_RAW then Some SOCK_RAW
      else None)"

text \<open>
  \<open>sprintf(port_char, "%d", port)\<close> has room for five characters and the terminator. The test
  for a multicast address reads the top byte of \<open>s_addr\<close> as the machine has it.
\<close>

definition port_char_fits :: "int \<Rightarrow> bool" where
  "port_char_fits port \<longleftrightarrow> -9999 \<le> port \<and> port \<le> 99999"

definition sock_is_multicast :: "u32 \<Rightarrow> bool" where
  "sock_is_multicast addr \<longleftrightarrow> 239 \<le> drop_bit 24 addr"

text \<open>The part of \<open>sock_add\<close> after \<open>bind\<close> succeeded.\<close>

definition sock_add_finish :: "env \<Rightarrow> int \<Rightarrow> u32 \<Rightarrow> int \<Rightarrow> int \<Rightarrow> int M" where
  "sock_add_finish e Insock addr port proto =
     thenM (if proto = IPPROTO_TCP
            then thenM (setnonblocking e Insock) (thenM (sys e (Sys_listen Insock 5)) (returnM ()))
            else returnM ())
     (thenM (sys e Sys_freeaddrinfo)
     (if sock_is_multicast addr then
        bindM (sys e (Sys_getaddrinfo (Some addr) port)) (\<lambda>error.
        if error \<noteq> 0 then returnM LOWLEVEL_ERROR_GETADDRINFO
        else bindM (sys e (Sys_setsockopt Insock (IP_ADD_MEMBERSHIP addr addr))) (\<lambda>r.
        if r \<noteq> 0 then returnM LOWLEVEL_ERROR_MCAST_MEMBERSHIP
        else thenM (sys e Sys_freeaddrinfo) (returnM Insock)))
      else returnM Insock))"

definition sock_add ::
  "env \<Rightarrow> string \<Rightarrow> u32 \<Rightarrow> int \<Rightarrow> int \<Rightarrow> int \<Rightarrow> int \<Rightarrow> int M" where
  "sock_add e ifacename addr port proto thisifaceonly reuse =
     (if \<not> port_char_fits port then undefM
      else case sock_stype proto of
        None \<Rightarrow> returnM LOWLEVEL_ERROR_UNSPEC
      | Some ty \<Rightarrow>
          bindM (sys e (Sys_getaddrinfo None port)) (\<lambda>error.
          if error \<noteq> 0 then returnM LOWLEVEL_ERROR_GETADDRINFO
          else bindM (sys e (Sys_socket AF_INET ty 0)) (\<lambda>Insock.
          if Insock < 0 then returnM LOWLEVEL_ERROR_UNSPEC
          else bindM (sys e (Sys_setsockopt Insock IP_PKTINFO)) (\<lambda>r1.
          if r1 < 0 then returnM LOWLEVEL_ERROR_SOCK_OPTS
          else bindM (if thisifaceonly \<noteq> 0
                      then sys e (Sys_setsockopt Insock (SO_BINDTODEVICE ifacename))
                      else returnM 0) (\<lambda>r2.
          if r2 < 0 then returnM LOWLEVEL_ERROR_BIND_IFACE
          else bindM (if reuse \<noteq> 0 then sys e (Sys_setsockopt Insock SO_REUSEADDR)
                      else returnM 0) (\<lambda>r3.
          if r3 < 0 then returnM LOWLEVEL_ERROR_REUSE_FAILED
          else bindM (sys e (Sys_bind Insock
                        (Sockaddr_in addr (htons_int (big_endian e) port)))) (\<lambda>r4.
          if r4 < 0 then returnM LOWLEVEL_ERROR_BIND_FAILED
          else sock_add_finish e Insock addr port proto)))))))"

definition sock_get_port :: "env \<Rightarrow> int \<Rightarrow> int M" where
  "sock_get_port e fd =
     bindM (sys e (Sys_getsockname fd)) (\<lambda>r.
     if r < 0 then returnM (-1)
     else getM (\<lambda>s. uint (htons (big_endian e) (e_port e (hist s) fd))))"

definition sock_del :: "env \<Rightarrow> int \<Rightarrow> int M" where
  "sock_del e fd = sys e (Sys_close fd)"

definition sock_send :: "env \<Rightarrow> int \<Rightarrow> u32 \<Rightarrow> byte list \<Rightarrow> int \<Rightarrow> int \<Rightarrow> int M" where
  "sock_send e sock addr data dataLen port =
     bindM (readM (\<lambda>_. buf_bytes data dataLen)) (\<lambda>bytes.
     bindM (sys e (Sys_sendto sock bytes
              (Sockaddr_in addr (htons_int (big_endian e) port)))) (\<lambda>result.
     if result < 0 then returnM LOWLEVEL_ERROR_SOCKET else returnM LOWLEVEL_NO_ERROR))"

text \<open>
  \<open>recvmsg\<close> returns -1, or the number of bytes it stored, which is at most the buffer's size.
\<close>

definition recvmsg :: "env \<Rightarrow> int \<Rightarrow> nat \<Rightarrow> (int \<times> rmsg) M" where
  "recvmsg e fd buflen s =
     (let m = (e_recv e (hist s) fd)\<lparr>r_bytes := take buflen (r_bytes (e_recv e (hist s) fd))\<rparr>;
          r = (if e_ret e (hist s) (Sys_recvmsg fd buflen) = -1 then -1
               else int (length (r_bytes m)))
      in Some (Ret (r, m), s\<lparr>hist := (Sys_recvmsg fd buflen, r) # hist s\<rparr>))"

text \<open>
  What \<open>sock_recv\<close> leaves in its output arguments: the bytes in the buffer, the sender's address
  and port, and the local address if a control message carried it.
\<close>

record recv_out =
  o_buf :: "byte list"
  o_peer_addr :: u32
  o_peer_port :: int
  o_my_addr :: "u32 option"

definition sock_recv :: "env \<Rightarrow> int \<Rightarrow> nat \<Rightarrow> (int \<times> recv_out) M" where
  "sock_recv e fd buflen =
     bindM (recvmsg e fd buflen) (\<lambda>(result, m).
     if result = -1
     then returnM (LOWLEVEL_ERROR_UNSPEC,
            \<lparr>o_buf = [], o_peer_addr = 0, o_peer_port = 0, o_my_addr = None\<rparr>)
     else returnM (result,
            \<lparr>o_buf = r_bytes m, o_peer_addr = r_peer m,
             o_peer_port = uint (htons (big_endian e) (r_port m)),
             o_my_addr = (if r_pktinfo m = [] then None else Some (last (r_pktinfo m)))\<rparr>))"

text \<open>The result, the data, and the destination address when a control message gives one.\<close>

definition sock6_recv :: "env \<Rightarrow> int \<Rightarrow> nat \<Rightarrow> (int \<times> byte list \<times> byte list option) M" where
  "sock6_recv e fd buflen =
     bindM (recvmsg e fd buflen) (\<lambda>(result, m).
     if result = -1 then returnM (LOWLEVEL_ERROR_UNSPEC, [], None)
     else returnM (result, r_bytes m,
            if r_pktinfo6 m = [] then None else Some (last (r_pktinfo6 m))))"

section \<open>What the operations leave alone\<close>

text \<open>
  Every operation of this layer changes nothing but the record of calls, whatever the kernel
  answers, and is defined except for the port buffer of \<open>sock_add\<close> and a length that exceeds the
  data.
\<close>

lemma only_hist_recvmsg [simp]: "framed only_hist (recvmsg e fd n)"
  by (auto simp: framed_def recvmsg_def Let_def)

lemma only_hist_setnonblocking [simp]: "framed only_hist (setnonblocking e fd)"
  unfolding setnonblocking_def by (intro only_hist.framed_intros only_hist_sys)

lemma only_hist_sock_add_finish [simp]: "framed only_hist (sock_add_finish e fd a p q)"
  unfolding sock_add_finish_def
  by (intro only_hist.framed_intros only_hist_sys only_hist_setnonblocking)

lemma only_hist_sock_add [simp]: "framed only_hist (sock_add e ifn a p q b r)"
  unfolding sock_add_def
  by (intro only_hist.framed_intros only_hist_sys only_hist_sock_add_finish)

lemma only_hist_sock_get_port [simp]: "framed only_hist (sock_get_port e fd)"
  unfolding sock_get_port_def by (intro only_hist.framed_intros only_hist_sys)

lemma only_hist_sock_del [simp]: "framed only_hist (sock_del e fd)"
  by (simp add: sock_del_def)

lemma only_hist_sock_send [simp]: "framed only_hist (sock_send e fd a d n p)"
  unfolding sock_send_def by (intro only_hist.framed_intros only_hist_sys)

lemma only_hist_sock_recv [simp]: "framed only_hist (sock_recv e fd n)"
  unfolding sock_recv_def by (intro only_hist.framed_intros only_hist_recvmsg)

lemma only_hist_sock6_recv [simp]: "framed only_hist (sock6_recv e fd n)"
  unfolding sock6_recv_def by (intro only_hist.framed_intros only_hist_recvmsg)

text \<open>
  Documented behaviour of the kernel the main loop relies on: new descriptors are below
  \<open>FD_SETSIZE\<close> (the limit on open files is not above it).
\<close>

definition fds_bounded :: "env \<Rightarrow> bool" where
  "fds_bounded e \<longleftrightarrow>
     (\<forall>h f ty q. e_ret e h (Sys_socket f ty q) < FD_SETSIZE) \<and>
     (\<forall>h fd. e_ret e h (Sys_accept fd) < FD_SETSIZE)"

lemma wp_sock_add:
  assumes "port_char_fits port" and "fds_bounded e"
  shows "wp_exit (sock_add e ifn a port q b r) (\<lambda>fd t. only_hist s t \<and> fd < FD_SETSIZE) s"
proof -
  have "wp_exit (sock_add e ifn a port q b r) (\<lambda>fd _. fd < FD_SETSIZE) s"
    using assms
    by (simp add: sock_add_def sock_add_finish_def setnonblocking_def wp_simps lowlevel_defs
        FD_SETSIZE_def fds_bounded_def split: option.splits)
  then show ?thesis
    by (rule wp_conseq [OF wp_framed [OF only_hist_sock_add]]) simp
qed

text \<open>The port \<open>sock_get_port\<close> reports for a descriptor after the calls \<open>h\<close>.\<close>

definition local_port :: "env \<Rightarrow> event list \<Rightarrow> int \<Rightarrow> int" where
  "local_port e h fd =
     (let r = e_ret e h (Sys_getsockname fd)
      in if r < 0 then -1
         else uint (htons (big_endian e) (e_port e ((Sys_getsockname fd, r) # h) fd)))"

lemma sock_get_port_run:
  "sock_get_port e fd s =
     Some (Ret (local_port e (hist s) fd),
       s\<lparr>hist := (Sys_getsockname fd, e_ret e (hist s) (Sys_getsockname fd)) # hist s\<rparr>)"
  by (simp add: sock_get_port_def local_port_def run_simps Let_def)

text \<open>What \<open>sock_recv\<close> returns and stores after the calls \<open>h\<close>.\<close>

definition recv_ret :: "env \<Rightarrow> event list \<Rightarrow> int \<Rightarrow> nat \<Rightarrow> int" where
  "recv_ret e h fd n =
     (if e_ret e h (Sys_recvmsg fd n) = -1 then -1
      else int (length (take n (r_bytes (e_recv e h fd)))))"

definition recv_info :: "env \<Rightarrow> event list \<Rightarrow> int \<Rightarrow> nat \<Rightarrow> recv_out" where
  "recv_info e h fd n =
     (let m = e_recv e h fd in
      if e_ret e h (Sys_recvmsg fd n) = -1
      then \<lparr>o_buf = [], o_peer_addr = 0, o_peer_port = 0, o_my_addr = None\<rparr>
      else \<lparr>o_buf = take n (r_bytes m), o_peer_addr = r_peer m,
            o_peer_port = uint (htons (big_endian e) (r_port m)),
            o_my_addr = (if r_pktinfo m = [] then None else Some (last (r_pktinfo m)))\<rparr>)"

lemma recv_ret_neg: "recv_ret e h fd n < 0 \<longleftrightarrow> recv_ret e h fd n = -1"
  by (simp add: recv_ret_def)

lemma recv_buf_length:
  "recv_ret e h fd n \<noteq> -1 \<Longrightarrow> int (length (o_buf (recv_info e h fd n))) = recv_ret e h fd n"
  by (auto simp: recv_ret_def recv_info_def Let_def)

lemma recv_buf_le: "length (o_buf (recv_info e h fd n)) \<le> n"
  by (auto simp: recv_info_def Let_def)

lemma recvmsg_run:
  "recvmsg e fd n s =
     Some (Ret (recv_ret e (hist s) fd n,
       (e_recv e (hist s) fd)\<lparr>r_bytes := take n (r_bytes (e_recv e (hist s) fd))\<rparr>),
       s\<lparr>hist := (Sys_recvmsg fd n, recv_ret e (hist s) fd n) # hist s\<rparr>)"
  by (simp add: recvmsg_def recv_ret_def Let_def)

lemma sock_recv_run:
  "sock_recv e fd n s =
     Some (Ret (recv_ret e (hist s) fd n, recv_info e (hist s) fd n),
       s\<lparr>hist := (Sys_recvmsg fd n, recv_ret e (hist s) fd n) # hist s\<rparr>)"
  by (auto simp: sock_recv_def run_simps recvmsg_run recv_info_def Let_def
      LOWLEVEL_ERROR_UNSPEC_def) (auto simp: recv_ret_def)

lemma sock6_recv_run:
  "sock6_recv e fd n s =
     Some (Ret (recv_ret e (hist s) fd n, o_buf (recv_info e (hist s) fd n),
       if recv_ret e (hist s) fd n = -1 \<or> r_pktinfo6 (e_recv e (hist s) fd) = [] then None
       else Some (last (r_pktinfo6 (e_recv e (hist s) fd)))),
       s\<lparr>hist := (Sys_recvmsg fd n, recv_ret e (hist s) fd n) # hist s\<rparr>)"
  by (auto simp: sock6_recv_def run_simps recvmsg_run recv_info_def Let_def
      LOWLEVEL_ERROR_UNSPEC_def) (auto simp: recv_ret_def)

lemma wp_sock_get_port: "wp (sock_get_port e fd) (\<lambda>p t. only_hist s t \<and> -1 \<le> p \<and> p < 65536) s"
proof -
  have "wp (sock_get_port e fd) (\<lambda>p t. -1 \<le> p \<and> p < 65536) s"
    using uint_lt2p [where 'a = 16]
    by (simp add: sock_get_port_def wp_simps order_trans [OF _ uint_ge_0])
  then show ?thesis
    by (rule wp_conseq [OF wp_framed [OF only_hist_sock_get_port]]) simp
qed

lemma wp_sock_send:
  assumes "0 \<le> n" "n \<le> int (length d)"
  shows "wp (sock_send e fd a d n p) (\<lambda>r t. only_hist s t \<and> (r = 0 \<or> r = LOWLEVEL_ERROR_SOCKET)) s"
proof -
  have "wp (sock_send e fd a d n p) (\<lambda>r t. r = 0 \<or> r = LOWLEVEL_ERROR_SOCKET) s"
    using assms by (simp add: sock_send_def wp_simps buf_bytes_def LOWLEVEL_NO_ERROR_def)
  then show ?thesis
    by (rule wp_conseq [OF wp_framed [OF only_hist_sock_send]]) simp
qed

end
