(* ===== verification/Chains.thy ===== *)
theory Chains
  imports Prelude
begin

text \<open>
  Singly linked lists in a heap. \<open>chain_at nxt h p xs\<close> says that following \<open>nxt\<close> from \<open>p\<close> in
  the heap \<open>h\<close> visits exactly the nodes \<open>xs\<close> (address and contents) and then \<open>NULL\<close>. The
  locale \<open>chain\<close> is the interface of a node type with a \<open>next\<close> field; the tables of mappings
  and of sockets interpret it.
\<close>

section \<open>Lists in a heap\<close>

fun chain_at :: "('n \<Rightarrow> ptr) \<Rightarrow> (ptr \<Rightarrow> 'n option) \<Rightarrow> ptr \<Rightarrow> (ptr \<times> 'n) list \<Rightarrow> bool" where
  "chain_at nxt h p [] = (p = 0)"
| "chain_at nxt h p ((a, n) # xs) =
     (p = a \<and> a \<noteq> 0 \<and> h a = Some n \<and> chain_at nxt h (nxt n) xs)"

text \<open>
  The loop \<open>while (p) { if (P p) return p; p = p->next; } return NULL;\<close>. It is undefined on a
  dangling pointer, and a list that runs into a cycle without a hit never ends.
\<close>

partial_function (option) walk ::
  "('n \<Rightarrow> ptr) \<Rightarrow> ('n \<Rightarrow> bool) \<Rightarrow> (ptr \<Rightarrow> 'n option) \<Rightarrow> ptr \<Rightarrow> ptr option" where
  "walk nxt P h p =
     (if p = 0 then Some 0
      else case h p of
             None \<Rightarrow> None
           | Some n \<Rightarrow> if P n then Some p else walk nxt P h (nxt n))"

text \<open>The loop that visits the whole list and collects its nodes.\<close>

partial_function (option) gather ::
  "('n \<Rightarrow> ptr) \<Rightarrow> (ptr \<Rightarrow> 'n option) \<Rightarrow> ptr \<Rightarrow> 'n list \<Rightarrow> 'n list option" where
  "gather nxt h p acc =
     (if p = 0 then Some (rev acc)
      else case h p of None \<Rightarrow> None | Some n \<Rightarrow> gather nxt h (nxt n) (n # acc))"

text \<open>The address of the first node that satisfies a predicate, \<open>NULL\<close> if there is none.\<close>

definition first_addr :: "('n \<Rightarrow> bool) \<Rightarrow> (ptr \<times> 'n) list \<Rightarrow> ptr" where
  "first_addr P xs = (case find (P \<circ> snd) xs of None \<Rightarrow> 0 | Some (a, _) \<Rightarrow> a)"

lemma first_addr_simps [simp]:
  "first_addr P [] = 0"
  "first_addr P ((a, n) # xs) = (if P n then a else first_addr P xs)"
  by (simp_all add: first_addr_def)

lemma chain_at_NULL [simp]: "chain_at nxt h 0 xs \<longleftrightarrow> xs = []"
  by (cases xs) auto

lemma chain_at_nonNULL:
  "p \<noteq> 0 \<Longrightarrow> chain_at nxt h p xs \<longleftrightarrow>
     (\<exists>n ys. xs = (p, n) # ys \<and> h p = Some n \<and> chain_at nxt h (nxt n) ys)"
  by (cases xs) auto

lemma chain_at_det: "chain_at nxt h p xs \<Longrightarrow> chain_at nxt h p ys \<Longrightarrow> xs = ys"
proof (induction xs arbitrary: p ys)
  case Nil
  then show ?case by simp
next
  case (Cons x xs)
  then show ?case by (cases x; cases ys) auto
qed

lemma chain_at_mem: "chain_at nxt h p xs \<Longrightarrow> (a, n) \<in> set xs \<Longrightarrow> a \<noteq> 0 \<and> h a = Some n"
  by (induction nxt h p xs rule: chain_at.induct) auto

lemma chain_at_suffix:
  "chain_at nxt h p (xs @ ys) \<Longrightarrow> \<exists>q. chain_at nxt h q ys"
  by (induction xs arbitrary: p) auto

lemma chain_at_distinct: "chain_at nxt h p xs \<Longrightarrow> distinct (map fst xs)"
proof (induction nxt h p xs rule: chain_at.induct)
  case (1 nxt h p)
  then show ?case by simp
next
  case (2 nxt h p a n xs)
  have "a \<notin> set (map fst xs)"
  proof
    assume "a \<in> set (map fst xs)"
    then obtain us m vs where xs: "xs = us @ (a, m) # vs"
      by (auto simp: in_set_conv_decomp)
    with "2.prems" obtain q where q: "chain_at nxt h q ((a, m) # vs)"
      using chain_at_suffix [of nxt h "nxt n" us "(a, m) # vs"] by auto
    with "2.prems" have "chain_at nxt h a ((a, n) # xs)" "chain_at nxt h a ((a, m) # vs)"
      by auto
    then have "(a, n) # xs = (a, m) # vs" by (rule chain_at_det)
    with xs show False by auto
  qed
  with 2 show ?case by simp
qed

lemma chain_at_cong:
  "(\<And>a n. (a, n) \<in> set xs \<Longrightarrow> h' a = h a) \<Longrightarrow> chain_at nxt h' p xs = chain_at nxt h p xs"
proof (induction xs arbitrary: p)
  case Nil
  then show ?case by simp
next
  case (Cons x xs)
  then have "h' (fst x) = h (fst x)" "\<And>q. chain_at nxt h' q xs = chain_at nxt h q xs"
    by (cases x; auto)+
  then show ?case by (cases x) auto
qed

lemma chain_at_upd [simp]:
  "a \<notin> fst ` set xs \<Longrightarrow> chain_at nxt (h(a := v)) p xs = chain_at nxt h p xs"
  by (rule chain_at_cong) force

lemma walk_chain: "chain_at nxt h p xs \<Longrightarrow> walk nxt P h p = Some (first_addr P xs)"
  by (induction nxt h p xs rule: chain_at.induct) (auto simp: walk.simps)

lemma gather_chain: "chain_at nxt h p xs \<Longrightarrow> gather nxt h p acc = Some (rev acc @ map snd xs)"
  by (induction nxt h p xs arbitrary: acc rule: chain_at.induct) (auto simp: gather.simps)

lemma first_addr_cases:
  assumes "chain_at nxt h p xs"
  obtains (none) "first_addr P xs = 0" "\<forall>(a, n) \<in> set xs. \<not> P n"
  | (hit) ys a n zs where "xs = ys @ (a, n) # zs" "first_addr P xs = a" "a \<noteq> 0" "h a = Some n"
      "P n" "\<forall>(b, m) \<in> set ys. \<not> P m"
proof (cases "find (P \<circ> snd) xs")
  case None
  from None have "first_addr P xs = 0"
    by (simp add: first_addr_def)
  moreover from None have "\<forall>(a, n) \<in> set xs. \<not> P n"
    by (force simp: find_None_iff)
  ultimately show thesis by (rule none)
next
  case (Some r)
  then obtain i where i: "i < length xs" "P (snd (xs ! i))" "r = xs ! i"
      "\<forall>j<i. \<not> P (snd (xs ! j))"
    by (auto simp: find_Some_iff)
  obtain a n where r: "r = (a, n)" by (cases r)
  have "xs = take i xs @ (a, n) # drop (Suc i) xs"
    using i r id_take_nth_drop by metis
  moreover have "first_addr P xs = a"
    using Some r by (simp add: first_addr_def)
  moreover have "a \<noteq> 0 \<and> h a = Some n"
    using assms i r by (metis chain_at_mem nth_mem)
  moreover have "P n"
    using i r by (metis snd_conv)
  moreover have "\<forall>(b, m) \<in> set (take i xs). \<not> P m"
    using i by (force simp: in_set_conv_nth)
  ultimately show thesis by (blast intro: hit)
qed

section \<open>The interface of a linked node\<close>

text \<open>
  What the list operations need of a node: its \<open>next\<close> field can be read and assigned, and the
  assignment changes nothing else.
\<close>

locale chain =
  fixes nxt :: "'n \<Rightarrow> ptr"
    and set_nxt :: "ptr \<Rightarrow> 'n \<Rightarrow> 'n"
  assumes nxt_set [simp]: "nxt (set_nxt p n) = p"
    and set_set [simp]: "set_nxt p (set_nxt q n) = set_nxt p n"
    and set_nxt_id: "set_nxt (nxt n) n = n"
begin

text \<open>The contents of the nodes, with the links erased.\<close>

abbreviation erase :: "(ptr \<times> 'n) list \<Rightarrow> (ptr \<times> 'n) list" where
  "erase xs \<equiv> map (\<lambda>(a, n). (a, set_nxt 0 n)) xs"

lemma fst_erase: "map fst (erase xs) = map fst xs"
  by (induction xs) auto

text \<open>A new node in front.\<close>

lemma chain_push:
  assumes "chain_at nxt h p xs" and "a \<noteq> 0" and "a \<notin> fst ` set xs" and "nxt n = p"
  shows "chain_at nxt (h(a \<mapsto> n)) a ((a, n) # xs)"
  using assms by simp

text \<open>Unlinking the first node, and unlinking the node after \<open>b\<close>.\<close>

lemma chain_pop:
  "chain_at nxt h p ((a, n) # xs) \<Longrightarrow> chain_at nxt h (nxt n) xs"
  by simp

lemma chain_relink:
  assumes "chain_at nxt h p (ys @ (b, m) # (a, n) # zs)"
  shows "chain_at nxt (h(b \<mapsto> set_nxt (nxt n) m)) p (ys @ (b, set_nxt (nxt n) m) # zs)"
proof -
  have d: "b \<notin> fst ` set ys" "b \<notin> fst ` set zs"
    using chain_at_distinct [OF assms] by (auto simp: image_iff)
  show ?thesis
    using assms d
  proof (induction ys arbitrary: p)
    case Nil
    then show ?case by (simp del: fun_upd_apply add: fun_upd_same)
  next
    case (Cons y ys)
    then show ?case by (cases y) auto
  qed
qed

lemma chain_unlink:
  assumes "chain_at nxt h p (ys @ (b, m) # (a, n) # zs)"
  shows "chain_at nxt ((h(b \<mapsto> set_nxt (nxt n) m))(a := None)) p
           (ys @ (b, set_nxt (nxt n) m) # zs)"
proof -
  have "a \<notin> fst ` set (ys @ (b, set_nxt (nxt n) m) # zs)"
    using chain_at_distinct [OF assms] by (auto simp: image_iff)
  then have "chain_at nxt ((h(b \<mapsto> set_nxt (nxt n) m))(a := None)) p
      (ys @ (b, set_nxt (nxt n) m) # zs) =
    chain_at nxt (h(b \<mapsto> set_nxt (nxt n) m)) p (ys @ (b, set_nxt (nxt n) m) # zs)"
    by (rule chain_at_upd)
  then show ?thesis
    using chain_relink [OF assms] by (rule iffD2)
qed

lemma erase_relink: "erase (ys @ (b, set_nxt q m) # zs) = erase (ys @ (b, m) # zs)"
  by simp

lemma chain_mem_not_NULL: "chain_at nxt h p xs \<Longrightarrow> a \<in> fst ` set xs \<Longrightarrow> a \<noteq> 0 \<and> h a \<noteq> None"
  using chain_at_mem by fastforce

text \<open>Changing a node in place, its link kept.\<close>

lemma chain_put:
  assumes "chain_at nxt h p (ys @ (a, n) # zs)" and "nxt n' = nxt n"
  shows "chain_at nxt (h(a \<mapsto> n')) p (ys @ (a, n') # zs)"
proof -
  have d: "a \<notin> fst ` set ys" "a \<notin> fst ` set zs"
    using chain_at_distinct [OF assms(1)] by (auto simp: image_iff)
  show ?thesis
    using assms(1) d
  proof (induction ys arbitrary: p)
    case Nil
    then show ?case using assms(2) by (simp del: fun_upd_apply add: fun_upd_same)
  next
    case (Cons y ys)
    then show ?case by (cases y) auto
  qed
qed

end

end
