(* ===== verification/Tables.thy ===== *)
theory Tables
  imports Lowlevel Chains
begin

text \<open>
  The two linked lists of the context, the mappings and the sockets, as the state represents
  them; the invariant of the heap; and the frames of the operations on each list.
\<close>

section \<open>The lists of the context\<close>

interpretation mc: chain m_next "\<lambda>p. m_next_update (\<lambda>_. p)"
  by unfold_locales simp_all

interpretation sc: chain s_next "\<lambda>p. s_next_update (\<lambda>_. p)"
  by unfold_locales simp_all

text \<open>
  Addresses are handed out in order, so an address at or above \<open>brk\<close> holds no object, nor does
  \<open>NULL\<close>.
\<close>

definition heap_ok :: "state \<Rightarrow> bool" where
  "heap_ok s \<longleftrightarrow> 0 < brk s \<and>
     (\<forall>p. p = 0 \<or> brk s \<le> p \<longrightarrow> mheap s p = None \<and> sheap s p = None \<and> pheap s p = None)"

text \<open>
  \<open>tables s ms ss\<close>: the context's mappings are the nodes \<open>ms\<close> and its sockets the nodes \<open>ss\<close>, in
  list order, each with its address.
\<close>

definition tables ::
  "state \<Rightarrow> (ptr \<times> mapping_t) list \<Rightarrow> (ptr \<times> socket_t) list \<Rightarrow> bool" where
  "tables s ms ss \<longleftrightarrow>
     chain_at m_next (mheap s) (mappings s) ms \<and>
     chain_at s_next (sheap s) (sockets s) ss \<and> heap_ok s"

text \<open>What a list holds, its links erased: the addresses and the contents.\<close>

definition map_view :: "(ptr \<times> mapping_t) list \<Rightarrow> (ptr \<times> mapping_t) list" where
  "map_view ms = map (\<lambda>(a, m). (a, m\<lparr>m_next := 0\<rparr>)) ms"

definition sock_view :: "(ptr \<times> socket_t) list \<Rightarrow> (ptr \<times> socket_t) list" where
  "sock_view ss = map (\<lambda>(a, n). (a, n\<lparr>s_next := 0\<rparr>)) ss"

lemma map_view_simps [simp]:
  "map_view [] = []"
  "map_view ((a, m) # ms) = (a, m\<lparr>m_next := 0\<rparr>) # map_view ms"
  "map_view (xs @ ys) = map_view xs @ map_view ys"
  "map_view ms = [] \<longleftrightarrow> ms = []"
  "length (map_view ms) = length ms"
  by (simp_all add: map_view_def)

lemma sock_view_simps [simp]:
  "sock_view [] = []"
  "sock_view ((a, n) # ss) = (a, n\<lparr>s_next := 0\<rparr>) # sock_view ss"
  "sock_view (xs @ ys) = sock_view xs @ sock_view ys"
  "sock_view ss = [] \<longleftrightarrow> ss = []"
  "length (sock_view ss) = length ss"
  by (simp_all add: sock_view_def)

text \<open>A predicate on the nodes that does not read the link sees the view only.\<close>

lemma sock_view_list_all:
  "(\<And>n. P (n\<lparr>s_next := 0\<rparr>) = P n) \<Longrightarrow>
     (\<forall>(a, n) \<in> set (sock_view ss). P n) = (\<forall>(a, n) \<in> set ss. P n)"
  by (induction ss) auto

lemma first_addr_sock_view:
  "(\<And>n. P (n\<lparr>s_next := 0\<rparr>) = P n) \<Longrightarrow> first_addr P (sock_view ss) = first_addr P ss"
  by (induction ss) auto

lemma first_addr_map_view:
  "(\<And>n. P (n\<lparr>m_next := 0\<rparr>) = P n) \<Longrightarrow> first_addr P (map_view ms) = first_addr P ms"
  by (induction ms) auto

text \<open>The descriptors of a list of sockets.\<close>

definition sock_fds :: "(ptr \<times> socket_t) list \<Rightarrow> int list" where
  "sock_fds ss = map (s_fd \<circ> snd) ss"

lemma sock_fds_simps [simp]:
  "sock_fds [] = []"
  "sock_fds ((a, n) # ss) = s_fd n # sock_fds ss"
  "sock_fds (xs @ ys) = sock_fds xs @ sock_fds ys"
  by (simp_all add: sock_fds_def)

lemma sock_fds_view [simp]: "sock_fds (sock_view ss) = sock_fds ss"
  by (induction ss) auto

lemma sock_fds_cong: "sock_view xs = sock_view ys \<Longrightarrow> sock_fds xs = sock_fds ys"
  by (metis sock_fds_view)

section \<open>The invariant under updates\<close>

lemma heap_okD:
  "heap_ok s \<Longrightarrow> mheap s (brk s) = None"
  "heap_ok s \<Longrightarrow> sheap s (brk s) = None"
  "heap_ok s \<Longrightarrow> pheap s (brk s) = None"
  "heap_ok s \<Longrightarrow> brk s \<noteq> 0"
  "heap_ok s \<Longrightarrow> mheap s 0 = None"
  "heap_ok s \<Longrightarrow> sheap s 0 = None"
  "heap_ok s \<Longrightarrow> pheap s 0 = None"
  by (auto simp: heap_ok_def)

lemma tables_ok: "tables s ms ss \<Longrightarrow> heap_ok s"
  by (simp add: tables_def)

lemma tables_cong:
  assumes "mheap t = mheap s" "sheap t = sheap s" "pheap t = pheap s" "brk t = brk s"
    and "mappings t = mappings s" "sockets t = sockets s"
  shows "tables t ms ss = tables s ms ss"
  using assms by (simp add: tables_def heap_ok_def)

lemma tables_hist [simp]: "tables (s\<lparr>hist := h\<rparr>) ms ss = tables s ms ss"
  by (rule tables_cong) simp_all

lemma tables_only_hist: "only_hist s t \<Longrightarrow> tables t ms ss = tables s ms ss"
  by (auto simp: only_hist_def)

text \<open>A fresh address is in neither list.\<close>

lemma tables_brk_fresh:
  assumes "tables s ms ss"
  shows "brk s \<notin> fst ` set ms" and "brk s \<notin> fst ` set ss"
  using assms mc.chain_mem_not_NULL sc.chain_mem_not_NULL heap_okD [OF tables_ok [OF assms]]
  by (auto simp: tables_def dest!: chain_at_mem)

text \<open>New or changed objects outside the lists do not matter.\<close>

lemma tables_extend:
  assumes t: "tables s ms ss" and b: "brk s \<le> brk u"
    and "mheap u = mheap s" "pheap u = pheap s" "mappings u = mappings s" "sockets u = sockets s"
    and h: "\<And>p. p < brk s \<Longrightarrow> sheap u p = sheap s p" "\<And>p. brk u \<le> p \<Longrightarrow> sheap u p = None"
  shows "tables u ms ss"
proof -
  have ok: "heap_ok s" using t by (rule tables_ok)
  have c: "chain_at s_next (sheap s) (sockets s) ss" using t by (simp add: tables_def)
  have "sheap u a = sheap s a" if "(a, n) \<in> set ss" for a n
  proof -
    have "sheap s a = Some n" using chain_at_mem [OF c that] by simp
    then have "\<not> brk s \<le> a" using ok unfolding heap_ok_def by (metis option.distinct(1))
    then show ?thesis using h(1) by simp
  qed
  then have "chain_at s_next (sheap u) (sockets s) ss"
    using chain_at_cong [of ss "sheap u" "sheap s"] c by simp
  moreover have "heap_ok u"
    unfolding heap_ok_def
  proof (intro conjI allI impI)
    show "0 < brk u" using b ok by (simp add: heap_ok_def)
    fix p
    assume p: "p = 0 \<or> brk u \<le> p"
    then have "p = 0 \<or> brk s \<le> p" using b by auto
    then show "mheap u p = None" "pheap u p = None"
      using ok assms(3,4) unfolding heap_ok_def by metis+
    show "sheap u p = None"
      using p h ok heap_okD(4,6) [OF ok] by (metis gr_zeroI)
  qed
  ultimately show ?thesis
    using t assms(3,5,6) by (simp add: tables_def)
qed

text \<open>Linking a new object in front of a list.\<close>

lemma tables_push_mapping:
  assumes "tables s ms ss" and "m_next m = mappings s"
  shows "tables (s\<lparr>brk := Suc (brk s), mheap := (mheap s)(brk s \<mapsto> m), mappings := brk s\<rparr>)
           ((brk s, m) # ms) ss"
  using assms tables_brk_fresh [OF assms(1)] by (auto simp: tables_def heap_ok_def)

lemma tables_push_socket:
  assumes "tables s ms ss" and "s_next n = sockets s"
  shows "tables (s\<lparr>brk := Suc (brk s), sheap := (sheap s)(brk s \<mapsto> n), sockets := brk s\<rparr>)
           ms ((brk s, n) # ss)"
  using assms tables_brk_fresh [OF assms(1)] by (auto simp: tables_def heap_ok_def)

text \<open>Allocating and freeing packets touches no list.\<close>

lemma tables_malloc_pkt:
  "tables s ms ss \<Longrightarrow> tables (s\<lparr>brk := Suc (brk s), pheap := (pheap s)(brk s \<mapsto> p)\<rparr>) ms ss"
  by (auto simp: tables_def heap_ok_def)

lemma tables_free_pkt: "tables s ms ss \<Longrightarrow> tables (s\<lparr>pheap := (pheap s)(p := None)\<rparr>) ms ss"
  by (auto simp: tables_def heap_ok_def)

section \<open>Frames\<close>

text \<open>
  What the operations on the sockets may change: the list, its heap, \<open>brk\<close>, and the calls made,
  to which they only add.
\<close>

definition sock_frame :: "state \<Rightarrow> state \<Rightarrow> bool" where
  "sock_frame s t \<longleftrightarrow>
     (\<exists>p h b k. t = s\<lparr>sockets := p, sheap := h, brk := b, hist := k @ hist s\<rparr>)"

definition map_frame :: "state \<Rightarrow> state \<Rightarrow> bool" where
  "map_frame s t \<longleftrightarrow>
     (\<exists>p h b k. t = s\<lparr>mappings := p, mheap := h, brk := b, hist := k @ hist s\<rparr>)"

interpretation sock_frame: frame sock_frame
proof unfold_locales
  show "sock_frame s s" for s
    unfolding sock_frame_def
    by (rule exI [of _ "sockets s"], rule exI [of _ "sheap s"], rule exI [of _ "brk s"],
        rule exI [of _ "[]"]) simp
next
  fix s t u
  assume "sock_frame s t" "sock_frame t u"
  then obtain p h b k p' h' b' k'
    where "t = s\<lparr>sockets := p, sheap := h, brk := b, hist := k @ hist s\<rparr>"
      and "u = t\<lparr>sockets := p', sheap := h', brk := b', hist := k' @ hist t\<rparr>"
    unfolding sock_frame_def by blast
  then have "u = s\<lparr>sockets := p', sheap := h', brk := b', hist := (k' @ k) @ hist s\<rparr>"
    by simp
  then show "sock_frame s u" unfolding sock_frame_def by blast
qed

interpretation map_frame: frame map_frame
proof unfold_locales
  show "map_frame s s" for s
    unfolding map_frame_def
    by (rule exI [of _ "mappings s"], rule exI [of _ "mheap s"], rule exI [of _ "brk s"],
        rule exI [of _ "[]"]) simp
next
  fix s t u
  assume "map_frame s t" "map_frame t u"
  then obtain p h b k p' h' b' k'
    where "t = s\<lparr>mappings := p, mheap := h, brk := b, hist := k @ hist s\<rparr>"
      and "u = t\<lparr>mappings := p', mheap := h', brk := b', hist := k' @ hist t\<rparr>"
    unfolding map_frame_def by blast
  then have "u = s\<lparr>mappings := p', mheap := h', brk := b', hist := (k' @ k) @ hist s\<rparr>"
    by simp
  then show "map_frame s u" unfolding map_frame_def by blast
qed

lemma sock_frame_fields:
  assumes "sock_frame s t"
  shows "mappings t = mappings s" "mheap t = mheap s" "pheap t = pheap s" "lanIP t = lanIP s"
    "wanIP t = wanIP s" "aftrIPv4 t = aftrIPv4 s" "mcast t = mcast s" "timeout t = timeout s"
    "Shutdown t = Shutdown s" "\<exists>k. hist t = k @ hist s"
  using assms by (auto simp: sock_frame_def)

lemma map_frame_fields:
  assumes "map_frame s t"
  shows "sockets t = sockets s" "sheap t = sheap s" "pheap t = pheap s" "lanIP t = lanIP s"
    "wanIP t = wanIP s" "aftrIPv4 t = aftrIPv4 s" "mcast t = mcast s" "timeout t = timeout s"
    "Shutdown t = Shutdown s" "\<exists>k. hist t = k @ hist s"
  using assms by (auto simp: map_frame_def)

lemma only_hist_sock_frame: "only_hist s t \<Longrightarrow> sock_frame s t"
proof -
  assume "only_hist s t"
  then obtain h where "t = s\<lparr>hist := h @ hist s\<rparr>" by (auto simp: only_hist_def)
  then show "sock_frame s t"
    unfolding sock_frame_def
    by (intro exI [of _ "sockets s"] exI [of _ "sheap s"] exI [of _ "brk s"] exI [of _ h]) simp
qed

lemma only_hist_map_frame: "only_hist s t \<Longrightarrow> map_frame s t"
proof -
  assume "only_hist s t"
  then obtain h where "t = s\<lparr>hist := h @ hist s\<rparr>" by (auto simp: only_hist_def)
  then show "map_frame s t"
    unfolding map_frame_def
    by (intro exI [of _ "mappings s"] exI [of _ "mheap s"] exI [of _ "brk s"] exI [of _ h]) simp
qed

end
