(* ===== verification/Samples.thy ===== *)
theory Samples
  imports Tables
begin

text \<open>
  A concrete machine and a concrete state on which the theorems of the development are
  instantiated: two mappings, the two sockets of a relayed connection and one packet. All
  addresses are small numbers; every call succeeds.
\<close>

definition sample_env :: env where
  "sample_env =
     \<lparr>big_endian = False,
      e_ret = (\<lambda>h c. case c of Sys_time \<Rightarrow> 1000 | Sys_socket _ _ _ \<Rightarrow> 11 | Sys_accept _ \<Rightarrow> 12
                     | Sys_select _ _ \<Rightarrow> 0 | _ \<Rightarrow> 0),
      e_recv = (\<lambda>_ _. \<lparr>r_bytes = [1, 2], r_peer = 40, r_port = 50, r_pktinfo = [41],
        r_pktinfo6 = [], r_nlpid = 0, r_trunc = False, r_namelen = 12\<rparr>),
      e_peer = (\<lambda>_ _. (40, 50)), e_port = (\<lambda>_ _. 60), e_ready = (\<lambda>_ fds. fds),
      e_signal = (\<lambda>h. 4 \<le> length h), e_stack = (\<lambda>_. 0), O_NONBLOCK = 2048,
      char_signed = True, long_bits = 32, IFLA_MAX = 20, IFA_MAX = 7, e_nlname = (\<lambda>_ _. (12, 16, 77)),
      e_heap = (\<lambda>_. 0), e_route = (\<lambda>_. None), e_pton6 = (\<lambda>_. None)\<rparr>"

lemma sample_env_simps [simp]:
  "big_endian sample_env = False"
  "e_ret sample_env h Sys_time = 1000"
  "e_ret sample_env h (Sys_socket f ty q) = 11"
  "e_ret sample_env h (Sys_accept fd) = 12"
  "e_ret sample_env h (Sys_select fds n) = 0"
  "e_ret sample_env h (Sys_close fd) = 0"
  "e_ret sample_env h (Sys_send fd bs) = 0"
  "e_ret sample_env h (Sys_sendto fd bs sa) = 0"
  "e_ret sample_env h (Sys_getsockname fd) = 0"
  "e_ret sample_env h (Sys_connect fd sa) = 0"
  "e_ret sample_env h (Sys_bind fd sa) = 0"
  "e_ret sample_env h (Sys_setsockopt fd so) = 0"
  "e_ret sample_env h (Sys_getaddrinfo ao n) = 0"
  "e_ret sample_env h (Sys_recvmsg fd k) = 0"
  "e_signal sample_env h = (4 \<le> length h)"
  by (simp_all add: sample_env_def)

lemma sample_fds_bounded: "fds_bounded sample_env"
  by (simp add: fds_bounded_def FD_SETSIZE_def)

text \<open>Two mappings, linked 1, 2; the second is past its time at 1000.\<close>

definition sample_m1 :: mapping_t where
  "sample_m1 =
     \<lparr>m_clientIP = 20, m_lanIP = 21, m_wanIP = 22, m_aftrIPv4 = 23, m_proto = IPPROTO_UDP,
      m_clientPort = 5000, m_lanPort = 5351, m_wanPort = 6000, m_routerPort = 5351,
      m_lanSock = 7, m_wanSock = 8, m_timeout = 1010, m_next = 2\<rparr>"

definition sample_m2 :: mapping_t where
  "sample_m2 =
     \<lparr>m_clientIP = 30, m_lanIP = 21, m_wanIP = 22, m_aftrIPv4 = 23, m_proto = IPPROTO_UDP,
      m_clientPort = 5001, m_lanPort = 1900, m_wanPort = 6000, m_routerPort = 1900,
      m_lanSock = 7, m_wanSock = 8, m_timeout = 990, m_next = 0\<rparr>"

text \<open>The two sides of a relayed connection, linked 3, 4.\<close>

definition sample_n1 :: socket_t where
  "sample_n1 =
     \<lparr>s_fd = 7, s_ipproto = IPPROTO_TCP, s_state = SOCKET_TYPE_TCP_CONNECTED, s_peer = 8,
      s_peer_addr = 0, s_peer_port = 0, s_mcast = 0, s_next = 4\<rparr>"

definition sample_n2 :: socket_t where
  "sample_n2 =
     \<lparr>s_fd = 8, s_ipproto = IPPROTO_TCP, s_state = SOCKET_TYPE_TCP_CONNECTED, s_peer = 7,
      s_peer_addr = 0, s_peer_port = 0, s_mcast = 0, s_next = 0\<rparr>"

definition sample_pkt :: "int \<Rightarrow> byte list \<Rightarrow> pkt_t" where
  "sample_pkt proto bytes =
     \<lparr>p_srcIP = 23, p_dstIP = 22, p_srcPort = 5351, p_dstPort = 6000, p_proto = proto,
      p_data = bytes, p_datalen = int (length bytes), p_sock = 7\<rparr>"

definition sample_state :: "pkt_t \<Rightarrow> state" where
  "sample_state p =
     \<lparr>ifaces = 0, lan = ''br-lan'', wan = ''eth0.1'', persistent = 0, lanIP = 21, wanIP = 22,
      aftrIPv4 = 23, wanIPv6 = [], aftrIPv6 = [], sockets = 3, mappings = 1,
      natpmp_udp_port = 5351, upnp_udp_port = 1900, upnp_tcp_port1 = 2869, upnp_tcp_port2 = 2857,
      fwd_tcp_port1 = 2869, fwd_tcp_port2 = 2857, bind_ext_nat_pmp_to_natpmp_port = 0,
      shared_udp_sock = 1, shared_udp_sock_fd = 8, wan_ssdp_sock = 7, lan_ssdp_sock = 8,
      nat_pmp_ext_sock = 8, nat_pmp_lan_sock = 7, enable_nat_pmp = 0, enable_nat_pmp_ext = 1,
      enable_upnp_tcp = 0, enable_upnp_udp = 0, loglevel = 0, timeout = 10, daemon = 0,
      pktCnt = 0, ssdpCnt = 0, natpmpCnt = 0,
      mheap = [1 \<mapsto> sample_m1, 2 \<mapsto> sample_m2], sheap = [3 \<mapsto> sample_n1, 4 \<mapsto> sample_n2],
      pheap = [5 \<mapsto> p], iheap = Map.empty, brk = 6, hist = [], mcast = 99, log_level = 1,
      Shutdown = 0\<rparr>"

abbreviation sample0 :: state where
  "sample0 \<equiv> sample_state (sample_pkt 17 [])"

abbreviation sample_ms :: "(ptr \<times> mapping_t) list" where
  "sample_ms \<equiv> [(1, sample_m1), (2, sample_m2)]"

abbreviation sample_ss :: "(ptr \<times> socket_t) list" where
  "sample_ss \<equiv> [(3, sample_n1), (4, sample_n2)]"

lemma sample_tables: "tables (sample_state p) sample_ms sample_ss"
  by (simp add: tables_def heap_ok_def sample_state_def sample_m1_def sample_m2_def
      sample_n1_def sample_n2_def)

lemma sample_fields [simp]:
  "pheap (sample_state p) 5 = Some p" "hist (sample_state p) = []" "mcast (sample_state p) = 99"
  "mappings (sample_state p) = 1" "sockets (sample_state p) = 3" "brk (sample_state p) = 6"
  "nat_pmp_ext_sock (sample_state p) = 8" "nat_pmp_lan_sock (sample_state p) = 7"
  "lanIP (sample_state p) = 21" "wan_ssdp_sock (sample_state p) = 7"
  "lan_ssdp_sock (sample_state p) = 8" "shared_udp_sock_fd (sample_state p) = 8"
  "wanIP (sample_state p) = 22" "aftrIPv4 (sample_state p) = 23" "timeout (sample_state p) = 10"
  "Shutdown (sample_state p) = 0" "enable_nat_pmp_ext (sample_state p) = 1"
  "mheap (sample_state p) 1 = Some sample_m1" "mheap (sample_state p) 2 = Some sample_m2"
  "sheap (sample_state p) 3 = Some sample_n1" "sheap (sample_state p) 4 = Some sample_n2"
  by (simp_all add: sample_state_def)

lemma sample_fds [simp]: "s_fd sample_n1 = 7" "s_fd sample_n2 = 8" "s_peer sample_n1 = 8"
  "s_peer sample_n2 = 7" "s_state sample_n1 = SOCKET_TYPE_TCP_CONNECTED"
  by (simp_all add: sample_n1_def sample_n2_def)

end
