(* ===== verification/Netlink.thy ===== *)
theory Netlink
  imports Samples
begin

text \<open>
  The netlink library \<^verbatim>\<open>src/libnetlink.c\<close>: opening a netlink socket, asking the kernel for a dump,
  reading the dump, and the routines that build and read the attributes of a message. A message is
  the list of its bytes, in the byte order of the machine.
\<close>

section \<open>Messages and attributes\<close>

text \<open>The alignment macros, and the sizes of the two headers.\<close>

definition NLMSG_ALIGN :: "int \<Rightarrow> int" where
  "NLMSG_ALIGN n = (n + 3) div 4 * 4"

definition RTA_ALIGN :: "int \<Rightarrow> int" where
  "RTA_ALIGN n = (n + 3) div 4 * 4"

definition NLMSG_LENGTH :: "int \<Rightarrow> int" where
  "NLMSG_LENGTH n = n + 16"

definition RTA_LENGTH :: "int \<Rightarrow> int" where
  "RTA_LENGTH n = n + 4"

definition NLMSG_ERROR :: u16 where "NLMSG_ERROR = 2"
definition NLMSG_DONE :: u16 where "NLMSG_DONE = 3"

record nlmsghdr =
  nlmsg_len :: u32
  nlmsg_type :: u16
  nlmsg_flags :: u16
  nlmsg_seq :: u32
  nlmsg_pid :: u32

text \<open>The header at the start of some bytes; \<open>None\<close> when bytes are missing.\<close>

definition hdr_at :: "bool \<Rightarrow> byte list \<Rightarrow> nlmsghdr option" where
  "hdr_at be xs =
     (case (load32 be xs, load16 be (drop 4 xs), load16 be (drop 6 xs), load32 be (drop 8 xs),
            load32 be (drop 12 xs)) of
        (Some l, Some t, Some f, Some s, Some p) \<Rightarrow>
          Some \<lparr>nlmsg_len = l, nlmsg_type = t, nlmsg_flags = f, nlmsg_seq = s, nlmsg_pid = p\<rparr>
      | _ \<Rightarrow> None)"

text \<open>The bytes of a header.\<close>

definition hdr_bytes :: "bool \<Rightarrow> nlmsghdr \<Rightarrow> byte list" where
  "hdr_bytes be h =
     mem32 be (nlmsg_len h) @ mem16 be (nlmsg_type h) @ mem16 be (nlmsg_flags h) @
     mem32 be (nlmsg_seq h) @ mem32 be (nlmsg_pid h)"

section \<open>Opening and asking\<close>

record rtnl_handle =
  rth_fd :: int
  rth_pid :: u32
  rth_seq :: u32
  rth_dump :: u32

definition NETLINK_ROUTE :: int where "NETLINK_ROUTE = 0"

text \<open>
  The handle is the caller's, already cleared; on an error the fields not yet written stay as they
  were. The length and the family of the address are checked against 12 and \<open>AF_NETLINK\<close> (16).
\<close>

definition rtnl_open_byproto :: "env \<Rightarrow> u32 \<Rightarrow> int \<Rightarrow> rtnl_handle \<Rightarrow> (int \<times> rtnl_handle) M" where
  "rtnl_open_byproto e subscriptions protocol rth =
     bindM (sys e (Sys_socket AF_NETLINK SOCK_RAW protocol)) (\<lambda>fd.
     let rth = rth\<lparr>rth_fd := fd\<rparr> in
     if fd < 0 then returnM (-1, rth)
     else bindM (sys e (Sys_setsockopt fd (SO_SNDBUF 32768))) (\<lambda>r.
     if r < 0 then returnM (-1, rth)
     else bindM (sys e (Sys_setsockopt fd (SO_RCVBUF 32768))) (\<lambda>r.
     if r < 0 then returnM (-1, rth)
     else bindM (sys e (Sys_bind fd (Sockaddr_nl 0 subscriptions))) (\<lambda>r.
     if r < 0 then returnM (-1, rth\<lparr>rth_pid := 0\<rparr>)
     else bindM (sys e (Sys_getsockname fd)) (\<lambda>r.
     if r < 0 then returnM (-1, rth\<lparr>rth_pid := 0\<rparr>)
     else bindM (getM (\<lambda>s. e_nlname e (hist s) fd)) (\<lambda>(len, family, pid).
     if len \<noteq> 12 \<or> family \<noteq> 16 then returnM (-1, rth\<lparr>rth_pid := pid\<rparr>)
     else bindM (sys e Sys_time) (\<lambda>now.
       returnM (0, rth\<lparr>rth_pid := pid, rth_seq := word_of_int now\<rparr>))))))))"

definition rtnl_open :: "env \<Rightarrow> u32 \<Rightarrow> rtnl_handle \<Rightarrow> (int \<times> rtnl_handle) M" where
  "rtnl_open e subscriptions rth = rtnl_open_byproto e subscriptions NETLINK_ROUTE rth"

text \<open>\<open>NLM_F_ROOT | NLM_F_MATCH | NLM_F_REQUEST\<close> is \<open>0x301\<close>; the request is padded to 20 bytes.\<close>

definition dump_req :: "bool \<Rightarrow> u16 \<Rightarrow> u32 \<Rightarrow> byte \<Rightarrow> byte list" where
  "dump_req be ty seq family =
     hdr_bytes be \<lparr>nlmsg_len = 20, nlmsg_type = ty, nlmsg_flags = 0x301, nlmsg_seq = seq,
       nlmsg_pid = 0\<rparr> @ [family, 0, 0, 0]"

definition rtnl_wilddump_request ::
  "env \<Rightarrow> byte \<Rightarrow> u16 \<Rightarrow> rtnl_handle \<Rightarrow> (int \<times> rtnl_handle) M" where
  "rtnl_wilddump_request e family ty rth =
     (let seq = rth_seq rth + 1;
          rth = rth\<lparr>rth_seq := seq, rth_dump := seq\<rparr>
      in bindM (sys e (Sys_sendto (rth_fd rth) (dump_req (big_endian e) ty seq family)
                  (Sockaddr_nl 0 0))) (\<lambda>r.
         returnM (r, rth)))"

definition rtnl_close :: "env \<Rightarrow> rtnl_handle \<Rightarrow> int M" where
  "rtnl_close e rth = sys e (Sys_close (rth_fd rth))"

definition rtnl_send :: "env \<Rightarrow> rtnl_handle \<Rightarrow> byte list \<Rightarrow> int \<Rightarrow> int M" where
  "rtnl_send e rth buf len =
     bindM (readM (\<lambda>_. buf_bytes buf len)) (\<lambda>xs.
     sys e (Sys_sendto (rth_fd rth) xs (Sockaddr_nl 0 0)))"

text \<open>A request of the caller's behind a header; the two parts of the \<open>iovec\<close> are sent as one message.\<close>

definition rtnl_dump_request ::
  "env \<Rightarrow> rtnl_handle \<Rightarrow> int \<Rightarrow> byte list \<Rightarrow> int \<Rightarrow> (int \<times> rtnl_handle) M" where
  "rtnl_dump_request e rth ty req len =
     bindM (readM (\<lambda>_. buf_bytes req len)) (\<lambda>xs.
     let seq = rth_seq rth + 1;
         h = \<lparr>nlmsg_len = word_of_int (NLMSG_LENGTH len), nlmsg_type = word_of_int ty, nlmsg_flags = 0x301,
              nlmsg_seq = seq, nlmsg_pid = 0\<rparr>
     in bindM (sys e (Sys_sendto (rth_fd rth) (hdr_bytes (big_endian e) h @ xs) (Sockaddr_nl 0 0))) (\<lambda>r.
        returnM (r, rth\<lparr>rth_seq := seq, rth_dump := seq\<rparr>)))"

section \<open>Reading a dump\<close>

text \<open>
  The inner loop of \<open>rtnl_dump_filter\<close>, on the bytes from \<open>h\<close> on and the \<open>int\<close> \<open>status\<close>. The filter
  takes a message and its argument, \<open>junk\<close>, where there is one, also the sender; the arguments of the
  two are one value here. The loop ends the function (\<open>Inl\<close>), or leaves a remnant (\<open>Inr\<close>).
\<close>

definition NLMSG_OK :: "bool \<Rightarrow> byte list \<Rightarrow> int \<Rightarrow> bool" where
  "NLMSG_OK be xs status \<longleftrightarrow> 16 \<le> status \<and>
     (case hdr_at be xs of None \<Rightarrow> False
      | Some h \<Rightarrow> 16 \<le> uint (nlmsg_len h) \<and> uint (nlmsg_len h) \<le> status)"

function dump_msgs ::
  "bool \<Rightarrow> rtnl_handle \<Rightarrow> u32 \<Rightarrow> (byte list \<Rightarrow> 'a \<Rightarrow> int \<times> 'a) \<Rightarrow>
   (u32 \<Rightarrow> byte list \<Rightarrow> 'a \<Rightarrow> int \<times> 'a) option \<Rightarrow> byte list \<Rightarrow> int \<Rightarrow> 'a \<Rightarrow> (int + int) \<times> 'a" where
  "dump_msgs be rth sender filt junk xs status arg =
     (if \<not> NLMSG_OK be xs status then (Inr status, arg)
      else case hdr_at be xs of
             None \<Rightarrow> (Inr status, arg)
           | Some h \<Rightarrow>
               let len = uint (nlmsg_len h);
                   skip = (\<lambda>arg. dump_msgs be rth sender filt junk (drop (nat (NLMSG_ALIGN len)) xs)
                             (status - NLMSG_ALIGN len) arg)
               in if sender \<noteq> 0 \<or> nlmsg_pid h \<noteq> rth_pid rth \<or> nlmsg_seq h \<noteq> rth_dump rth
                  then (case junk of
                          None \<Rightarrow> skip arg
                        | Some j \<Rightarrow> (case j sender (take (nat len) xs) arg of
                            (err, arg) \<Rightarrow> if err < 0 then (Inl err, arg) else skip arg))
                  else if nlmsg_type h = NLMSG_DONE then (Inl 0, arg)
                  else if nlmsg_type h = NLMSG_ERROR then (Inl (-1), arg)
                  else case filt (take (nat len) xs) arg of
                         (err, arg) \<Rightarrow> if err < 0 then (Inl err, arg) else skip arg)"
  by pat_completeness auto
termination
  by (relation "measure (\<lambda>(be, rth, sender, filt, junk, xs, status, arg). nat status)")
     (auto simp: NLMSG_OK_def NLMSG_ALIGN_def)

declare dump_msgs.simps [simp del]

text \<open>The outer loop, one datagram a turn. Bytes left over end the process.\<close>

partial_function (option) rtnl_dump_filter ::
  "env \<Rightarrow> rtnl_handle \<Rightarrow> (byte list \<Rightarrow> 'a \<Rightarrow> int \<times> 'a) \<Rightarrow>
   (u32 \<Rightarrow> byte list \<Rightarrow> 'a \<Rightarrow> int \<times> 'a) option \<Rightarrow> 'a \<Rightarrow> state \<Rightarrow> ((int \<times> 'a) outcome \<times> state) option" where
  "rtnl_dump_filter e rth filt junk arg s =
     bindM (recvmsg e (rth_fd rth) 16384) (\<lambda>(status, m) t.
       if status < 0 then rtnl_dump_filter e rth filt junk arg t
       else if status = 0 then returnM (-1, arg) t
       else (case dump_msgs (big_endian e) rth (r_nlpid m) filt junk (r_bytes m) status arg of
               (Inl r, arg) \<Rightarrow> returnM (r, arg) t
             | (Inr rest, arg) \<Rightarrow>
                 if r_trunc m then rtnl_dump_filter e rth filt junk arg t
                 else if rest \<noteq> 0 then exitM 1 t
                 else rtnl_dump_filter e rth filt junk arg t)) s"

section \<open>Building a message\<close>

text \<open>A message is at the start of its buffer.\<close>

text \<open>The alignment of an unsigned length, in 32-bit arithmetic.\<close>

definition align32 :: "u32 \<Rightarrow> u32" where
  "align32 w = (w + 3) AND (NOT 3)"

text \<open>The bytes of an attribute's header.\<close>

definition rta_bytes :: "bool \<Rightarrow> int \<Rightarrow> int \<Rightarrow> byte list" where
  "rta_bytes be len ty = mem16 be (word_of_int len) @ mem16 be (word_of_int ty)"

text \<open>
  The part \<open>addattr32\<close> and \<open>addattr_l\<close> share: the attribute written at the aligned end of the
  message, and the new length stored in its header.
\<close>

definition put_attr :: "bool \<Rightarrow> byte list \<Rightarrow> u32 \<Rightarrow> int \<Rightarrow> int \<Rightarrow> byte list \<Rightarrow> u32 \<Rightarrow> byte list option" where
  "put_attr be buf old len ty data new =
     (case write_at (unat (align32 old)) (rta_bytes be len ty @ data) buf of
        None \<Rightarrow> None
      | Some buf \<Rightarrow> write_at 0 (mem32 be new) buf)"

definition addattr32 :: "bool \<Rightarrow> byte list \<Rightarrow> int \<Rightarrow> int \<Rightarrow> u32 \<Rightarrow> (int \<times> byte list) option" where
  "addattr32 be buf maxlen ty data =
     (case load32 be buf of
        None \<Rightarrow> None
      | Some old \<Rightarrow>
          let len = RTA_LENGTH 4 in
          if align32 old + word_of_int len > word_of_int maxlen then Some (-1, buf)
          else map_option (Pair 0)
                 (put_attr be buf old len ty (mem32 be data) (align32 old + word_of_int len)))"

definition addattr_l ::
  "bool \<Rightarrow> byte list \<Rightarrow> int \<Rightarrow> int \<Rightarrow> byte list \<Rightarrow> int \<Rightarrow> (int \<times> byte list) option" where
  "addattr_l be buf maxlen ty data alen =
     (case load32 be buf of
        None \<Rightarrow> None
      | Some old \<Rightarrow>
          let len = RTA_LENGTH alen in
          if align32 old + word_of_int (RTA_ALIGN len) > word_of_int maxlen then Some (-1, buf)
          else case buf_bytes data alen of
                 None \<Rightarrow> None
               | Some xs \<Rightarrow> map_option (Pair 0)
                   (put_attr be buf old len ty xs (align32 old + word_of_int (RTA_ALIGN len))))"

definition addraw_l :: "bool \<Rightarrow> byte list \<Rightarrow> int \<Rightarrow> byte list \<Rightarrow> int \<Rightarrow> (int \<times> byte list) option" where
  "addraw_l be buf maxlen data len =
     (case load32 be buf of
        None \<Rightarrow> None
      | Some old \<Rightarrow>
          if align32 old + word_of_int (NLMSG_ALIGN len) > word_of_int maxlen then Some (-1, buf)
          else case buf_bytes data len of
                 None \<Rightarrow> None
               | Some xs \<Rightarrow>
                   (case write_at (unat (align32 old))
                           (xs @ replicate (nat (NLMSG_ALIGN len - len)) 0) buf of
                      None \<Rightarrow> None
                    | Some buf \<Rightarrow> map_option (Pair 0)
                        (write_at 0 (mem32 be (align32 old + word_of_int (NLMSG_ALIGN len))) buf)))"

text \<open>The same inside an attribute, whose length is 16 bits wide.\<close>

definition rta_addattr_l ::
  "bool \<Rightarrow> byte list \<Rightarrow> int \<Rightarrow> int \<Rightarrow> byte list \<Rightarrow> int \<Rightarrow> (int \<times> byte list) option" where
  "rta_addattr_l be rta maxlen ty data alen =
     (case load16 be rta of
        None \<Rightarrow> None
      | Some old \<Rightarrow>
          let len = RTA_LENGTH alen; fin = RTA_ALIGN (uint old) in
          if fin + RTA_ALIGN len > maxlen then Some (-1, rta)
          else case buf_bytes data alen of
                 None \<Rightarrow> None
               | Some xs \<Rightarrow>
                   (case write_at (nat fin) (rta_bytes be len ty @ xs) rta of
                      None \<Rightarrow> None
                    | Some rta \<Rightarrow> map_option (Pair 0)
                        (write_at 0 (mem16 be (word_of_int (fin + RTA_ALIGN len))) rta)))"

definition rta_addattr32 :: "bool \<Rightarrow> byte list \<Rightarrow> int \<Rightarrow> int \<Rightarrow> u32 \<Rightarrow> (int \<times> byte list) option" where
  "rta_addattr32 be rta maxlen ty data =
     (case load16 be rta of
        None \<Rightarrow> None
      | Some old \<Rightarrow>
          let len = RTA_LENGTH 4; fin = RTA_ALIGN (uint old) in
          if fin + len > maxlen then Some (-1, rta)
          else (case write_at (nat fin) (rta_bytes be len ty @ mem32 be data) rta of
                  None \<Rightarrow> None
                | Some rta \<Rightarrow> map_option (Pair 0)
                    (write_at 0 (mem16 be (word_of_int (fin + len))) rta)))"

section \<open>Reading attributes\<close>

text \<open>
  The loop of \<open>parse_rtattr\<close>: \<open>msg\<close> is the memory the attributes are in, \<open>off\<close> where the next one
  starts, \<open>len\<close> what is left. The table takes a type to the offset of its attribute. With something
  left over the code reads the next length once more, to print it.
\<close>

function parse_loop ::
  "bool \<Rightarrow> nat \<Rightarrow> byte list \<Rightarrow> nat \<Rightarrow> int \<Rightarrow> (nat \<Rightarrow> nat option) \<Rightarrow> (nat \<Rightarrow> nat option) option" where
  "parse_loop be mx msg off len tb =
     (if len < 4
      then (if len \<noteq> 0 \<and> load16 be (drop off msg) = None then None else Some tb)
      else case (load16 be (drop off msg), load16 be (drop (off + 2) msg)) of
             (Some l, Some t) \<Rightarrow>
               (if 4 \<le> uint l \<and> uint l \<le> len
                then parse_loop be mx msg (off + nat (RTA_ALIGN (uint l))) (len - RTA_ALIGN (uint l))
                       (if unat t \<le> mx then tb(unat t \<mapsto> off) else tb)
                else Some tb)
           | _ \<Rightarrow> None)"
  by pat_completeness auto
termination
  by (relation "measure (\<lambda>(be, mx, msg, off, len, tb). nat len)") (auto simp: RTA_ALIGN_def)

declare parse_loop.simps [simp del]

definition parse_rtattr :: "bool \<Rightarrow> nat \<Rightarrow> byte list \<Rightarrow> nat \<Rightarrow> int \<Rightarrow> (nat \<Rightarrow> nat option) option" where
  "parse_rtattr be mx msg off len = parse_loop be mx msg off len Map.empty"

text \<open>\<open>parse_rtattr_byindex\<close>: the offsets in the order found, at most \<open>mx\<close> of them.\<close>

function parse_rtattr_byindex ::
  "bool \<Rightarrow> nat \<Rightarrow> byte list \<Rightarrow> nat \<Rightarrow> int \<Rightarrow> nat list \<Rightarrow> nat list option" where
  "parse_rtattr_byindex be mx msg off len tb =
     (if len < 4
      then (if len \<noteq> 0 \<and> load16 be (drop off msg) = None then None else Some tb)
      else case (load16 be (drop off msg), load16 be (drop (off + 2) msg)) of
             (Some l, Some t) \<Rightarrow>
               (if 4 \<le> uint l \<and> uint l \<le> len
                then parse_rtattr_byindex be mx msg (off + nat (RTA_ALIGN (uint l)))
                       (len - RTA_ALIGN (uint l))
                       (if unat t \<le> mx \<and> length tb < mx then tb @ [off] else tb)
                else Some tb)
           | _ \<Rightarrow> None)"
  by pat_completeness auto
termination
  by (relation "measure (\<lambda>(be, mx, msg, off, len, tb). nat len)") (auto simp: RTA_ALIGN_def)

declare parse_rtattr_byindex.simps [simp del]

text \<open>The payload of the attribute at an offset: the length its header gives, and the bytes there.\<close>

definition rta_payload :: "bool \<Rightarrow> byte list \<Rightarrow> nat \<Rightarrow> int option" where
  "rta_payload be msg off = map_option (\<lambda>l. uint l - 4) (load16 be (drop off msg))"

definition rta_data :: "byte list \<Rightarrow> nat \<Rightarrow> nat \<Rightarrow> byte list option" where
  "rta_data msg off n =
     (if off + 4 + n \<le> length msg then Some (take n (drop (off + 4) msg)) else None)"

section \<open>Reading what was written\<close>

lemma RTA_ALIGN_bounds:
  assumes "0 \<le> n"
  shows "0 \<le> RTA_ALIGN n" and "n \<le> RTA_ALIGN n" and "RTA_ALIGN n \<le> n + 3" and "4 dvd RTA_ALIGN n"
  using assms unfolding RTA_ALIGN_def by presburger+

lemma parse_loop_bounds:
  assumes "parse_loop be mx msg off len tb = Some tb'" and "tb' t = Some a" and "tb t \<noteq> Some a"
  shows "t \<le> mx \<and> off \<le> a \<and>
    (\<exists>l. load16 be (drop a msg) = Some l \<and> 4 \<le> uint l \<and> int a + uint l \<le> int off + len)"
  using assms
proof (induction be mx msg off len tb rule: parse_loop.induct)
  case (1 be mx msg off len tb)
  show ?case
  proof (cases "len < 4")
    case True
    then show ?thesis using 1(2-4) by (subst (asm) parse_loop.simps) (auto split: if_splits)
  next
    case False
    then obtain l ty where l: "load16 be (drop off msg) = Some l" "load16 be (drop (off + 2) msg) = Some ty"
      using 1(2) by (subst (asm) parse_loop.simps) (auto split: option.splits)
    show ?thesis
    proof (cases "4 \<le> uint l \<and> uint l \<le> len")
      case False
      then show ?thesis
        using 1(2-4) l \<open>\<not> len < 4\<close> by (subst (asm) parse_loop.simps) (auto split: if_splits)
    next
      case True
      let ?tb = "if unat ty \<le> mx then tb(unat ty \<mapsto> off) else tb"
      let ?n = "RTA_ALIGN (uint l)"
      have n: "0 \<le> ?n" "uint l \<le> ?n" using RTA_ALIGN_bounds [of "uint l"] by simp_all
      have rest: "parse_loop be mx msg (off + nat ?n) (len - ?n) ?tb = Some tb'"
        using 1(2) l \<open>\<not> len < 4\<close> True by (subst (asm) parse_loop.simps) simp
      show ?thesis
      proof (cases "?tb t = Some a")
        case True
        with 1(4) have "t = unat ty" "a = off" "unat ty \<le> mx"
          by (auto split: if_splits)
        then show ?thesis using l \<open>4 \<le> uint l \<and> uint l \<le> len\<close> by auto
      next
        case False
        have "t \<le> mx \<and> off + nat ?n \<le> a \<and>
          (\<exists>l. load16 be (drop a msg) = Some l \<and> 4 \<le> uint l \<and>
            int a + uint l \<le> int (off + nat ?n) + (len - ?n))"
          using "1.IH" [OF \<open>\<not> len < 4\<close> refl l True rest 1(3) False] .
        then show ?thesis using n by auto
      qed
    qed
  qed
qed

text \<open>Bytes behind the attributes, and bytes before the message's end, do not matter.\<close>

lemma load_append:
  "load16 be xs = Some w \<Longrightarrow> load16 be (xs @ ys) = Some w"
  "load32 be xs = Some v \<Longrightarrow> load32 be (xs @ ys) = Some v"
proof -
  show "load16 be xs = Some w \<Longrightarrow> load16 be (xs @ ys) = Some w"
    by (cases xs; cases "tl xs") auto
  show "load32 be xs = Some v \<Longrightarrow> load32 be (xs @ ys) = Some v"
    by (cases xs; cases "tl xs"; cases "tl (tl xs)"; cases "tl (tl (tl xs))") auto
qed

text \<open>
  Attributes that fill a region exactly: reading on after them is reading the rest of the memory
  with the table they gave.
\<close>

inductive attrs_fill :: "bool \<Rightarrow> nat \<Rightarrow> byte list \<Rightarrow> nat \<Rightarrow> int \<Rightarrow> (nat \<Rightarrow> nat option) \<Rightarrow> (nat \<Rightarrow> nat option) \<Rightarrow> bool"
  for be mx msg where
  fill_none: "attrs_fill be mx msg off 0 tb tb"
| fill_attr: "load16 be (drop off msg) = Some l \<Longrightarrow> load16 be (drop (off + 2) msg) = Some t \<Longrightarrow>
    4 \<le> uint l \<Longrightarrow> RTA_ALIGN (uint l) \<le> len \<Longrightarrow>
    attrs_fill be mx msg (off + nat (RTA_ALIGN (uint l))) (len - RTA_ALIGN (uint l))
      (if unat t \<le> mx then tb(unat t \<mapsto> off) else tb) tb' \<Longrightarrow>
    attrs_fill be mx msg off len tb tb'"

lemma attrs_fill_nonneg:
  assumes "attrs_fill be mx msg off len tb tb'"
  shows "0 \<le> len"
  using assms
proof cases
  case (fill_attr l t)
  then show ?thesis using RTA_ALIGN_bounds(1) [OF uint_ge_0, of l] by simp
qed simp_all

lemma parse_fill:
  assumes "attrs_fill be mx msg off len tb tb'" and "0 \<le> rest"
  shows "parse_loop be mx msg off (len + rest) tb = parse_loop be mx msg (off + nat len) rest tb'"
  using assms(1)
proof (induction rule: attrs_fill.induct)
  case (fill_none off tb)
  then show ?case by simp
next
  case (fill_attr off l t len tb tb')
  let ?n = "RTA_ALIGN (uint l)"
  have n: "0 \<le> ?n" "uint l \<le> ?n" using RTA_ALIGN_bounds [of "uint l"] by simp_all
  have "0 \<le> len - ?n" using fill_attr.hyps(5) by (rule attrs_fill_nonneg)
  then have off: "off + nat ?n + nat (len - ?n) = off + nat len" using n by simp
  have rest: "len - ?n + rest = len + rest - ?n" by simp
  have "parse_loop be mx msg off (len + rest) tb = parse_loop be mx msg (off + nat ?n)
      (len + rest - ?n) (if unat t \<le> mx then tb(unat t \<mapsto> off) else tb)"
    using fill_attr.hyps(1-4) n assms(2) by (subst parse_loop.simps) simp
  then show ?case
    using fill_attr.IH unfolding off rest by simp
qed

text \<open>Reading before a place that is written.\<close>

lemma load16_cong: "take 2 xs = take 2 ys \<Longrightarrow> load16 be xs = load16 be ys"
  by (cases xs; cases ys; cases "tl xs"; cases "tl ys") (auto simp: numeral_2_eq_2)

lemma load16_before:
  assumes "take n xs = take n ys" and "i + 2 \<le> n"
  shows "load16 be (drop i xs) = load16 be (drop i ys)"
proof (rule load16_cong)
  have "take 2 (drop i zs) = take 2 (drop i (take n zs))" for zs :: "byte list"
    using assms(2) by (simp add: drop_take min_def)
  then show "take 2 (drop i xs) = take 2 (drop i ys)" using assms(1) by metis
qed

lemma attrs_fill_cong:
  assumes "attrs_fill be mx msg off len tb tb'"
    and "\<And>i. off \<le> i \<Longrightarrow> int i + 2 \<le> int off + len \<Longrightarrow>
      load16 be (drop i msg') = load16 be (drop i msg)"
  shows "attrs_fill be mx msg' off len tb tb'"
  using assms
proof (induction rule: attrs_fill.induct)
  case (fill_none off tb)
  show ?case by (rule attrs_fill.fill_none)
next
  case (fill_attr off l t len tb tb')
  let ?n = "RTA_ALIGN (uint l)"
  have n: "0 \<le> ?n" "uint l \<le> ?n" using RTA_ALIGN_bounds [of "uint l"] by simp_all
  have "load16 be (drop off msg') = Some l" "load16 be (drop (off + 2) msg') = Some t"
    using fill_attr.prems [of off] fill_attr.prems [of "off + 2"] fill_attr.hyps n by simp_all
  moreover have "attrs_fill be mx msg' (off + nat ?n) (len - ?n)
      (if unat t \<le> mx then tb(unat t \<mapsto> off) else tb) tb'"
  proof (rule fill_attr.IH)
    fix i
    assume "off + nat ?n \<le> i" "int i + 2 \<le> int (off + nat ?n) + (len - ?n)"
    then show "load16 be (drop i msg') = load16 be (drop i msg)"
      using n by (intro fill_attr.prems) linarith+
  qed
  ultimately show ?case
    by (rule attrs_fill.fill_attr [OF _ _ fill_attr.hyps(3,4)])
qed

lemma load16_rta_bytes:
  "load16 be (rta_bytes be len ty @ xs) = Some (word_of_int len)"
  "load16 be (drop 2 (rta_bytes be len ty @ xs)) = Some (word_of_int ty)"
  "length (rta_bytes be len ty) = 4"
  by (simp_all add: rta_bytes_def)

lemma uint_word_add_mod: "uint (w + word_of_int n :: u32) = (uint w + n) mod 2 ^ 32"
  by (simp add: uint_word_arith_bintrs(1) take_bit_eq_mod uint_word_of_int mod_add_right_eq)

lemma uint_u16: "0 \<le> n \<Longrightarrow> n < 2 ^ 16 \<Longrightarrow> uint (word_of_int n :: u16) = n"
  by (simp add: uint_word_of_int)

text \<open>What \<open>put_attr\<close> leaves in the buffer.\<close>

lemma put_attr_layout:
  assumes put: "put_attr be buf old len ty data new = Some buf'" and "4 \<le> unat (align32 old)"
  shows "load32 be buf' = Some new"
    and "\<And>i. 4 \<le> i \<Longrightarrow> i + 2 \<le> unat (align32 old) \<Longrightarrow> load16 be (drop i buf') = load16 be (drop i buf)"
    and "\<exists>rest. drop (unat (align32 old)) buf' = rta_bytes be len ty @ data @ rest"
proof -
  let ?n = "unat (align32 old)"
  obtain b where b: "write_at ?n (rta_bytes be len ty @ data) buf = Some b"
    "write_at 0 (mem32 be new) b = Some buf'"
    using put by (auto simp: put_attr_def split: option.splits)
  note w1 = write_at_SomeD [OF b(1)] and w2 = write_at_SomeD [OF b(2)]
  have buf': "buf' = mem32 be new @ drop 4 b" using w2(3) by simp
  then show "load32 be buf' = Some new" by simp
  have later: "drop i buf' = drop i b" if "4 \<le> i" for i
    using that by (simp add: buf')
  show "load16 be (drop i buf') = load16 be (drop i buf)" if "4 \<le> i" "i + 2 \<le> ?n" for i
    using later [OF that(1)] load16_before [OF w1(2) that(2)] by simp
  show "\<exists>rest. drop ?n buf' = rta_bytes be len ty @ data @ rest"
    using later [OF assms(2)] w1(3) by auto
qed

lemma addattr_l_SomeD:
  assumes "addattr_l be buf maxlen ty data alen = Some (0, buf')"
  shows "\<exists>old xs. load32 be buf = Some old \<and> buf_bytes data alen = Some xs \<and>
    put_attr be buf old (alen + 4) ty xs (align32 old + word_of_int (RTA_ALIGN (alen + 4))) = Some buf'"
  using assms unfolding addattr_l_def Let_def RTA_LENGTH_def
  by (auto split: option.split_asm if_split_asm)

text \<open>The attribute \<open>put_attr\<close> has written, as \<open>parse_rtattr\<close> and its callers read it.\<close>

lemma put_attr_reads:
  assumes put: "put_attr be buf old (int (length data) + 4) ty data new = Some buf'"
    and n4: "4 \<le> unat (align32 old)" and small: "int (length data) + 4 < 2 ^ 16" and ty: "0 \<le> ty" "ty < 2 ^ 16"
  obtains l t where "load16 be (drop (unat (align32 old)) buf') = Some l" "uint l = int (length data) + 4"
    "load16 be (drop (unat (align32 old) + 2) buf') = Some t" "unat t = nat ty"
    "rta_data buf' (unat (align32 old)) (length data) = Some data"
proof -
  let ?n = "unat (align32 old)" and ?len = "int (length data) + 4"
  obtain rest where at: "drop ?n buf' = rta_bytes be ?len ty @ data @ rest"
    using put_attr_layout(3) [OF put n4] by blast
  define lw tw :: u16 where "lw = word_of_int ?len" and "tw = word_of_int ty"
  have l: "load16 be (drop ?n buf') = Some lw"
    unfolding at lw_def by (rule load16_rta_bytes)
  have "drop (?n + 2) buf' = drop 2 (drop ?n buf')" by (simp add: add.commute)
  then have t: "load16 be (drop (?n + 2) buf') = Some tw"
    by (simp only: at load16_rta_bytes tw_def)
  have ul: "uint lw = ?len" and ut: "unat tw = nat ty"
    using small ty uint_u16 [of ?len] uint_u16 [of ty]
    by (simp_all only: unat_eq_nat_uint lw_def tw_def)
  have "length (drop ?n buf') = 4 + length data + length rest"
    by (simp only: at length_append load16_rta_bytes)
  moreover have "drop (?n + 4) buf' = data @ rest"
    using arg_cong [OF at, of "drop 4"] by (simp add: load16_rta_bytes(3) add.commute)
  ultimately have "rta_data buf' ?n (length data) = Some data" by (simp add: rta_data_def)
  then show thesis using that l t ul ut by blast
qed

section \<open>Properties\<close>

text \<open>
  C24: every attribute \<open>parse_rtattr\<close> reports has a type it was asked for and
  lies, with all the bytes its header counts, in the range it was given.
\<close>

theorem attributes_in_range:
  assumes "parse_rtattr be mx msg off len = Some tb" and "tb t = Some a"
  shows "t \<le> mx \<and> off \<le> a \<and>
    (\<exists>l. load16 be (drop a msg) = Some l \<and> 4 \<le> uint l \<and> int a + uint l \<le> int off + len)"
  using parse_loop_bounds [of be mx msg off len Map.empty tb t a] assms
  by (simp add: parse_rtattr_def)

theorem attributes_in_range_witness:
  "parse_rtattr False 5 [5, 0, 3, 0, 65, 0, 0, 0] 0 8 = Some [3 \<mapsto> 0] \<and> 3 \<le> (5 :: nat) \<and> 0 \<le> (0 :: nat) \<and>
    (\<exists>l. load16 False [5, 0, 3, 0, 65, 0, 0, 0] = Some l \<and> 4 \<le> uint l \<and> uint l \<le> 8)"
proof -
  have run: "parse_rtattr False 5 [5, 0, 3, 0, 65, 0, 0, 0] 0 8 = Some [3 \<mapsto> 0]"
    by (simp add: parse_rtattr_def parse_loop.simps RTA_ALIGN_def)
  from attributes_in_range [OF this, of 3 0] show ?thesis using run by simp
qed

text \<open>
  C23: an attribute added by \<open>addattr_l\<close> to a message whose attributes are
  well-formed is read back by \<open>parse_rtattr\<close>: the attributes before it as they were, the new one
  under its type with its length and its data.
\<close>

theorem attribute_round_trip:
  assumes old: "load32 be buf = Some old" and fill: "attrs_fill be mx buf off
      (uint (align32 old) - int off) Map.empty tb" and off: "4 \<le> off" "int off \<le> uint (align32 old)"
    and small: "int (length data) + 4 < 2 ^ 16"
      "uint (align32 old) + RTA_ALIGN (int (length data) + 4) < 2 ^ 32"
    and ty: "0 \<le> ty" "ty < 2 ^ 16"
    and add: "addattr_l be buf maxlen ty data (int (length data)) = Some (0, buf')"
  shows "\<exists>new. load32 be buf' = Some new \<and>
    parse_rtattr be mx buf' off (uint new - int off) =
      Some (if nat ty \<le> mx then tb(nat ty \<mapsto> unat (align32 old)) else tb) \<and>
    rta_payload be buf' (unat (align32 old)) = Some (int (length data)) \<and>
    rta_data buf' (unat (align32 old)) (length data) = Some data"
proof -
  let ?n = "unat (align32 old)"
  let ?len = "int (length data) + 4"
  let ?new = "align32 old + word_of_int (RTA_ALIGN ?len)"
  have R: "0 \<le> RTA_ALIGN ?len" "?len \<le> RTA_ALIGN ?len" using RTA_ALIGN_bounds [of ?len] by simp_all
  have bytes: "buf_bytes data (int (length data)) = Some data" by (simp add: buf_bytes_def)
  have put: "put_attr be buf old ?len ty data ?new = Some buf'"
    using addattr_l_SomeD [OF add] old bytes by auto
  have un: "uint (align32 old) = int ?n" by simp
  then have n4: "4 \<le> ?n" using off by linarith
  note lay = put_attr_layout [OF put n4]
  obtain lw tw where l: "load16 be (drop ?n buf') = Some lw" "uint lw = ?len"
    and t: "load16 be (drop (?n + 2) buf') = Some tw" "unat tw = nat ty"
    and data: "rta_data buf' ?n (length data) = Some data"
    using put_attr_reads [OF put n4 small(1) ty] by blast
  have "uint ?new = (uint (align32 old) + RTA_ALIGN ?len) mod 2 ^ 32"
    using uint_word_add_mod [of "align32 old" "RTA_ALIGN ?len"] .
  then have new: "uint ?new = uint (align32 old) + RTA_ALIGN ?len"
    using small(2) R(1) by simp
  have "attrs_fill be mx buf' off (uint (align32 old) - int off) Map.empty tb"
    by (rule attrs_fill_cong [OF fill], rule lay(2)) (use off un in linarith)+
  then have "parse_loop be mx buf' off (uint (align32 old) - int off + RTA_ALIGN ?len) Map.empty =
      parse_loop be mx buf' (off + nat (uint (align32 old) - int off)) (RTA_ALIGN ?len) tb"
    using R(1) by (rule parse_fill)
  moreover have "off + nat (uint (align32 old) - int off) = ?n"
    using off(2) un by linarith
  moreover have "parse_loop be mx buf' ?n (RTA_ALIGN ?len) tb =
      Some (if nat ty \<le> mx then tb(nat ty \<mapsto> ?n) else tb)"
    using R l t by (subst parse_loop.simps) (simp, simp add: parse_loop.simps)
  moreover have "uint ?new - int off = uint (align32 old) - int off + RTA_ALIGN ?len"
    using new by simp
  ultimately have "parse_rtattr be mx buf' off (uint ?new - int off) =
      Some (if nat ty \<le> mx then tb(nat ty \<mapsto> ?n) else tb)"
    unfolding parse_rtattr_def by (simp only:)
  moreover have "rta_payload be buf' ?n = Some (int (length data))"
    by (simp add: rta_payload_def l)
  ultimately show ?thesis using lay(1) data by blast
qed

theorem attribute_round_trip_witness:
  "addattr_l False [8, 0, 0, 0, 4, 0, 1, 0, 0, 0, 0, 0, 0, 0, 0, 0] 16 2 [65, 66] 2 =
     Some (0, [16, 0, 0, 0, 4, 0, 1, 0, 6, 0, 2, 0, 65, 66, 0, 0]) \<and>
   parse_rtattr False 3 [16, 0, 0, 0, 4, 0, 1, 0, 6, 0, 2, 0, 65, 66, 0, 0] 4 12 =
     Some [1 \<mapsto> 4, 2 \<mapsto> 8] \<and>
   rta_data [16, 0, 0, 0, 4, 0, 1, 0, 6, 0, 2, 0, 65, 66, 0, 0] 8 2 = Some [65, 66]"
proof -
  let ?buf = "[8, 0, 0, 0, 4, 0, 1, 0, 0, 0, 0, 0, 0, 0, 0, 0] :: byte list"
  let ?buf' = "[16, 0, 0, 0, 4, 0, 1, 0, 6, 0, 2, 0, 65, 66, 0, 0] :: byte list"
  have old: "load32 False ?buf = Some 8" by simp
  have a: "align32 8 = 8" by (simp add: align32_def)
  have add: "addattr_l False ?buf 16 2 [65, 66] (int (length [65 :: byte, 66])) = Some (0, ?buf')"
    by (simp add: addattr_l_def a RTA_LENGTH_def RTA_ALIGN_def buf_bytes_def put_attr_def
        write_at_def rta_bytes_def mem16_def mem32_def)
  have "attrs_fill False 3 ?buf 4 (uint (align32 8) - int 4) Map.empty [1 \<mapsto> 4]"
    by (rule fill_attr [where l = 4 and t = 1]) (simp_all add: a RTA_ALIGN_def fill_none)
  from attribute_round_trip [OF old this _ _ _ _ _ _ add]
  show ?thesis using add by (simp add: a RTA_ALIGN_def flip: numeral_2_eq_2)
qed

end
