(* ===== verification/Printing.thy ===== *)
theory Printing
  imports Monad Chains
begin

text \<open>
  What the program prints about itself: \<open>Log\<close> and the functions of \<^verbatim>\<open>src/framework.c\<close> that only print
  (interfaces, sockets, mappings, the whole context), the lines \<open>cmd_line_parse\<close> ends with and the help
  text of \<^verbatim>\<open>src/portproxy.c\<close>. The output is a string. It is undefined (\<open>None\<close>) where the code reads
  through a bad pointer or prints an array that is no string.
\<close>

section \<open>Strings in memory\<close>

abbreviation NUL :: char where "NUL \<equiv> CHR 0x00"

abbreviation LF :: char where "LF \<equiv> CHR 0x0A"

text \<open>The string an array starts with; \<open>None\<close> when no NUL ends it.\<close>

definition c_str :: "string \<Rightarrow> string option" where
  "c_str arr = (if NUL \<in> set arr then Some (takeWhile (\<lambda>c. c \<noteq> NUL) arr) else None)"

section \<open>How the C library writes numbers and addresses\<close>

text \<open>Decimal numbers.\<close>

fun show_nat :: "nat \<Rightarrow> string" where
  "show_nat n =
     (if n < 10 then [char_of (48 + n)] else show_nat (n div 10) @ [char_of (48 + n mod 10)])"

declare show_nat.simps [simp del]

definition show_int :: "int \<Rightarrow> string" where
  "show_int n = (if n < 0 then CHR ''-'' # show_nat (nat (- n)) else show_nat (nat n))"

text \<open>\<open>inet_ntop(AF_INET, ...)\<close> of the bytes of an address, and of an address as the machine reads it.\<close>

fun show_addr :: "byte list \<Rightarrow> string" where
  "show_addr [] = []"
| "show_addr [a] = show_nat (unat a)"
| "show_addr (a # as) = show_nat (unat a) @ ''.'' @ show_addr as"

definition inet_ntop4 :: "bool \<Rightarrow> u32 \<Rightarrow> string" where
  "inet_ntop4 be a = show_addr (mem32 be a)"

text \<open>\<open>%02x\<close> of a byte, and bytes so written with colons between them.\<close>

definition hex_char :: "nat \<Rightarrow> char" where
  "hex_char n = char_of (if n < 10 then 48 + n else 87 + n)"

fun show_mac :: "byte list \<Rightarrow> string" where
  "show_mac [] = []"
| "show_mac [b] = [hex_char (unat b div 16), hex_char (unat b mod 16)]"
| "show_mac (b # bs) = hex_char (unat b div 16) # hex_char (unat b mod 16) # CHR '':'' # show_mac bs"

section \<open>Log\<close>

definition LogLevel :: "int \<Rightarrow> state \<Rightarrow> state" where
  "LogLevel level s = s\<lparr>log_level := level\<rparr>"

text \<open>
  What \<open>Log\<close> prints of a message, whose text may be undefined: the arguments of \<open>vprintf\<close> are only
  read when the level is printed.
\<close>

definition Log :: "state \<Rightarrow> int \<Rightarrow> string option \<Rightarrow> string option" where
  "Log s level txt = (if level > log_level s then Some [] else txt)"

text \<open>Several outputs, one after the other.\<close>

fun outs :: "string option list \<Rightarrow> string option" where
  "outs [] = Some []"
| "outs (x # xs) = Option.bind x (\<lambda>a. Option.bind (outs xs) (\<lambda>b. Some (a @ b)))"

text \<open>A line of constant text followed by a value.\<close>

abbreviation log_line :: "state \<Rightarrow> int \<Rightarrow> string \<Rightarrow> string \<Rightarrow> string option" where
  "log_line s level what v \<equiv> Log s level (Some (what @ v @ [LF]))"

text \<open>The loop \<open>while (p) { print p; p = p->next; }\<close>.\<close>

partial_function (option) print_list ::
  "('n \<Rightarrow> ptr) \<Rightarrow> ('n \<Rightarrow> string option) \<Rightarrow> (ptr \<Rightarrow> 'n option) \<Rightarrow> ptr \<Rightarrow> string option" where
  "print_list nxt f h p =
     (if p = 0 then Some []
      else Option.bind (h p) (\<lambda>n. Option.bind (f n) (\<lambda>a.
           Option.bind (print_list nxt f h (nxt n)) (\<lambda>b. Some (a @ b)))))"

section \<open>Interfaces, sockets and mappings\<close>

definition mac_text :: "iface_t \<Rightarrow> string" where
  "mac_text i = (if if_maclen i \<ge> 6 then show_mac (take 6 (if_mac i)) else [])"

definition iface_text :: "iface_t \<Rightarrow> string" where
  "iface_text i =
     ''  Interface '' @ if_name i @ '', '' @ show_int (if_ipaddrcount i) @ '' address(es), MAC='' @
     mac_text i"

definition iface_print :: "bool \<Rightarrow> state \<Rightarrow> iface_t \<Rightarrow> string option" where
  "iface_print be s i =
     outs (log_line s 1 (iface_text i) [] #
           map (\<lambda>k. if k < length (if_ipaddr i)
                    then log_line s 2 ''    IPv4='' (inet_ntop4 be (if_ipaddr i ! k)) else None)
             [0..<nat (if_ipaddrcount i)])"

definition ifaces_print :: "bool \<Rightarrow> state \<Rightarrow> ptr \<Rightarrow> string option" where
  "ifaces_print be s = print_list if_next (iface_print be s) (iheap s)"

text \<open>The number of an enumeration value.\<close>

fun socket_type_nr :: "socket_type_t \<Rightarrow> int" where
  "socket_type_nr SOCKET_TYPE_UDP = IPPROTO_UDP"
| "socket_type_nr SOCKET_TYPE_UDP6 = IPPROTO_UDP + 1"
| "socket_type_nr SOCKET_TYPE_TCP_LISTENING = IPPROTO_TCP"
| "socket_type_nr SOCKET_TYPE_TCP_CONNECTED = IPPROTO_TCP + 1"

definition socket_text :: "bool \<Rightarrow> socket_t \<Rightarrow> string" where
  "socket_text be n =
     ''  fd='' @ show_int (s_fd n) @ '', proto='' @ show_int (s_ipproto n) @
     '', state='' @ show_int (socket_type_nr (s_state n)) @ '', peer-sock='' @ show_int (s_peer n) @
     '', peer_addr='' @ inet_ntop4 be (s_peer_addr n) @ '', peer_port='' @ show_int (s_peer_port n) @
     '', mcast='' @ show_int (s_mcast n)"

definition sockets_print :: "bool \<Rightarrow> state \<Rightarrow> ptr \<Rightarrow> string option" where
  "sockets_print be s = print_list s_next (\<lambda>n. log_line s 3 (socket_text be n) []) (sheap s)"

definition mapping_text :: "bool \<Rightarrow> mapping_t \<Rightarrow> string" where
  "mapping_text be m =
     ''Mapping '' @ (if m_proto m = IPPROTO_UDP then ''UDP'' else ''TCP'') @
     '': src='' @ inet_ntop4 be (m_clientIP m) @ ''/port '' @ show_int (m_clientPort m) @
     '',dst='' @ inet_ntop4 be (m_lanIP m) @ ''/port '' @ show_int (m_lanPort m) @
     '' => src='' @ inet_ntop4 be (m_wanIP m) @ ''/port '' @ show_int (m_wanPort m) @
     '',dst='' @ inet_ntop4 be (m_aftrIPv4 m) @ ''/port '' @ show_int (m_routerPort m) @
     '' (sock='' @ show_int (m_lanSock m) @ ''/'' @ show_int (m_wanSock m) @ '')''"

definition mapping_print :: "bool \<Rightarrow> state \<Rightarrow> mapping_t \<Rightarrow> string option" where
  "mapping_print be s m = log_line s 2 (mapping_text be m) []"

section \<open>The context\<close>

definition yes_no :: "int \<Rightarrow> string" where
  "yes_no n = (if n \<noteq> 0 then ''YES'' else ''NO'')"

text \<open>An array of the context, printed with \<open>%s\<close>.\<close>

definition log_name :: "state \<Rightarrow> string \<Rightarrow> string \<Rightarrow> string option" where
  "log_name s what arr = Log s 2 (map_option (\<lambda>v. what @ v @ [LF]) (c_str arr))"

definition context_print :: "bool \<Rightarrow> state \<Rightarrow> string option" where
  "context_print be s = outs
     [log_line s 2 ''Detected interfaces:'' [],
      ifaces_print be s (ifaces s),
      log_line s 2 ''Configuration:'' [],
      log_name s ''  lan='' (lan s),
      log_name s ''  wan='' (wan s),
      log_line s 2 ''  lanIP='' (inet_ntop4 be (lanIP s)),
      log_line s 2 ''  wanIP='' (inet_ntop4 be (wanIP s)),
      log_line s 2 ''  aftrIPv4='' (inet_ntop4 be (aftrIPv4 s)),
      sockets_print be s (sockets s),
      log_line s 2 ''  natpmp_udp_port='' (show_int (sint (natpmp_udp_port s))),
      log_line s 2 ''  upnp_udp_port='' (show_int (sint (upnp_udp_port s))),
      log_line s 2 ''  upnp_tcp_port1='' (show_int (sint (upnp_tcp_port1 s))),
      log_line s 2 ''  upnp_tcp_port2='' (show_int (sint (upnp_tcp_port2 s))),
      log_line s 2 ''  fwd_tcp_port1='' (show_int (sint (fwd_tcp_port1 s))),
      log_line s 2 ''  fwd_tcp_port2='' (show_int (sint (fwd_tcp_port2 s))),
      log_line s 2 ''  shared_udp_sock='' (yes_no (uint (shared_udp_sock s))),
      log_line s 2 ''  enable_natpmp='' (yes_no (enable_nat_pmp s)),
      log_line s 2 ''  enable_upnp_tcp='' (yes_no (enable_upnp_tcp s)),
      log_line s 2 ''  enable_upnp_udp='' (yes_no (enable_upnp_udp s)),
      print_list m_next (mapping_print be s) (mheap s) (mappings s)]"

section \<open>Banner and help\<close>

definition PORTPROXY_VERSION :: string where "PORTPROXY_VERSION = ''2010-03-02''"

definition PORTPROXY_COPYRIGHT1 :: string where
  "PORTPROXY_COPYRIGHT1 = ''| Portproxy - NAT-PMP/UPnP proxy, version '' @ PORTPROXY_VERSION"
definition PORTPROXY_COPYRIGHT2 :: string where
  "PORTPROXY_COPYRIGHT2 = ''| Author : Tomasz Mrugalski<tomasz.mrugalski(at)gmail.com>''"
definition PORTPROXY_COPYRIGHT3 :: string where
  "PORTPROXY_COPYRIGHT3 =
     ''| Licence : GNU GPL v2 only. Developed at Gdansk University of Technology.''"
definition PORTPROXY_COPYRIGHT4 :: string where
  "PORTPROXY_COPYRIGHT4 = ''| Homepage: http://klub.com.pl/portproxy/''"

text \<open>The help text, line by line.\<close>

definition help_lines :: "string list" where
  "help_lines =
     ['' portproxy '' @ PORTPROXY_VERSION,
      ''----------------------'',
      [],
      '' --lan-iface name- defines LAN interface, ('' @ PORTPROXY_DEFAULT_LAN_IFACE @ '') by default'',
      '' --wan-iface name- defines WAN interface, ('' @ PORTPROXY_DEFAULT_WAN_IFACE @ '') by default'',
      '' -l <IPv4addr>   - defines B4 LAN IPv4 address (e.g. -l 192.168.1.1)'',
      ''                   Portproxy will listen for client's messages on this address'',
      '' -w <IPv4addr>   - defines B4 WAN IPv4 address (e.g. -w 192.0.0.2)'',
      ''                   Portproxy will use this address to forward messages to the NAT router'',
      '' -a <IPv4addr>   - defines AFTR IPv4 address (e.g. -w 192.0.0.1)'',
      ''                   Portproxy will forward incoming messages to this IPv4 address.'',
      '' --nat-pmp X     - Enables(X=1) or Disables (X=0) nat-pmp protocol (default = enabled)'',
      '' --nat-pnp-ext X - Enables (X=1) or disables (X=0) extended nat-pmp'',
      ''                   (NAT-PMP messages are extended with extra 12 bytes that'',
      ''                   hold extra information (as defined in AFTR-1.0b1 doc)'',
      '' --upnp-udp X    - enables(X=1) or disables (X=0) uPNP UDP support (default = enabled)'',
      '' --upnp-tcp X    - enables(X=1) or disables (X=0) uPNP TCP support (default = enabled)'',
      '' -g              - become a daemon'',
      '' --persistent    - be persistent. Start even when specified addresses or interface'',
      ''                   are not available yet.'',
      '' -v              - increases verbosity level to 2 (more verbose than default 1)'',
      ''                   (use twice to further increase verbosity)'',
      [],
      ''Following options are used for extended NAT-PMP solution only.'',
      ''Please note that extended NAT-PMP and NAT-PMP are mutually exclusive.'',
      '' -b <IPv6 addr>  - IPv6 address on the WAN side. Use as source address for'',
      ''                   extended NAT-PMP messages, forwarded to AFTR'',
      '' -s <IPv6 addr>  - AFTR IPv6 address. Extended NAT-PMP messages will be'',
      ''                   forwarded to this address.'',
      ''Following options are for testing/debugging purposes only:'',
      '' --nat-pmp-port X   - specifies UDP port for NAT-PMP protocol (default = '' @ show_int PORTPROXY_NATPMP_UDP_PORT @ '')'',
      '' --upnp-udp-port X  - specifies UDP port for uPNP protocol (default = '' @ show_int PORTPROXY_UPNP_UDP_PORT @ '')'',
      '' --upnp-tcp-port1 X - specifies TCP port1 for uPNP protocol (default = '' @ show_int PORTPROXY_UPNP_TCP_PORT1 @ '')'',
      '' --upnp-tcp-port2 X - specifies TCP port2 for uPNP protocol (default = '' @ show_int PORTPROXY_UPNP_TCP_PORT2 @ '')'',
      []]"

definition help_print :: string where
  "help_print = concat (map (\<lambda>l. l @ [LF]) help_lines)"

text \<open>What \<open>cmd_line_parse\<close> prints once the options are read.\<close>

definition parse_report :: "bool \<Rightarrow> state \<Rightarrow> string option" where
  "parse_report be s = outs
     [log_line s 1 PORTPROXY_COPYRIGHT1 [], log_line s 1 PORTPROXY_COPYRIGHT2 [],
      log_line s 1 PORTPROXY_COPYRIGHT3 [], log_line s 1 PORTPROXY_COPYRIGHT4 [],
      context_print be s]"

end
