(* ===== verification/Ifaces.thy ===== *)
theory Ifaces
  imports Netlink Printing
begin

text \<open>
  The network interfaces, as \<^verbatim>\<open>src/lowlevel-linux.c\<close> reads them from two netlink dumps: the list
  with names, link-layer and IPv4 addresses, and the IPv6 address of one interface.
\<close>

section \<open>Strings in memory\<close>

text \<open>
  \<open>strcmp\<close> of a string with what an array holds: whether they are equal; \<open>None\<close> when the end of the
  array is passed before the comparison is decided. Strings hold no NUL themselves.
\<close>

fun strcmp_eq :: "string \<Rightarrow> string \<Rightarrow> bool option" where
  "strcmp_eq _ [] = None"
| "strcmp_eq [] (c # _) = Some (c = NUL)"
| "strcmp_eq (a # s) (c # arr) = (if a = c then strcmp_eq s arr else Some False)"

definition chars :: "byte list \<Rightarrow> string" where
  "chars = map (\<lambda>b. char_of (unat b))"

section \<open>Operations\<close>

definition AF_UNSPEC_nr :: byte where "AF_UNSPEC_nr = 0"
definition AF_INET_nr :: byte where "AF_INET_nr = 2"
definition AF_INET6_nr :: byte where "AF_INET6_nr = 10"
definition AF_PACKET_nr :: byte where "AF_PACKET_nr = 17"

definition RTM_GETLINK :: u16 where "RTM_GETLINK = 18"
definition RTM_GETADDR :: u16 where "RTM_GETADDR = 22"

definition IFLA_ADDRESS :: nat where "IFLA_ADDRESS = 1"
definition IFLA_IFNAME :: nat where "IFLA_IFNAME = 3"
definition IFA_ADDRESS :: nat where "IFA_ADDRESS = 1"
definition IFA_LOCAL :: nat where "IFA_LOCAL = 2"

text \<open>The global handle of the file, opened and closed. Not called by the program.\<close>

definition lowlevelInit :: "env \<Rightarrow> rtnl_handle \<Rightarrow> (int \<times> rtnl_handle) M" where
  "lowlevelInit e rth =
     bindM (rtnl_open e 0 rth) (\<lambda>(r, rth).
     returnM (if r < 0 then LOWLEVEL_ERROR_SOCKET else 0, rth))"

definition lowlevelExit :: "env \<Rightarrow> rtnl_handle \<Rightarrow> int M" where
  "lowlevelExit e rth = thenM (rtnl_close e rth) (returnM 0)"

text \<open>The filter of the dumps: a copy of the message at the end of the list.\<close>

definition store_nlmsg :: "byte list \<Rightarrow> byte list list \<Rightarrow> int \<times> byte list list" where
  "store_nlmsg n linfo = (0, linfo @ [n])"

text \<open>
  The attributes of an address message, after each of \<open>IFA_LOCAL\<close> and \<open>IFA_ADDRESS\<close> was filled in
  from the other.
\<close>

definition addr_attrs :: "env \<Rightarrow> byte list \<Rightarrow> (nat \<Rightarrow> nat option) option" where
  "addr_attrs e n =
     (case load32 (big_endian e) n of
        None \<Rightarrow> None
      | Some len \<Rightarrow>
          (case parse_rtattr (big_endian e) (IFA_MAX e) n 24 (uint len - NLMSG_LENGTH 8) of
             None \<Rightarrow> None
           | Some tb \<Rightarrow>
               let tb = (if tb IFA_LOCAL = None then tb(IFA_LOCAL := tb IFA_ADDRESS) else tb);
                   tb = (if tb IFA_ADDRESS = None then tb(IFA_ADDRESS := tb IFA_LOCAL) else tb)
               in Some tb))"

text \<open>The first bytes of the address in a message, read through a pointer that may be \<open>NULL\<close>.\<close>

definition addr_bytes :: "env \<Rightarrow> byte list \<Rightarrow> nat \<Rightarrow> byte list option" where
  "addr_bytes e n k =
     (case addr_attrs e n of
        None \<Rightarrow> None
      | Some tb \<Rightarrow> (case tb IFLA_ADDRESS of None \<Rightarrow> None | Some off \<Rightarrow> rta_data n off k))"

text \<open>
  The new buffer for one address more: \<open>malloc((cnt+1)*4)\<close> bytes, into which the \<open>cnt\<close> addresses found
  so far are copied from the fifth \<open>int\<close> on (\<open>buf+4\<close> counts in \<open>int\<close>s), and the new one at its start. A
  copy of no bytes touches nothing. The new memory counts as cleared; a byte that is not written is
  never reached, as \<open>grow_addrs_run\<close> in \<^verbatim>\<open>Links\<close> shows.
\<close>

definition memcpy_at :: "nat \<Rightarrow> byte list \<Rightarrow> byte list \<Rightarrow> byte list option" where
  "memcpy_at off xs buf = (if xs = [] then Some buf else write_at off xs buf)"

definition grow_addrs :: "nat \<Rightarrow> byte list \<Rightarrow> byte list \<Rightarrow> byte list option" where
  "grow_addrs cnt tmpbuf addr =
     (case buf_bytes tmpbuf (int (cnt * 4)) of
        None \<Rightarrow> None
      | Some old \<Rightarrow>
          (case memcpy_at (4 * 4) old (replicate ((cnt + 1) * 4) 0) of
             None \<Rightarrow> None
           | Some buf \<Rightarrow> memcpy_at 0 addr buf))"

text \<open>The loop of \<open>ipaddr_global_get\<close>: \<open>cnt\<close>, and the bytes \<open>buf\<close> (none while it is \<open>NULL\<close>).\<close>

fun ipaddr_global_get ::
  "env \<Rightarrow> u32 \<Rightarrow> byte list list \<Rightarrow> nat \<Rightarrow> byte list \<Rightarrow> (nat \<times> byte list) option" where
  "ipaddr_global_get e ifindex [] cnt buf = Some (cnt, buf)"
| "ipaddr_global_get e ifindex (n # ainfo) cnt buf =
     (case (load16 (big_endian e) (drop 16 n), load32 (big_endian e) (drop 20 n)) of
        (Some _, Some index) \<Rightarrow>
          if n ! 16 = AF_INET_nr \<and> index = ifindex
          then (case Option.bind (addr_bytes e n 4) (grow_addrs cnt buf) of
                  None \<Rightarrow> None
                | Some buf \<Rightarrow> ipaddr_global_get e ifindex ainfo (cnt + 1) buf)
          else ipaddr_global_get e ifindex ainfo cnt buf
      | _ \<Rightarrow> None)"

text \<open>An array of \<open>int\<close>s from its bytes.\<close>

fun ints :: "bool \<Rightarrow> byte list \<Rightarrow> u32 list" where
  "ints be (a # b # c # d # bs) = the (load32 be [a, b, c, d]) # ints be bs"
| "ints be _ = []"

text \<open>A \<open>char\<close> as the machine compares it with an \<open>int\<close>.\<close>

definition char_val :: "env \<Rightarrow> byte \<Rightarrow> int" where
  "char_val e b = (if char_signed e then sint b else uint b)"

definition skip_addr6 :: "env \<Rightarrow> byte list \<Rightarrow> bool" where
  "skip_addr6 e addr \<longleftrightarrow>
     char_val e (addr ! 0) = 0xfe \<and> char_val e (addr ! 1) = 0x80 \<or> char_val e (addr ! 0) = 0xff"

text \<open>\<open>Some None\<close> is the result -1.\<close>

fun ipaddr6_global_get :: "env \<Rightarrow> u32 \<Rightarrow> byte list list \<Rightarrow> byte list option option" where
  "ipaddr6_global_get e ifindex [] = Some None"
| "ipaddr6_global_get e ifindex (n # ainfo) =
     (case (load16 (big_endian e) (drop 16 n), load32 (big_endian e) (drop 20 n)) of
        (Some _, Some index) \<Rightarrow>
          if n ! 16 = AF_INET6_nr \<and> index = ifindex
          then (case addr_bytes e n 16 of
                  None \<Rightarrow> None
                | Some addr \<Rightarrow>
                    if skip_addr6 e addr then ipaddr6_global_get e ifindex ainfo
                    else Some (Some addr))
          else ipaddr6_global_get e ifindex ainfo
      | _ \<Rightarrow> None)"

text \<open>The attributes of a link message.\<close>

definition link_attrs :: "env \<Rightarrow> byte list \<Rightarrow> (nat \<Rightarrow> nat option) option" where
  "link_attrs e l =
     (case load32 (big_endian e) l of
        None \<Rightarrow> None
      | Some len \<Rightarrow> parse_rtattr (big_endian e) (IFLA_MAX e) l 32 (uint len - NLMSG_LENGTH 16))"

text \<open>The array that starts at the data of the name attribute and ends with the message.\<close>

definition link_name :: "byte list \<Rightarrow> (nat \<Rightarrow> nat option) \<Rightarrow> string option" where
  "link_name l tb = map_option (\<lambda>off. chars (drop (off + 4) l)) (tb IFLA_IFNAME)"

text \<open>\<open>mac\<close> and \<open>maclen\<close>; copying more than 255 bytes is undefined.\<close>

definition link_mac :: "env \<Rightarrow> byte list \<Rightarrow> (nat \<Rightarrow> nat option) \<Rightarrow> (byte list \<times> int) option" where
  "link_mac e l tb =
     (case tb IFLA_ADDRESS of
        None \<Rightarrow> Some (replicate 255 0, 0)
      | Some off \<Rightarrow>
          (case rta_payload (big_endian e) l off of
             None \<Rightarrow> None
           | Some n \<Rightarrow>
               if n < 0 \<or> 255 < n then None
               else map_option (\<lambda>m. (m @ replicate (255 - nat n) 0, n)) (rta_data l off (nat n))))"

text \<open>
  One turn of the loop of \<open>if_list_get\<close>: the structure for a link message. Its \<open>next\<close> is what the
  allocated memory held.
\<close>

definition iface_of_link :: "env \<Rightarrow> byte list list \<Rightarrow> ptr \<Rightarrow> byte list \<Rightarrow> iface_t option" where
  "iface_of_link e ainfo garbage l =
     (case link_attrs e l of
        None \<Rightarrow> None
      | Some tb \<Rightarrow>
          (case (Option.bind (link_name l tb) c_str, load16 (big_endian e) (drop 18 l),
                 load32 (big_endian e) (drop 20 l), load32 (big_endian e) (drop 24 l),
                 link_mac e l tb) of
             (Some name, Some ty, Some index, Some flags, Some (mac, maclen)) \<Rightarrow>
               (case ipaddr_global_get e index ainfo 0 [] of
                  None \<Rightarrow> None
                | Some (cnt, buf) \<Rightarrow> Some
                    \<lparr>if_name = take (MAX_IFNAME_LENGTH - 1) name, if_id = sint index,
                     if_hardwareType = uint ty, if_mac = mac, if_maclen = maclen,
                     if_ipaddr = ints (big_endian e) buf, if_ipaddrcount = int cnt, if_flags = uint flags,
                     if_next = garbage\<rparr>)
           | _ \<Rightarrow> None))"

definition malloc_iface :: "iface_t \<Rightarrow> ptr M" where
  "malloc_iface i s =
     Some (Ret (brk s), s\<lparr>brk := Suc (brk s), iheap := (iheap s)(brk s \<mapsto> i)\<rparr>)"

definition put_iface :: "ptr \<Rightarrow> (iface_t \<Rightarrow> iface_t) \<Rightarrow> unit M" where
  "put_iface p f s =
     (case iheap s p of None \<Rightarrow> None
      | Some i \<Rightarrow> Some (Ret (), s\<lparr>iheap := (iheap s)(p \<mapsto> f i)\<rparr>))"

definition free_iface :: "ptr \<Rightarrow> unit M" where
  "free_iface p s =
     (case iheap s p of None \<Rightarrow> None | Some _ \<Rightarrow> Some (Ret (), s\<lparr>iheap := (iheap s)(p := None)\<rparr>))"

lemmas [run_simps] = malloc_iface_def put_iface_def free_iface_def

fun build_ifaces :: "env \<Rightarrow> byte list list \<Rightarrow> ptr \<Rightarrow> ptr \<Rightarrow> byte list list \<Rightarrow> ptr M" where
  "build_ifaces e ainfo head tmp [] = returnM head"
| "build_ifaces e ainfo head tmp (l # linfo) =
     bindM (readM (\<lambda>s. iface_of_link e ainfo (e_heap e (hist s)) l)) (\<lambda>i.
     bindM (malloc_iface i) (\<lambda>p.
     if head = 0 then build_ifaces e ainfo p p linfo
     else thenM (put_iface tmp (if_next_update (\<lambda>_. p))) (build_ifaces e ainfo head p linfo)))"

text \<open>
  The two dumps both functions start with. The results of the netlink calls are not looked at.
\<close>

definition link_dumps :: "env \<Rightarrow> (byte list list \<times> byte list list) M" where
  "link_dumps e =
     (let rth = \<lparr>rth_fd = 0, rth_pid = 0, rth_seq = 0, rth_dump = 0\<rparr> in
      bindM (rtnl_open e 0 rth) (\<lambda>(_, rth).
      bindM (rtnl_wilddump_request e AF_PACKET_nr RTM_GETLINK rth) (\<lambda>(_, rth).
      bindM (rtnl_dump_filter e rth store_nlmsg None []) (\<lambda>(_, linfo).
      bindM (rtnl_wilddump_request e AF_UNSPEC_nr RTM_GETADDR rth) (\<lambda>(_, rth).
      bindM (rtnl_dump_filter e rth store_nlmsg None []) (\<lambda>(_, ainfo).
      returnM (linfo, ainfo)))))))"

definition if_list_get :: "env \<Rightarrow> ptr M" where
  "if_list_get e = bindM (link_dumps e) (\<lambda>(linfo, ainfo). build_ifaces e ainfo 0 0 linfo)"

partial_function (option) if_list_release :: "ptr \<Rightarrow> state \<Rightarrow> (unit outcome \<times> state) option" where
  "if_list_release p s =
     (if p = 0 then Some (Ret (), s)
      else case iheap s p of
             None \<Rightarrow> None
           | Some i \<Rightarrow> bindM (free_iface p) (\<lambda>_. if_list_release (if_next i)) s)"

text \<open>
  The loop of \<open>iface_ip6_get\<close> over the links; \<open>found\<close> is the address last written to the caller's
  buffer.
\<close>

fun ip6_loop ::
  "env \<Rightarrow> string \<Rightarrow> byte list list \<Rightarrow> byte list option \<Rightarrow> byte list list \<Rightarrow> byte list option option" where
  "ip6_loop e iface ainfo found [] = Some found"
| "ip6_loop e iface ainfo found (l # linfo) =
     (case link_attrs e l of
        None \<Rightarrow> None
      | Some tb \<Rightarrow>
          (case Option.bind (link_name l tb) (strcmp_eq iface) of
             None \<Rightarrow> None
           | Some same \<Rightarrow>
               if \<not> same then ip6_loop e iface ainfo found linfo
               else (case load32 (big_endian e) (drop 20 l) of
                       None \<Rightarrow> None
                     | Some index \<Rightarrow>
                         (case ipaddr6_global_get e index ainfo of
                            None \<Rightarrow> None
                          | Some None \<Rightarrow> ip6_loop e iface ainfo found linfo
                          | Some (Some addr) \<Rightarrow> ip6_loop e iface ainfo (Some addr) linfo))))"

text \<open>\<open>None\<close> as a value is the result -1.\<close>

definition iface_ip6_get :: "env \<Rightarrow> string \<Rightarrow> byte list option M" where
  "iface_ip6_get e iface =
     bindM (link_dumps e) (\<lambda>(linfo, ainfo). readM (\<lambda>_. ip6_loop e iface ainfo None linfo))"

end
