(* ===== verification/Links.thy ===== *)
theory Links
  imports Ifaces
begin

text \<open>
  What the interface functions of \<^verbatim>\<open>src/lowlevel-linux.c\<close> compute: the messages a dump stores, the
  addresses of an interface, the linked list of interfaces, and the descriptors left open.
\<close>

section \<open>A dump as the kernel sends it\<close>

text \<open>
  A message of the dump that belongs to the handle; the message that ends the dump; the messages of
  a datagram, each padded to a multiple of four bytes.
\<close>

definition dump_item :: "bool \<Rightarrow> rtnl_handle \<Rightarrow> byte list \<Rightarrow> bool" where
  "dump_item be rth n \<longleftrightarrow>
     (case hdr_at be n of
        None \<Rightarrow> False
      | Some h \<Rightarrow> uint (nlmsg_len h) = int (length n) \<and> 16 \<le> length n \<and> nlmsg_pid h = rth_pid rth \<and>
          nlmsg_seq h = rth_dump rth \<and> nlmsg_type h \<noteq> NLMSG_DONE \<and> nlmsg_type h \<noteq> NLMSG_ERROR)"

definition dump_end :: "bool \<Rightarrow> rtnl_handle \<Rightarrow> byte list \<Rightarrow> bool" where
  "dump_end be rth n \<longleftrightarrow>
     (case hdr_at be n of
        None \<Rightarrow> False
      | Some h \<Rightarrow> 16 \<le> uint (nlmsg_len h) \<and> uint (nlmsg_len h) \<le> int (length n) \<and>
          nlmsg_pid h = rth_pid rth \<and> nlmsg_seq h = rth_dump rth \<and> nlmsg_type h = NLMSG_DONE)"

definition padded :: "byte list \<Rightarrow> byte list" where
  "padded n = n @ replicate ((4 - length n mod 4) mod 4) 0"

definition datagram :: "byte list list \<Rightarrow> byte list" where
  "datagram ns = concat (map padded ns)"

text \<open>The kernel answers the next reads of a descriptor with these datagrams.\<close>

fun dump_answers :: "env \<Rightarrow> int \<Rightarrow> event list \<Rightarrow> byte list list \<Rightarrow> bool" where
  "dump_answers e fd h [] = True"
| "dump_answers e fd h (d # ds) =
     (e_ret e h (Sys_recvmsg fd 16384) \<noteq> -1 \<and> r_bytes (e_recv e h fd) = d \<and> d \<noteq> [] \<and>
      length d \<le> 16384 \<and> r_nlpid (e_recv e h fd) = 0 \<and> \<not> r_trunc (e_recv e h fd) \<and>
      dump_answers e fd ((Sys_recvmsg fd 16384, int (length d)) # h) ds)"

abbreviation recv_events :: "int \<Rightarrow> byte list list \<Rightarrow> event list" where
  "recv_events fd ds \<equiv> rev (map (\<lambda>d. (Sys_recvmsg fd 16384, int (length d))) ds)"

lemma align_nat: "NLMSG_ALIGN (int k) = int (k + (4 - k mod 4) mod 4)"
proof -
  define q r where "q = k div 4" and "r = k mod 4"
  then have k: "k = 4 * q + r" "r < 4" by simp_all
  then have "r = 0 \<or> r = 1 \<or> r = 2 \<or> r = 3" by auto
  then show ?thesis unfolding k(1) by (auto simp: NLMSG_ALIGN_def)
qed

lemma align_padded: "NLMSG_ALIGN (int (length n)) = int (length (padded n))"
  by (simp only: align_nat padded_def length_append length_replicate)

lemma hdr_at_append: "hdr_at be xs = Some h \<Longrightarrow> hdr_at be (xs @ ys) = Some h"
  by (auto simp: hdr_at_def load_append split: option.splits)

lemma dump_msgs_item:
  assumes n: "dump_item be rth n" and st: "int (length (padded n)) \<le> status"
  shows "dump_msgs be rth 0 store_nlmsg None (padded n @ xs) status acc =
    dump_msgs be rth 0 store_nlmsg None xs (status - int (length (padded n))) (acc @ [n])"
proof -
  obtain h where h: "hdr_at be n = Some h" "uint (nlmsg_len h) = int (length n)" "16 \<le> length n"
    "nlmsg_pid h = rth_pid rth" "nlmsg_seq h = rth_dump rth"
    "nlmsg_type h \<noteq> NLMSG_DONE" "nlmsg_type h \<noteq> NLMSG_ERROR"
    using n by (auto simp: dump_item_def split: option.splits)
  have hd: "hdr_at be (padded n @ xs) = Some h"
    using hdr_at_append [OF h(1)] by (simp add: padded_def)
  have "int (length n) \<le> status" using st by (simp add: padded_def)
  then have ok: "NLMSG_OK be (padded n @ xs) status"
    using h by (simp add: NLMSG_OK_def hd)
  have "take (length n) (padded n @ xs) = n" by (simp add: padded_def)
  then show ?thesis
    using h by (subst dump_msgs.simps) (simp add: hd ok align_padded store_nlmsg_def)
qed

lemma dump_msgs_end:
  assumes "dump_end be rth d"
  shows "dump_msgs be rth 0 store_nlmsg None d (int (length d)) acc = (Inl 0, acc)"
proof -
  obtain h where h: "hdr_at be d = Some h" "16 \<le> uint (nlmsg_len h)" "uint (nlmsg_len h) \<le> int (length d)"
    "nlmsg_pid h = rth_pid rth" "nlmsg_seq h = rth_dump rth" "nlmsg_type h = NLMSG_DONE"
    using assms by (auto simp: dump_end_def split: option.splits)
  then have "NLMSG_OK be d (int (length d))" by (simp add: NLMSG_OK_def)
  then show ?thesis using h by (subst dump_msgs.simps) simp
qed

lemma dump_msgs_items:
  assumes "list_all (dump_item be rth) ns" and "int (length (datagram ns)) \<le> status"
  shows "dump_msgs be rth 0 store_nlmsg None (datagram ns @ xs) status acc =
    dump_msgs be rth 0 store_nlmsg None xs (status - int (length (datagram ns))) (acc @ ns)"
  using assms
proof (induction ns arbitrary: status acc)
  case Nil
  then show ?case by (simp add: datagram_def)
next
  case (Cons n ns)
  have d: "datagram (n # ns) = padded n @ datagram ns" by (simp add: datagram_def)
  have "dump_msgs be rth 0 store_nlmsg None (padded n @ (datagram ns @ xs)) status acc =
      dump_msgs be rth 0 store_nlmsg None (datagram ns @ xs) (status - int (length (padded n))) (acc @ [n])"
    using Cons.prems d by (intro dump_msgs_item) simp_all
  also have "\<dots> = dump_msgs be rth 0 store_nlmsg None xs
      (status - int (length (padded n)) - int (length (datagram ns))) ((acc @ [n]) @ ns)"
    using Cons.prems d by (intro Cons.IH) simp_all
  finally show ?case by (simp add: d diff_diff_eq)
qed

lemma dump_msgs_none: "dump_msgs be rth sender filt junk xs 0 arg = (Inr 0, arg)"
  by (subst dump_msgs.simps) (simp add: NLMSG_OK_def)

lemma recv_answer:
  assumes "dump_answers e fd (hist s) (d # ds)"
  shows "recvmsg e fd 16384 s = Some (Ret (int (length d), e_recv e (hist s) fd),
    s\<lparr>hist := (Sys_recvmsg fd 16384, int (length d)) # hist s\<rparr>)"
  using assms by (simp add: recvmsg_run recv_ret_def)

lemma dump_filter_run:
  assumes "dump_answers e fd (hist s) (map datagram nss @ [datagram ns @ d])"
    and "\<forall>n \<in> set (concat nss) \<union> set ns. dump_item (big_endian e) rth n"
    and d: "dump_end (big_endian e) rth d" and fd: "rth_fd rth = fd"
  shows "rtnl_dump_filter e rth store_nlmsg None acc s = Some (Ret (0, acc @ concat nss @ ns),
    s\<lparr>hist := recv_events fd (map datagram nss @ [datagram ns @ d]) @ hist s\<rparr>)"
  using assms(1,2)
proof (induction nss arbitrary: s acc)
  case Nil
  let ?m = "datagram ns @ d"
  note r = recv_answer [OF Nil(1) [simplified append.simps list.map]]
  have ne: "int (length (datagram ns)) + int (length d) \<noteq> 0"
    using Nil(1) by (auto simp flip: of_nat_add)
  have "dump_msgs (big_endian e) rth 0 store_nlmsg None ?m (int (length ?m)) acc = (Inl 0, acc @ ns)"
    using dump_msgs_items [of "big_endian e" rth ns "int (length ?m)" d acc] Nil(2)
      dump_msgs_end [OF d] by (simp add: list_all_iff)
  then show ?case
    using Nil(1) fd ne by (subst rtnl_dump_filter.simps) (simp add: run_simps r)
next
  case (Cons ms nss)
  let ?m = "datagram ms" let ?t = "s\<lparr>hist := (Sys_recvmsg fd 16384, int (length ?m)) # hist s\<rparr>"
  note r = recv_answer [OF Cons.prems(1) [unfolded append.simps list.map]]
  have "dump_msgs (big_endian e) rth 0 store_nlmsg None ?m (int (length ?m)) acc = (Inr 0, acc @ ms)"
    using dump_msgs_items [of "big_endian e" rth ms "int (length ?m)" "[]" acc] Cons.prems(2)
    by (simp add: list_all_iff dump_msgs_none)
  then have "rtnl_dump_filter e rth store_nlmsg None acc s = rtnl_dump_filter e rth store_nlmsg None (acc @ ms) ?t"
    using Cons.prems(1) fd by (subst rtnl_dump_filter.simps) (simp add: run_simps r)
  also have "\<dots> = Some (Ret (0, (acc @ ms) @ concat nss @ ns),
    ?t\<lparr>hist := recv_events fd (map datagram nss @ [datagram ns @ d]) @ hist ?t\<rparr>)"
    using Cons.prems by (intro Cons.IH) simp_all
  finally show ?case by simp
qed

section \<open>The addresses of an interface\<close>

text \<open>
  What an address message says of an interface and a family; a message in which that can be read.
\<close>

definition addr_in :: "env \<Rightarrow> byte \<Rightarrow> u32 \<Rightarrow> nat \<Rightarrow> byte list \<Rightarrow> byte list option" where
  "addr_in e fam idx k n =
     (if n ! 16 = fam \<and> load32 (big_endian e) (drop 20 n) = Some idx then addr_bytes e n k else None)"

definition addr_msg_ok :: "env \<Rightarrow> byte \<Rightarrow> u32 \<Rightarrow> nat \<Rightarrow> byte list \<Rightarrow> bool" where
  "addr_msg_ok e fam idx k n \<longleftrightarrow> 24 \<le> length n \<and>
     (n ! 16 = fam \<and> load32 (big_endian e) (drop 20 n) = Some idx \<longrightarrow> addr_bytes e n k \<noteq> None)"

lemma addr_msg_reads:
  assumes "addr_msg_ok e fam idx k n"
  obtains v w where "load16 (big_endian e) (drop 16 n) = Some v" "load32 (big_endian e) (drop 20 n) = Some w"
proof -
  have "24 \<le> length n" using assms by (simp add: addr_msg_ok_def)
  then have "2 \<le> length (drop 16 n)" "4 \<le> length (drop 20 n)" by simp_all
  then show thesis using load16_defined load32_defined that by blast
qed

lemma length_addr_bytes: "addr_bytes e n k = Some a \<Longrightarrow> length a = k"
  by (auto simp: addr_bytes_def rta_data_def split: option.splits if_splits)

text \<open>
  The old addresses end 16 bytes and 4 for each of them behind the start of a buffer that has 4 bytes
  for each of them and 4 more.
\<close>

lemma grow_addrs_run:
  assumes "length buf = 4 * cnt" and "length a = 4"
  shows "grow_addrs cnt buf a = (if cnt = 0 then Some a else None)"
proof (cases "cnt = 0")
  case True
  then show ?thesis using assms by (auto simp: grow_addrs_def memcpy_at_def buf_bytes_def write_at_def)
next
  case False
  then have "write_at 16 buf (replicate ((cnt + 1) * 4) 0) = None"
    using assms(1) by (simp add: write_at_def)
  then show ?thesis
    using assms False by (auto simp: grow_addrs_def memcpy_at_def buf_bytes_def)
qed

lemma length_grow_addrs: "grow_addrs cnt buf a = Some buf' \<Longrightarrow> length buf' = 4 * (cnt + 1)"
proof -
  have cp: "length z = length y" if "memcpy_at off x y = Some z" for off x y z
    using that write_at_SomeD(1) by (auto simp: memcpy_at_def split: if_splits)
  assume "grow_addrs cnt buf a = Some buf'"
  then obtain old b where "memcpy_at (4 * 4) old (replicate ((cnt + 1) * 4) 0) = Some b" "memcpy_at 0 a b = Some buf'"
    by (auto simp: grow_addrs_def split: option.splits)
  from cp [OF this(1)] cp [OF this(2)] show ?thesis by simp
qed

lemma length_ints [simp]: "length (ints be bs) = length bs div 4"
  by (induction be bs rule: ints.induct) simp_all

lemma ipaddr_count:
  "ipaddr_global_get e idx ainfo cnt buf = Some (cnt', buf') \<Longrightarrow> length buf = 4 * cnt \<Longrightarrow>
    length buf' = 4 * cnt'"
  by (induction e idx ainfo cnt buf rule: ipaddr_global_get.induct)
     (auto split: option.splits if_splits bind_splits dest: length_grow_addrs)

lemma ipaddr_loop:
  assumes "\<forall>n \<in> set ainfo. addr_msg_ok e AF_INET_nr idx 4 n" and "length buf = 4 * cnt"
  defines "as \<equiv> List.map_filter (addr_in e AF_INET_nr idx 4) ainfo"
  shows "ipaddr_global_get e idx ainfo cnt buf =
    (case as of [] \<Rightarrow> Some (cnt, buf) | [a] \<Rightarrow> if cnt = 0 then Some (1, a) else None | _ \<Rightarrow> None)"
  using assms(1,2) unfolding as_def
proof (induction ainfo arbitrary: cnt buf)
  case Nil
  then show ?case by (simp add: List.map_filter_def)
next
  case (Cons n ainfo)
  have n: "addr_msg_ok e AF_INET_nr idx 4 n" using Cons.prems by simp
  obtain v w where r: "load16 (big_endian e) (drop 16 n) = Some v"
    "load32 (big_endian e) (drop 20 n) = Some w" using n by (rule addr_msg_reads)
  have "\<forall>n \<in> set ainfo. addr_msg_ok e AF_INET_nr idx 4 n" using Cons.prems by simp
  note IH = Cons.IH [OF this]
  show ?case
  proof (cases "n ! 16 = AF_INET_nr \<and> w = idx")
    case False
    then have "addr_in e AF_INET_nr idx 4 n = None" using r by (auto simp: addr_in_def)
    then show ?thesis using False r IH [OF Cons.prems(2)] by (auto simp: List.map_filter_simps)
  next
    case True
    then obtain a where a: "addr_bytes e n 4 = Some a"
      using n r by (auto simp: addr_msg_ok_def)
    have len: "length a = 4" using length_addr_bytes [OF a] .
    moreover have "addr_in e AF_INET_nr idx 4 n = Some a" using True r a by (simp add: addr_in_def)
    ultimately show ?thesis
      using True r a IH [of a 1] grow_addrs_run [OF Cons.prems(2) len]
      by (auto simp: List.map_filter_simps split: list.splits)
  qed
qed

lemma ipaddr6_loop:
  assumes "\<forall>n \<in> set ainfo. addr_msg_ok e AF_INET6_nr idx 16 n"
  shows "ipaddr6_global_get e idx ainfo =
    Some (find (\<lambda>a. \<not> skip_addr6 e a) (List.map_filter (addr_in e AF_INET6_nr idx 16) ainfo))"
  using assms
proof (induction ainfo)
  case Nil
  then show ?case by (simp add: List.map_filter_def)
next
  case (Cons n ainfo)
  have n: "addr_msg_ok e AF_INET6_nr idx 16 n" using Cons.prems by simp
  obtain v w where r: "load16 (big_endian e) (drop 16 n) = Some v"
    "load32 (big_endian e) (drop 20 n) = Some w" using n by (rule addr_msg_reads)
  have IH: "ipaddr6_global_get e idx ainfo =
    Some (find (\<lambda>a. \<not> skip_addr6 e a) (List.map_filter (addr_in e AF_INET6_nr idx 16) ainfo))"
    using Cons by simp
  show ?case
  proof (cases "n ! 16 = AF_INET6_nr \<and> w = idx")
    case False
    then have "addr_in e AF_INET6_nr idx 16 n = None" using r by (auto simp: addr_in_def)
    then show ?thesis using False r IH by (auto simp: List.map_filter_simps)
  next
    case True
    then obtain a where a: "addr_bytes e n 16 = Some a"
      using n r by (auto simp: addr_msg_ok_def)
    then have "addr_in e AF_INET6_nr idx 16 n = Some a" using True r by (simp add: addr_in_def)
    then show ?thesis using True r a IH by (simp add: List.map_filter_simps)
  qed
qed

text \<open>As signed numbers, bytes are below 128.\<close>

lemma skip_addr6_iff:
  "skip_addr6 e a \<longleftrightarrow> \<not> char_signed e \<and> (a ! 0 = 0xfe \<and> a ! 1 = 0x80 \<or> a ! 0 = 0xff)"
proof -
  have s: "sint (b :: byte) < 128" for b using sint_lt [of b] by simp
  have u: "uint (b :: byte) = 0xfe \<longleftrightarrow> b = 0xfe" "uint b = 0x80 \<longleftrightarrow> b = 0x80" "uint b = 0xff \<longleftrightarrow> b = 0xff" for b
    by (simp_all add: word_uint_eq_iff)
  show ?thesis
  proof (cases "char_signed e")
    case True
    then show ?thesis using s [of "a ! 0"] by (auto simp: skip_addr6_def char_val_def)
  next
    case False
    then show ?thesis by (simp add: skip_addr6_def char_val_def u)
  qed
qed

section \<open>The list of interfaces\<close>

text \<open>
  Following \<open>next\<close> from \<open>p\<close> visits the nodes \<open>xs\<close> and then reads the pointer \<open>q\<close>. A list that ends
  with \<open>NULL\<close> is a chain.
\<close>

fun seg :: "(ptr \<Rightarrow> iface_t option) \<Rightarrow> ptr \<Rightarrow> (ptr \<times> iface_t) list \<Rightarrow> ptr \<Rightarrow> bool" where
  "seg h p [] q = (p = q)"
| "seg h p ((a, i) # xs) q = (p = a \<and> a \<noteq> 0 \<and> h a = Some i \<and> seg h (if_next i) xs q)"

interpretation ic: chain if_next "\<lambda>p. if_next_update (\<lambda>_. p)"
  by unfold_locales simp_all

abbreviation contents :: "(ptr \<times> iface_t) list \<Rightarrow> iface_t list" where
  "contents xs \<equiv> map (\<lambda>(a, i). i\<lparr>if_next := 0\<rparr>) xs"

lemma seg_chain: "seg h p xs 0 = chain_at if_next h p xs"
  by (induction xs arbitrary: p) auto

lemma seg_frame: "a \<notin> fst ` set xs \<Longrightarrow> seg (h(a := v)) p xs q = seg h p xs q"
  by (induction xs arbitrary: p) auto

lemma seg_relink:
  assumes "seg h p (ys @ [(b, i)]) q" and "b \<notin> fst ` set ys"
  shows "seg (h(b \<mapsto> i\<lparr>if_next := r\<rparr>)) p (ys @ [(b, i\<lparr>if_next := r\<rparr>)]) r"
  using assms by (induction ys arbitrary: p) auto

lemma seg_snoc: "seg h p ys q \<Longrightarrow> h q = Some i \<Longrightarrow> q \<noteq> 0 \<Longrightarrow> seg h p (ys @ [(q, i)]) (if_next i)"
  by (induction ys arbitrary: p) auto

lemma iface_garbage:
  assumes "iface_of_link e ainfo 0 l = Some i"
  shows "iface_of_link e ainfo g l = Some (i\<lparr>if_next := g\<rparr>)" and "if_next i = 0"
  using assms by (auto simp: iface_of_link_def split: option.splits)

text \<open>The loop, once it has a first node.\<close>

lemma build_loop:
  assumes "seg (iheap s) p (ys @ [(b, i)]) g" and "if_next i = g" and g: "e_heap e (hist s) = g"
    and "distinct (map fst (ys @ [(b, i)]))" and "\<forall>a \<in> fst ` set (ys @ [(b, i)]). a < brk s"
    and p: "p \<noteq> 0" and "list_all (\<lambda>l. iface_of_link e ainfo 0 l \<noteq> None) linfo"
  shows "\<exists>u xs. build_ifaces e ainfo p b linfo s = Some (Ret p, u) \<and> seg (iheap u) p xs g \<and>
    contents xs = contents (ys @ [(b, i)]) @ map (the \<circ> iface_of_link e ainfo 0) linfo \<and>
    distinct (map fst xs) \<and> hist u = hist s \<and> (\<forall>a. a \<notin> {brk s..<brk s + length linfo} \<longrightarrow> iheap s a = None \<longrightarrow> iheap u a = None)"
  using assms(1-5,7)
proof (induction linfo arbitrary: s ys b i)
  case Nil
  then show ?case
    by (intro exI [of _ s] exI [of _ "ys @ [(b, i)]"]) (simp add: run_simps)
next
  case (Cons l linfo)
  obtain j where j: "iface_of_link e ainfo 0 l = Some j" using Cons.prems(6) by auto
  note jg = iface_garbage [OF j]
  let ?c = "brk s" and ?j = "j\<lparr>if_next := g\<rparr>" and ?i = "i\<lparr>if_next := brk s\<rparr>"
  let ?s = "s\<lparr>brk := Suc ?c, iheap := ((iheap s)(?c \<mapsto> ?j))(b \<mapsto> ?i)\<rparr>"
  have b: "b < ?c" "b \<notin> fst ` set ys" "iheap s b = Some i" "b \<noteq> 0"
  proof -
    show "b < ?c" "b \<notin> fst ` set ys" using Cons.prems(4,5) by auto
    have "seg (iheap s) q (ys @ [(b, i)]) g \<Longrightarrow> iheap s b = Some i \<and> b \<noteq> 0" for q
      by (induction ys arbitrary: q) auto
    then show "iheap s b = Some i" "b \<noteq> 0" using Cons.prems(1) by blast+
  qed
  have c: "?c \<notin> fst ` set (ys @ [(b, i)])" using Cons.prems(5) by force
  have step: "build_ifaces e ainfo p b (l # linfo) s = build_ifaces e ainfo p ?c linfo ?s"
    using p b(1,3) jg(1) Cons.prems(3) by (simp add: run_simps)
  have "seg ((iheap s)(b \<mapsto> ?i)) p (ys @ [(b, ?i)]) ?c"
    using Cons.prems(1) b(2) by (rule seg_relink)
  then have "seg ((iheap s)(b \<mapsto> ?i, ?c \<mapsto> ?j)) p (ys @ [(b, ?i)]) ?c"
    using c seg_frame [of ?c "ys @ [(b, ?i)]"] by simp
  then have "seg ((iheap s)(b \<mapsto> ?i, ?c \<mapsto> ?j)) p ((ys @ [(b, ?i)]) @ [(?c, ?j)]) (if_next ?j)"
    using b(1) by (intro seg_snoc) auto
  then have sg: "seg (iheap ?s) p ((ys @ [(b, ?i)]) @ [(?c, ?j)]) g"
    using b(1) by (simp add: fun_upd_twist)
  have dist: "distinct (map fst ((ys @ [(b, ?i)]) @ [(?c, ?j)]))"
    using Cons.prems(4) c by auto
  have lt: "\<forall>a \<in> fst ` set ((ys @ [(b, ?i)]) @ [(?c, ?j)]). a < brk ?s"
    using Cons.prems(5) by force
  have g: "e_heap e (hist ?s) = g" using Cons.prems(3) by simp
  have ok: "list_all (\<lambda>l. iface_of_link e ainfo 0 l \<noteq> None) linfo" using Cons.prems(6) by simp
  from Cons.IH [OF sg _ g dist lt ok] obtain u xs where
    u: "build_ifaces e ainfo p ?c linfo ?s = Some (Ret p, u)" "seg (iheap u) p xs g"
    "contents xs = contents ((ys @ [(b, ?i)]) @ [(?c, ?j)]) @ map (the \<circ> iface_of_link e ainfo 0) linfo"
    "distinct (map fst xs)" "hist u = hist ?s" "\<forall>a. a \<notin> {brk ?s..<brk ?s + length linfo} \<longrightarrow> iheap ?s a = None \<longrightarrow> iheap u a = None"
    by auto
  have "j\<lparr>if_next := 0\<rparr> = j" using jg(2) by (cases j) simp
  then have "contents xs = contents (ys @ [(b, i)]) @ map (the \<circ> iface_of_link e ainfo 0) (l # linfo)"
    using u(3) j by simp
  moreover have "iheap u a = None" if "a \<notin> {brk s..<brk s + length (l # linfo)}" "iheap s a = None" for a
  proof -
    have "a \<noteq> b" "a \<noteq> brk s" using that b(3) by auto
    then show ?thesis using u(6) [rule_format, of a] that by auto
  qed
  ultimately show ?case
    using u step by (intro exI [of _ u] exI [of _ xs]) simp
qed

text \<open>The whole list, from the links.\<close>

lemma build_ifaces_run:
  assumes "list_all (\<lambda>l. iface_of_link e ainfo 0 l \<noteq> None) linfo" and "linfo \<noteq> []" and "0 < brk s"
  shows "\<exists>p u xs. build_ifaces e ainfo 0 0 linfo s = Some (Ret p, u) \<and>
    seg (iheap u) p xs (e_heap e (hist s)) \<and>
    contents xs = map (the \<circ> iface_of_link e ainfo 0) linfo \<and> distinct (map fst xs) \<and>
    hist u = hist s \<and> (\<forall>a. a \<notin> {brk s..<brk s + length linfo} \<longrightarrow> iheap s a = None \<longrightarrow> iheap u a = None)"
proof -
  obtain l ls where l: "linfo = l # ls" using assms(2) by (cases linfo) auto
  obtain j where j: "iface_of_link e ainfo 0 l = Some j" using assms(1) l by auto
  note jg = iface_garbage [OF j]
  let ?g = "e_heap e (hist s)"
  let ?s = "s\<lparr>brk := Suc (brk s), iheap := (iheap s)(brk s \<mapsto> j\<lparr>if_next := ?g\<rparr>)\<rparr>"
  have step: "build_ifaces e ainfo 0 0 linfo s = build_ifaces e ainfo (brk s) (brk s) ls ?s"
    using jg(1) by (simp add: l run_simps)
  obtain u xs where u: "build_ifaces e ainfo (brk s) (brk s) ls ?s = Some (Ret (brk s), u)"
    "seg (iheap u) (brk s) xs ?g"
    "contents xs = contents ([] @ [(brk s, j\<lparr>if_next := ?g\<rparr>)]) @ map (the \<circ> iface_of_link e ainfo 0) ls"
    "distinct (map fst xs)" "hist u = hist ?s" "\<forall>a. a \<notin> {brk ?s..<brk ?s + length ls} \<longrightarrow> iheap ?s a = None \<longrightarrow> iheap u a = None"
    using build_loop [of ?s "brk s" "[]" "brk s" "j\<lparr>if_next := ?g\<rparr>" ?g e ainfo ls] assms(1,3) l
    by fastforce
  have "j\<lparr>if_next := 0\<rparr> = j" using jg(2) by (cases j) simp
  then have "contents xs = map (the \<circ> iface_of_link e ainfo 0) linfo"
    using u(3) j l by simp
  moreover have "iheap u a = None" if "a \<notin> {brk s..<brk s + length linfo}" "iheap s a = None" for a
    using u(6) [rule_format, of a] that l by auto
  ultimately show ?thesis
    using u step by (intro exI [of _ "brk s"] exI [of _ u] exI [of _ xs]) simp
qed

text \<open>Releasing a list that is not ended by \<open>NULL\<close>, and looking for a name it does not have.\<close>

lemma release_seg:
  assumes "seg (iheap s) p xs q" and "distinct (map fst xs)" and "q \<noteq> 0" and "iheap s q = None"
  shows "if_list_release p s = None"
  using assms
proof (induction xs arbitrary: p s)
  case Nil
  then show ?case by (simp add: if_list_release.simps)
next
  case (Cons x xs)
  obtain a i where x: "x = (a, i)" by (cases x)
  let ?t = "s\<lparr>iheap := (iheap s)(a := None)\<rparr>"
  have "a \<notin> fst ` set xs" using Cons.prems(2) x by auto
  then have "seg ((iheap s)(a := None)) (if_next i) xs q"
    using Cons.prems(1) x seg_frame by simp
  moreover have "((iheap s)(a := None)) q = None" using Cons.prems(4) by simp
  ultimately have "if_list_release (if_next i) ?t = None"
    using Cons.prems x by (intro Cons.IH) (simp_all del: fun_upd_apply)
  then show ?case
    using Cons.prems x by (subst if_list_release.simps) (simp add: run_simps)
qed

lemma release_chain:
  assumes "chain_at if_next (iheap s) p xs"
  shows "if_list_release p s = Some (Ret (), s\<lparr>iheap := iheap s |` (- fst ` set xs)\<rparr>)"
  using assms
proof (induction xs arbitrary: p s)
  case Nil
  then show ?case by (simp add: if_list_release.simps)
next
  case (Cons x xs)
  obtain a i where x: "x = (a, i)" by (cases x)
  let ?t = "s\<lparr>iheap := (iheap s)(a := None)\<rparr>"
  have a: "a \<notin> fst ` set xs" using chain_at_distinct [OF Cons.prems] x by (auto simp: image_iff)
  have "chain_at if_next ((iheap s)(a := None)) (if_next i) xs"
    using Cons.prems x chain_at_upd [OF a] by simp
  then have "if_list_release (if_next i) ?t = Some (Ret (), ?t\<lparr>iheap := iheap ?t |` (- fst ` set xs)\<rparr>)"
    by (intro Cons.IH) (simp del: fun_upd_apply)
  moreover have "iheap ?t |` (- fst ` set xs) = iheap s |` (- fst ` set (x # xs))"
    using x by (auto simp: restrict_map_def)
  ultimately show ?case
    using Cons.prems x by (subst if_list_release.simps) (simp add: run_simps)
qed

section \<open>Open descriptors\<close>

definition fds_kept :: "state \<Rightarrow> state \<Rightarrow> bool" where
  "fds_kept s t \<longleftrightarrow> open_fds (hist s) \<subseteq> open_fds (hist t)"

interpretation fds_kept: frame fds_kept
  by unfold_locales (auto simp: fds_kept_def)

lemma fds_kept_sys: "(\<And>fd. c \<noteq> Sys_close fd) \<Longrightarrow> framed fds_kept (sys e c)"
  by (auto simp: framed_def fds_kept_def run_simps split: syscall.splits)

lemma fds_kept_recvmsg: "framed fds_kept (recvmsg e fd n)"
  by (simp add: framed_def fds_kept_def recvmsg_run)

text \<open>The loop over a dump keeps what reading from the socket keeps.\<close>

context frame
begin

lemma framed_dump_filter:
  assumes recv: "\<And>fd n. framed R (recvmsg e fd n)"
  shows "framed R (rtnl_dump_filter e rth filt junk arg)"
proof -
  have "(\<forall>fd n. framed R (recvmsg e fd n)) \<longrightarrow> R s (snd r)"
    if "rtnl_dump_filter e rth filt junk arg s = Some r" for s r
  proof (rule rtnl_dump_filter.raw_induct [of "\<lambda>e rth filt junk arg s r.
      (\<forall>fd n. framed R (recvmsg e fd n)) \<longrightarrow> R s (snd r)", OF _ that], rule impI)
    fix dump e rth filt junk arg s r
    assume IH: "\<And>e rth filt junk arg s r. dump e rth filt junk arg s = Some r \<Longrightarrow>
        (\<forall>fd n. framed R (recvmsg e fd n)) \<longrightarrow> R s (snd r)"
      and run: "bindM (recvmsg e (rth_fd rth) 16384) (\<lambda>(status, m) t.
         if status < 0 then dump e rth filt junk arg t
         else if status = 0 then returnM (-1, arg) t
         else (case dump_msgs (big_endian e) rth (r_nlpid m) filt junk (r_bytes m) status arg of
                 (Inl r, arg) \<Rightarrow> returnM (r, arg) t
               | (Inr rest, arg) \<Rightarrow>
                   if r_trunc m then dump e rth filt junk arg t
                   else if rest \<noteq> 0 then exitM 1 t
                   else dump e rth filt junk arg t)) s = Some r"
      and recv: "\<forall>fd n. framed R (recvmsg e fd n)"
    obtain status m u where m: "recvmsg e (rth_fd rth) 16384 s = Some (Ret (status, m), u)"
      by (simp add: recvmsg_run)
    have k: "R s u" using recv m framedD by blast
    have "R u (snd r)"
      using run IH recv R_refl
      by (auto simp: bindM_def m returnM_def exitM_def split: if_splits prod.splits sum.splits)
    with k show "R s (snd r)" by (rule R_trans)
  qed
  then show ?thesis using recv by (force simp: framed_def)
qed

end

lemmas fds_kept_intros =
  fds_kept.framed_intros fds_kept_sys fds_kept.framed_dump_filter [OF fds_kept_recvmsg]

text \<open>The descriptor of the dumps stays open.\<close>

abbreviation netlink_fd :: "env \<Rightarrow> state \<Rightarrow> int" where
  "netlink_fd e s \<equiv> e_ret e (hist s) (Sys_socket AF_NETLINK SOCK_RAW NETLINK_ROUTE)"

lemma wp_rtnl_open:
  assumes "0 \<le> netlink_fd e s"
  shows "wp (rtnl_open e sub rth) (\<lambda>_ t. insert (netlink_fd e s) (open_fds (hist s)) \<subseteq> open_fds (hist t)) s"
  using assms by (auto simp: rtnl_open_def rtnl_open_byproto_def wp_simps Let_def split: prod.splits)

lemma link_dumps_leak:
  assumes run: "link_dumps e s = Some (r, t)" and fd: "0 \<le> netlink_fd e s"
  shows "insert (netlink_fd e s) (open_fds (hist s)) \<subseteq> open_fds (hist t)"
proof -
  define rest where "rest = (\<lambda>(_ :: int, rth).
      bindM (rtnl_wilddump_request e AF_PACKET_nr RTM_GETLINK rth) (\<lambda>(_, rth).
      bindM (rtnl_dump_filter e rth store_nlmsg None []) (\<lambda>(_, linfo).
      bindM (rtnl_wilddump_request e AF_UNSPEC_nr RTM_GETADDR rth) (\<lambda>(_, rth).
      bindM (rtnl_dump_filter e rth store_nlmsg None []) (\<lambda>(_, ainfo).
      returnM (linfo, ainfo))))))"
  let ?rth = "\<lparr>rth_fd = 0, rth_pid = 0, rth_seq = 0, rth_dump = 0\<rparr>"
  obtain x u where u: "rtnl_open e 0 ?rth s = Some (Ret x, u)"
    "insert (netlink_fd e s) (open_fds (hist s)) \<subseteq> open_fds (hist u)"
    using wp_result [OF wp_rtnl_open [OF fd]] by blast
  have "rest x u = Some (r, t)"
    using run u(1) by (simp add: link_dumps_def rest_def run_simps)
  moreover have "framed fds_kept (rest x)"
    unfolding rest_def rtnl_wilddump_request_def Let_def by (intro fds_kept_intros) simp_all
  ultimately have "fds_kept u t" using framedD by blast
  then show ?thesis using u(2) by (auto simp: fds_kept_def)
qed

lemma fds_kept_build: "framed fds_kept (build_ifaces e ainfo p b linfo)"
proof -
  have mem: "framed fds_kept (malloc_iface i)" "framed fds_kept (put_iface q f)" for i q f
    by (auto simp: framed_def fds_kept_def run_simps split: option.splits)
  show ?thesis
    by (induction e ainfo p b linfo rule: build_ifaces.induct) (auto intro!: fds_kept_intros mem)
qed

section \<open>A sample dump\<close>

text \<open>
  A machine whose kernel answers the first dump with one link, \<open>br-lan\<close>, and the second with its
  address 10.0.0.1.
\<close>

abbreviation sample_link :: "byte list" where
  "sample_link \<equiv>
     [56, 0, 0, 0, 16, 0, 2, 0, 0xE9, 3, 0, 0, 77, 0, 0, 0,
      0, 0, 1, 0, 2, 0, 0, 0, 0x43, 0x10, 0, 0, 0xFF, 0xFF, 0xFF, 0xFF,
      11, 0, 3, 0, 0x62, 0x72, 0x2D, 0x6C, 0x61, 0x6E, 0, 0,
      10, 0, 1, 0, 2, 4, 6, 8, 10, 12, 0, 0]"

abbreviation sample_lan_addr :: "byte list" where
  "sample_lan_addr \<equiv>
     [32, 0, 0, 0, 20, 0, 2, 0, 0xEA, 3, 0, 0, 77, 0, 0, 0,
      2, 24, 128, 0, 2, 0, 0, 0, 8, 0, 1, 0, 10, 0, 0, 1]"

abbreviation sample_done :: "byte \<Rightarrow> byte list" where
  "sample_done sq \<equiv> [16, 0, 0, 0, 3, 0, 2, 0, sq, 3, 0, 0, 77, 0, 0, 0]"

text \<open>The kernel answers the last request that was sent; its type is in the fifth byte.\<close>

fun last_request :: "event list \<Rightarrow> byte list" where
  "last_request [] = []"
| "last_request ((c, r) # h) = (case c of Sys_sendto _ bs _ \<Rightarrow> bs | _ \<Rightarrow> last_request h)"

definition nl_env :: "ptr \<Rightarrow> env" where
  "nl_env g = sample_env\<lparr>e_recv := (\<lambda>h _.
     \<lparr>r_bytes = (if 4 < length (last_request h) \<and> last_request h ! 4 = 18
                 then sample_link @ sample_done 0xE9 else sample_lan_addr @ sample_done 0xEA),
      r_peer = 0, r_port = 0, r_pktinfo = [], r_pktinfo6 = [], r_nlpid = 0, r_trunc = False,
      r_namelen = 12\<rparr>), e_heap := (\<lambda>_. g)\<rparr>"

lemma nl_env_simps [simp]:
  "big_endian (nl_env g) = False" "e_ret (nl_env g) = e_ret sample_env" "e_nlname (nl_env g) h fd = (12, 16, 77)"
  "e_heap (nl_env g) h = g" "IFLA_MAX (nl_env g) = 20" "IFA_MAX (nl_env g) = 7"
  "e_signal (nl_env g) = e_signal sample_env" "e_route (nl_env g) h = None"
  by (simp_all add: nl_env_def sample_env_def)

lemma sample_items:
  "dump_item False \<lparr>rth_fd = 11, rth_pid = 77, rth_seq = 1001, rth_dump = 1001\<rparr> sample_link"
  "dump_item False \<lparr>rth_fd = 11, rth_pid = 77, rth_seq = 1002, rth_dump = 1002\<rparr> sample_lan_addr"
  "dump_end False \<lparr>rth_fd = 11, rth_pid = 77, rth_seq = 1001, rth_dump = 1001\<rparr> (sample_done 0xE9)"
  "dump_end False \<lparr>rth_fd = 11, rth_pid = 77, rth_seq = 1002, rth_dump = 1002\<rparr> (sample_done 0xEA)"
  "datagram [sample_link] = sample_link" "datagram [sample_lan_addr] = sample_lan_addr"
  by (simp_all add: dump_item_def dump_end_def hdr_at_def NLMSG_DONE_def NLMSG_ERROR_def datagram_def
      padded_def)

text \<open>Both dumps, from any state.\<close>

lemma nl_dumps:
  "\<exists>h. link_dumps (nl_env g) s =
     Some (Ret ([sample_link], [sample_lan_addr]), s\<lparr>hist := h\<rparr>)"
proof -
  let ?r0 = "\<lparr>rth_fd = 11, rth_pid = 77, rth_seq = 1000, rth_dump = 0\<rparr>"
  let ?r1 = "\<lparr>rth_fd = 11, rth_pid = 77, rth_seq = 1001, rth_dump = 1001\<rparr>"
  let ?r2 = "\<lparr>rth_fd = 11, rth_pid = 77, rth_seq = 1002, rth_dump = 1002\<rparr>"
  have q: "dump_req False RTM_GETLINK 1001 f ! 4 = 18" "4 < length (dump_req False RTM_GETLINK 1001 f)"
    "dump_req False RTM_GETADDR 1002 f ! 4 \<noteq> 18" for f
    by (simp_all add: dump_req_def hdr_bytes_def mem32_def mem16_def RTM_GETLINK_def RTM_GETADDR_def)
  obtain h0 where o: "rtnl_open (nl_env g) 0 \<lparr>rth_fd = 0, rth_pid = 0, rth_seq = 0, rth_dump = 0\<rparr> s =
    Some (Ret (0, ?r0), s\<lparr>hist := h0\<rparr>)"
    by (simp add: rtnl_open_def rtnl_open_byproto_def run_simps Let_def)
  obtain h1 where w1: "rtnl_wilddump_request (nl_env g) AF_PACKET_nr RTM_GETLINK ?r0 (s\<lparr>hist := h0\<rparr>) =
    Some (Ret (0, ?r1), s\<lparr>hist := h1\<rparr>)" "4 < length (last_request h1)" "last_request h1 ! 4 = 18"
    by (simp add: rtnl_wilddump_request_def run_simps Let_def q)
  have "dump_answers (nl_env g) 11 h1 [sample_link @ sample_done 0xE9]"
    using w1(2,3) by (simp add: nl_env_def)
  then obtain h2 where d1: "rtnl_dump_filter (nl_env g) ?r1 store_nlmsg None [] (s\<lparr>hist := h1\<rparr>) =
    Some (Ret (0, [sample_link]), s\<lparr>hist := h2\<rparr>)"
    using dump_filter_run [of "nl_env g" 11 "s\<lparr>hist := h1\<rparr>" "[]" "[sample_link]" "sample_done 0xE9" ?r1 "[]"]
      sample_items by simp
  obtain h3 where w2: "rtnl_wilddump_request (nl_env g) AF_UNSPEC_nr RTM_GETADDR ?r1 (s\<lparr>hist := h2\<rparr>) =
    Some (Ret (0, ?r2), s\<lparr>hist := h3\<rparr>)" "last_request h3 ! 4 \<noteq> 18"
    by (simp add: rtnl_wilddump_request_def run_simps Let_def q)
  have "dump_answers (nl_env g) 11 h3 [sample_lan_addr @ sample_done 0xEA]"
    using w2(2) by (simp add: nl_env_def)
  then obtain h4 where d2: "rtnl_dump_filter (nl_env g) ?r2 store_nlmsg None [] (s\<lparr>hist := h3\<rparr>) =
    Some (Ret (0, [sample_lan_addr]), s\<lparr>hist := h4\<rparr>)"
    using dump_filter_run [of "nl_env g" 11 "s\<lparr>hist := h3\<rparr>" "[]" "[sample_lan_addr]" "sample_done 0xEA" ?r2 "[]"]
      sample_items by simp
  show ?thesis
    by (intro exI [of _ h4]) (simp add: link_dumps_def Let_def run_simps o(1) w1(1) d1(1) w2(1) d2)
qed

text \<open>What the link and its address say.\<close>

definition sample_iface :: iface_t where
  "sample_iface =
     \<lparr>if_name = ''br-lan'', if_id = 2, if_hardwareType = 1,
      if_mac = [2, 4, 6, 8, 10, 12] @ replicate 249 0, if_maclen = 6, if_ipaddr = [0x0100000A],
      if_ipaddrcount = 1, if_flags = 0x1043, if_next = 0\<rparr>"

lemma sample_iface_of_link:
  "iface_of_link (nl_env g) [sample_lan_addr] 0 sample_link = Some sample_iface"
proof -
  have tb: "link_attrs (nl_env g) sample_link = Some [3 \<mapsto> 32, 1 \<mapsto> 44]"
    by (simp add: link_attrs_def NLMSG_LENGTH_def parse_rtattr_def parse_loop.simps RTA_ALIGN_def)
  have nm: "Option.bind (link_name sample_link [3 \<mapsto> 32, 1 \<mapsto> 44]) c_str = Some ''br-lan''"
    by code_simp
  have mac: "link_mac (nl_env g) sample_link [3 \<mapsto> 32, 1 \<mapsto> 44] = Some (if_mac sample_iface, 6)"
    by (simp add: link_mac_def IFLA_ADDRESS_def rta_payload_def rta_data_def sample_iface_def)
  have "addr_bytes (nl_env g) sample_lan_addr 4 = Some [10, 0, 0, 1]"
    by (simp add: addr_bytes_def addr_attrs_def NLMSG_LENGTH_def parse_rtattr_def parse_loop.simps
        RTA_ALIGN_def IFA_LOCAL_def IFA_ADDRESS_def IFLA_ADDRESS_def rta_data_def)
  then have ip: "ipaddr_global_get (nl_env g) 2 [sample_lan_addr] 0 [] = Some (1, [10, 0, 0, 1])"
    by (simp add: AF_INET_nr_def grow_addrs_run)
  show ?thesis
    unfolding iface_of_link_def tb option.case nm mac
    by (simp add: ip sample_iface_def MAX_IFNAME_LENGTH_def del: ipaddr_global_get.simps)
qed

lemma only_hist_link_dumps: "framed only_hist (link_dumps e)"
  unfolding link_dumps_def rtnl_open_def rtnl_open_byproto_def rtnl_wilddump_request_def Let_def
  by (intro only_hist.framed_intros only_hist.framed_dump_filter only_hist_sys only_hist_recvmsg)

lemma only_hist_iface_ip6_get [simp]: "framed only_hist (iface_ip6_get e n)"
  unfolding iface_ip6_get_def by (intro only_hist.framed_intros only_hist_link_dumps)

section \<open>Properties\<close>

text \<open>
  C25: when the kernel answers a dump with datagrams of messages for the handle, the
  last of them ended by \<open>NLMSG_DONE\<close>, the loop ends with 0 after reading exactly these datagrams, and
  has stored every message whole, in order.
\<close>

theorem dump_collects:
  assumes "dump_answers e (rth_fd rth) (hist s) (map datagram nss @ [datagram ns @ d])"
    and "\<forall>n \<in> set (concat nss) \<union> set ns. dump_item (big_endian e) rth n"
    and "dump_end (big_endian e) rth d"
  shows "rtnl_dump_filter e rth store_nlmsg None acc s = Some (Ret (0, acc @ concat nss @ ns),
    s\<lparr>hist := recv_events (rth_fd rth) (map datagram nss @ [datagram ns @ d]) @ hist s\<rparr>)"
  using dump_filter_run [OF assms refl] .

theorem dump_collects_witness:
  "\<exists>t. rtnl_dump_filter
      (sample_env\<lparr>e_recv := (\<lambda>_ _. \<lparr>r_bytes = [18, 0, 0, 0, 22, 0, 2, 0, 5, 0, 0, 0, 77, 0, 0, 0, 9, 8, 0, 0,
          16, 0, 0, 0, 3, 0, 2, 0, 5, 0, 0, 0, 77, 0, 0, 0],
        r_peer = 0, r_port = 0, r_pktinfo = [], r_pktinfo6 = [], r_nlpid = 0, r_trunc = False, r_namelen = 12\<rparr>)\<rparr>)
      \<lparr>rth_fd = 3, rth_pid = 77, rth_seq = 5, rth_dump = 5\<rparr> store_nlmsg None [] sample0 =
    Some (Ret (0, [[18, 0, 0, 0, 22, 0, 2, 0, 5, 0, 0, 0, 77, 0, 0, 0, 9, 8]]), t)"
proof -
  let ?n = "[18, 0, 0, 0, 22, 0, 2, 0, 5, 0, 0, 0, 77, 0, 0, 0, 9, 8] :: byte list"
  let ?d = "[16, 0, 0, 0, 3, 0, 2, 0, 5, 0, 0, 0, 77, 0, 0, 0] :: byte list"
  let ?rth = "\<lparr>rth_fd = 3, rth_pid = 77, rth_seq = 5, rth_dump = 5\<rparr>"
  let ?e = "sample_env\<lparr>e_recv := (\<lambda>_ _. \<lparr>r_bytes = ?n @ [0, 0] @ ?d, r_peer = 0, r_port = 0,
    r_pktinfo = [], r_pktinfo6 = [], r_nlpid = 0, r_trunc = False, r_namelen = 12\<rparr>)\<rparr>"
  have p: "datagram [?n] = ?n @ [0, 0]" by (simp add: datagram_def padded_def numeral_2_eq_2)
  have "dump_answers ?e (rth_fd ?rth) (hist sample0) (map datagram [] @ [datagram [?n] @ ?d])"
    unfolding p by (simp add: sample_env_def)
  moreover have "\<forall>n \<in> set (concat []) \<union> set [?n]. dump_item (big_endian ?e) ?rth n"
    by (simp add: dump_item_def hdr_at_def NLMSG_DONE_def NLMSG_ERROR_def)
  moreover have "dump_end (big_endian ?e) ?rth ?d"
    by (simp add: dump_end_def hdr_at_def NLMSG_DONE_def)
  ultimately show ?thesis
    using dump_collects [of ?e ?rth sample0 "[]" "[?n]" ?d "[]"] by simp
qed

text \<open>
  C26: the IPv4 addresses of an interface, from address messages that can be
  read: none, with a count of 0; or the four bytes of the only one, with a count of 1. For an
  interface with more there is no defined result: the copy of the old addresses starts at byte 16 of
  a buffer of four bytes for each address.
\<close>

theorem ipv4_addresses_spec:
  assumes "\<forall>n \<in> set ainfo. addr_msg_ok e AF_INET_nr idx 4 n"
  shows "ipaddr_global_get e idx ainfo 0 [] =
    (case List.map_filter (addr_in e AF_INET_nr idx 4) ainfo of
       [] \<Rightarrow> Some (0, []) | [a] \<Rightarrow> Some (1, a) | _ \<Rightarrow> None)"
  using ipaddr_loop [OF assms, of "[]" 0] by (simp cong: list.case_cong)

text \<open>An address message: index 2, one attribute \<open>IFA_ADDRESS\<close>.\<close>

abbreviation sample_addr :: "byte \<Rightarrow> byte list \<Rightarrow> byte list" where
  "sample_addr fam a \<equiv> [of_nat (28 + length a), 0, 0, 0, 0, 0, 0, 0, 0, 0, 0, 0, 0, 0, 0, 0,
     fam, 0, 0, 0, 2, 0, 0, 0, of_nat (4 + length a), 0, 1, 0] @ a"

lemma sample_addr4: "addr_bytes sample_env (sample_addr 2 [10, 0, 0, x]) 4 = Some [10, 0, 0, x]"
  by (simp add: addr_bytes_def addr_attrs_def NLMSG_LENGTH_def parse_rtattr_def parse_loop.simps
      RTA_ALIGN_def sample_env_def IFA_LOCAL_def IFA_ADDRESS_def IFLA_ADDRESS_def rta_data_def)

theorem ipv4_addresses_spec_witness:
  "ipaddr_global_get sample_env 2 [sample_addr 2 [10, 0, 0, 1], sample_addr 2 [10, 0, 0, 7]] 0 [] = None \<and>
   ipaddr_global_get sample_env 2 [sample_addr 2 [10, 0, 0, 1]] 0 [] = Some (1, [10, 0, 0, 1])"
proof -
  let ?n = "\<lambda>x :: byte. sample_addr 2 [10, 0, 0, x]"
  have a: "addr_in sample_env AF_INET_nr 2 4 (?n x) = Some [10, 0, 0, x]" for x
    using sample_addr4 [of x] by (simp add: addr_in_def AF_INET_nr_def)
  have "addr_msg_ok sample_env AF_INET_nr 2 4 (?n x)" for x
    using sample_addr4 [of x] by (simp add: addr_msg_ok_def AF_INET_nr_def)
  then have ok: "\<forall>n \<in> set [?n 1, ?n 7]. addr_msg_ok sample_env AF_INET_nr 2 4 n"
    "\<forall>n \<in> set [?n 1]. addr_msg_ok sample_env AF_INET_nr 2 4 n" by simp_all
  show ?thesis
    unfolding ipv4_addresses_spec [OF ok(1)] ipv4_addresses_spec [OF ok(2)]
    by (simp add: List.map_filter_simps a [simplified])
qed

text \<open>
  C27: the IPv6 address of an interface, from address messages that can be read, is
  the first that is neither link-local nor multicast where \<open>char\<close> is unsigned; where it is signed, as
  on most machines, the test never applies and it is the first of any kind.
\<close>

theorem ipv6_address_spec:
  assumes "\<forall>n \<in> set ainfo. addr_msg_ok e AF_INET6_nr idx 16 n"
  shows "ipaddr6_global_get e idx ainfo =
    Some (find (\<lambda>a. char_signed e \<or> \<not> (a ! 0 = 0xfe \<and> a ! 1 = 0x80 \<or> a ! 0 = 0xff))
      (List.map_filter (addr_in e AF_INET6_nr idx 16) ainfo))"
  unfolding ipaddr6_loop [OF assms] skip_addr6_iff by (simp add: disj_commute)

theorem ipv6_address_spec_witness:
  "ipaddr6_global_get sample_env 2 [sample_addr 10 [0xfe, 0x80, 1, 1, 1, 1, 1, 1, 1, 1, 1, 1, 1, 1, 1, 1]] =
     Some (Some [0xfe, 0x80, 1, 1, 1, 1, 1, 1, 1, 1, 1, 1, 1, 1, 1, 1]) \<and>
   ipaddr6_global_get (sample_env\<lparr>char_signed := False\<rparr>) 2 [sample_addr 10 [0xfe, 0x80, 1, 1, 1, 1, 1, 1, 1, 1, 1, 1, 1, 1, 1, 1]] =
     Some None"
proof -
  let ?a = "[0xfe, 0x80, 1, 1, 1, 1, 1, 1, 1, 1, 1, 1, 1, 1, 1, 1] :: byte list"
  let ?n = "sample_addr 10 ?a"
  let ?f = "sample_env\<lparr>char_signed := False\<rparr>"
  have a: "addr_bytes sample_env ?n 16 = Some ?a" "addr_bytes ?f ?n 16 = Some ?a"
    by (simp_all add: addr_bytes_def addr_attrs_def NLMSG_LENGTH_def parse_rtattr_def parse_loop.simps
        RTA_ALIGN_def sample_env_def IFA_LOCAL_def IFA_ADDRESS_def IFLA_ADDRESS_def rta_data_def)
  have i: "addr_in sample_env AF_INET6_nr 2 16 ?n = Some ?a" "addr_in ?f AF_INET6_nr 2 16 ?n = Some ?a"
    using a by (simp_all add: addr_in_def AF_INET6_nr_def sample_env_def)
  have ok: "\<forall>n \<in> set [?n]. addr_msg_ok sample_env AF_INET6_nr 2 16 n"
    "\<forall>n \<in> set [?n]. addr_msg_ok ?f AF_INET6_nr 2 16 n"
    using a by (simp_all add: addr_msg_ok_def AF_INET6_nr_def)
  have "char_signed sample_env" by (simp add: sample_env_def)
  then show ?thesis
    unfolding ipv6_address_spec [OF ok(1)] ipv6_address_spec [OF ok(2)]
    using i by (simp add: List.map_filter_simps)
qed

text \<open>
  C28: when the memory \<open>malloc\<close> returns happens to hold zeros, \<open>if_list_get\<close> returns a
  list that has one node for each link of the dump, in order, with what the link and its addresses
  say, and \<open>if_list_release\<close> frees exactly its nodes.
\<close>

theorem if_list_built:
  assumes "link_dumps e s = Some (Ret (linfo, ainfo), t)" and "linfo \<noteq> []" and "0 < brk t"
    and "list_all (\<lambda>l. iface_of_link e ainfo 0 l \<noteq> None) linfo" and "e_heap e (hist t) = 0"
  shows "\<exists>p u xs. if_list_get e s = Some (Ret p, u) \<and> chain_at if_next (iheap u) p xs \<and>
    contents xs = map (the \<circ> iface_of_link e ainfo 0) linfo \<and>
    if_list_release p u = Some (Ret (), u\<lparr>iheap := iheap u |` (- fst ` set xs)\<rparr>)"
proof -
  obtain p u xs where "build_ifaces e ainfo 0 0 linfo t = Some (Ret p, u)" "seg (iheap u) p xs 0"
    "contents xs = map (the \<circ> iface_of_link e ainfo 0) linfo"
    using build_ifaces_run [OF assms(4,2,3)] assms(5) by metis
  then show ?thesis
    using assms(1) by (auto simp: if_list_get_def run_simps seg_chain release_chain
        intro!: exI [of _ p] exI [of _ xs])
qed

theorem if_list_built_witness:
  "\<exists>p u xs. if_list_get (nl_env 0) sample0 = Some (Ret p, u) \<and> chain_at if_next (iheap u) p xs \<and>
    contents xs = [sample_iface] \<and>
    if_list_release p u = Some (Ret (), u\<lparr>iheap := iheap u |` (- fst ` set xs)\<rparr>)"
proof -
  obtain h where "link_dumps (nl_env 0) sample0 =
    Some (Ret ([sample_link], [sample_lan_addr]), sample0\<lparr>hist := h\<rparr>)" using nl_dumps by blast
  from if_list_built [OF this] sample_iface_of_link show ?thesis by simp
qed

text \<open>
  C29: \<open>if_list_get\<close> never sets the link of the last node. When the memory held
  another value, the list it returns ends with that wild pointer: nothing frees it, \<open>if_list_release\<close>
  (and so \<open>ctx_release\<close>) has no defined result.
\<close>

theorem if_list_unterminated:
  assumes "link_dumps e s = Some (Ret (linfo, ainfo), t)" and "linfo \<noteq> []" and "0 < brk t"
    and "list_all (\<lambda>l. iface_of_link e ainfo 0 l \<noteq> None) linfo" and "e_heap e (hist t) = g"
    and "g \<noteq> 0" and "g \<notin> {brk t..<brk t + length linfo}" and "iheap t g = None"
  shows "\<exists>p u. if_list_get e s = Some (Ret p, u) \<and> if_list_release p u = None"
proof -
  obtain p u xs where u: "build_ifaces e ainfo 0 0 linfo t = Some (Ret p, u)" "seg (iheap u) p xs g"
    "contents xs = map (the \<circ> iface_of_link e ainfo 0) linfo" "distinct (map fst xs)" "iheap u g = None"
    using build_ifaces_run [OF assms(4,2,3)] assms(5,7,8) by metis
  have "if_list_release p u = None"
    using u(2,4) assms(6) u(5) by (rule release_seg)
  then show ?thesis
    using assms(1) u(1) by (auto simp: if_list_get_def run_simps)
qed

theorem if_list_unterminated_witness:
  "\<exists>p u. if_list_get (nl_env 900) sample0 = Some (Ret p, u) \<and> if_list_release p u = None"
proof -
  let ?e = "nl_env 900"
  obtain h where "link_dumps ?e sample0 =
    Some (Ret ([sample_link], [sample_lan_addr]), sample0\<lparr>hist := h\<rparr>)" using nl_dumps by blast
  from if_list_unterminated [OF this, of 900] sample_iface_of_link show ?thesis
    by (simp add: sample_state_def)
qed

text \<open>
  C30: the netlink socket \<open>if_list_get\<close> opens is never closed: its descriptor, and
  every one that was open, is open when the list is returned.
\<close>

theorem netlink_fd_leaks:
  assumes "if_list_get e s = Some (r, t)" and "0 \<le> netlink_fd e s"
  shows "insert (netlink_fd e s) (open_fds (hist s)) \<subseteq> open_fds (hist t)"
proof -
  obtain r' u where u: "link_dumps e s = Some (r', u)" "fds_kept u t"
    using assms(1) framedD [OF fds_kept_build] fds_kept.R_refl
    by (auto simp: if_list_get_def bindM_def split: option.splits outcome.splits prod.splits)
  show ?thesis
    using link_dumps_leak [OF u(1) assms(2)] u(2) by (auto simp: fds_kept_def)
qed

theorem netlink_fd_leaks_witness:
  "\<exists>p t. if_list_get (nl_env 0) sample0 = Some (Ret p, t) \<and> 11 \<in> open_fds (hist t)"
proof -
  obtain h where d: "link_dumps (nl_env 0) sample0 =
    Some (Ret ([sample_link], [sample_lan_addr]), sample0\<lparr>hist := h\<rparr>)" using nl_dumps by blast
  then obtain p t where "if_list_get (nl_env 0) sample0 = Some (Ret p, t)"
    using build_ifaces_run [of "nl_env 0" "[sample_lan_addr]" "[sample_link]" "sample0\<lparr>hist := h\<rparr>"]
      sample_iface_of_link by (auto simp: if_list_get_def run_simps)
  with netlink_fd_leaks [OF this] show ?thesis by simp
qed

end
