(* ===== verification/Config.thy ===== *)
theory Config
  imports Links
begin

text \<open>
  Configuration, from \<^verbatim>\<open>src/portproxy.c\<close>: the defaults, detected from the interfaces and the routing
  table, and the command line.
\<close>

section \<open>The C library on strings\<close>

text \<open>\<open>strncpy\<close> into an array of \<open>n\<close> characters: cut, or padded with NUL.\<close>

definition strncpy :: "string \<Rightarrow> nat \<Rightarrow> string" where
  "strncpy src n = take n (src @ replicate n NUL)"

text \<open>\<open>sprintf\<close> of a string without conversions into an array.\<close>

definition sprintf_str :: "string \<Rightarrow> string \<Rightarrow> string option" where
  "sprintf_str src arr =
     (if length src < length arr then Some (src @ [NUL] @ drop (length src + 1) arr) else None)"

definition to_lower :: "char \<Rightarrow> char" where
  "to_lower c = (let n = of_char c :: nat in if 65 \<le> n \<and> n \<le> 90 then char_of (n + 32) else c)"

definition strcaseeq :: "string \<Rightarrow> string \<Rightarrow> bool" where
  "strcaseeq a b \<longleftrightarrow> map to_lower a = map to_lower b"

definition isspace :: "char \<Rightarrow> bool" where
  "isspace c \<longleftrightarrow> (let n = of_char c :: nat in n = 32 \<or> 9 \<le> n \<and> n \<le> 13)"

definition isdigit :: "char \<Rightarrow> bool" where
  "isdigit c \<longleftrightarrow> (let n = of_char c :: nat in 48 \<le> n \<and> n \<le> 57)"

definition digits_val :: "string \<Rightarrow> int" where
  "digits_val = foldl (\<lambda>n c. 10 * n + (of_char c - 48)) 0"

text \<open>An optional sign: the factor, and what follows.\<close>

fun sign_of :: "string \<Rightarrow> int \<times> string" where
  "sign_of (c # s) = (if c = CHR ''-'' then (-1, s) else if c = CHR ''+'' then (1, s) else (1, c # s))"
| "sign_of [] = (1, [])"

text \<open>\<open>atoi\<close>; undefined when the number is not an \<open>int\<close>.\<close>

definition atoi :: "string \<Rightarrow> int option" where
  "atoi s =
     (let (sg, s) = sign_of (dropWhile isspace s); n = sg * digits_val (takeWhile isdigit s)
      in if - (2 ^ 31) \<le> n \<and> n < 2 ^ 31 then Some n else None)"

text \<open>
  \<open>inet_pton(AF_INET, ...)\<close>: four decimal numbers up to 255 without leading zeros, separated by
  dots; the four bytes in network order.
\<close>

fun split_dots :: "string \<Rightarrow> string list" where
  "split_dots [] = [[]]"
| "split_dots (c # s) =
     (if c = CHR ''.'' then [] # split_dots s
      else case split_dots s of [] \<Rightarrow> [[c]] | w # ws \<Rightarrow> (c # w) # ws)"

definition pton_octet :: "string \<Rightarrow> byte option" where
  "pton_octet s =
     (if s \<noteq> [] \<and> list_all isdigit s \<and> (length s = 1 \<or> hd s \<noteq> CHR ''0'') \<and> digits_val s \<le> 255
      then Some (word_of_int (digits_val s)) else None)"

definition inet_pton4 :: "string \<Rightarrow> byte list option" where
  "inet_pton4 s =
     (case map pton_octet (split_dots s) of
        [Some a, Some b, Some c, Some d] \<Rightarrow> Some [a, b, c, d]
      | _ \<Rightarrow> None)"

text \<open>
  \<open>%lx\<close> of \<open>sscanf\<close>: the number and the rest, \<open>Some None\<close> when the input does not match; undefined
  when it is wider than \<open>long\<close>.
\<close>

definition hex_digit :: "char \<Rightarrow> int option" where
  "hex_digit c =
     (let n = of_char c :: nat in
      if 48 \<le> n \<and> n \<le> 57 then Some (int n - 48)
      else if 65 \<le> n \<and> n \<le> 70 then Some (int n - 55)
      else if 97 \<le> n \<and> n \<le> 102 then Some (int n - 87)
      else None)"

definition is_hex :: "char \<Rightarrow> bool" where
  "is_hex c \<longleftrightarrow> hex_digit c \<noteq> None"

definition hex_val :: "string \<Rightarrow> int" where
  "hex_val = foldl (\<lambda>n c. 16 * n + (case hex_digit c of None \<Rightarrow> 0 | Some d \<Rightarrow> d)) 0"

definition drop_0x :: "string \<Rightarrow> string" where
  "drop_0x s = (if take 2 s = ''0x'' \<or> take 2 s = ''0X'' then drop 2 s else s)"

definition scan_hex :: "env \<Rightarrow> string \<Rightarrow> (int \<times> string) option option" where
  "scan_hex e s =
     (let (sg, s) = sign_of (dropWhile isspace s); s = drop_0x s; ds = takeWhile is_hex s
      in if ds = [] then Some None
         else if hex_val ds < 2 ^ long_bits e then Some (Some (sg * hex_val ds, dropWhile is_hex s))
         else None)"

section \<open>Detecting the addresses\<close>

partial_function (option) iface_find ::
  "(ptr \<Rightarrow> iface_t option) \<Rightarrow> string \<Rightarrow> ptr \<Rightarrow> ptr option" where
  "iface_find h name p =
     (if p = 0 then Some 0
      else case h p of
             None \<Rightarrow> None
           | Some i \<Rightarrow>
               (case strcmp_eq (if_name i) name of
                  None \<Rightarrow> None
                | Some same \<Rightarrow> if same then Some p else iface_find h name (if_next i)))"

definition iface_ip :: "string \<Rightarrow> state \<Rightarrow> u32 option" where
  "iface_ip name s =
     (case iface_find (iheap s) name (ifaces s) of
        None \<Rightarrow> None
      | Some p \<Rightarrow>
          if p = 0 then Some 0
          else (case iheap s p of
                  None \<Rightarrow> None
                | Some i \<Rightarrow>
                    if if_ipaddrcount i = 0 then Some 0
                    else (case if_ipaddr i of [] \<Rightarrow> None | a # _ \<Rightarrow> Some a)))"

definition default_lan_ip :: "state \<Rightarrow> u32 option" where
  "default_lan_ip s = iface_ip (lan s) s"

definition default_wan_ip :: "state \<Rightarrow> u32 option" where
  "default_wan_ip s = iface_ip (wan s) s"

text \<open>\<open>fgets\<close> with room for \<open>n\<close> characters: the line read, and what is left of the file.\<close>

fun fgets :: "nat \<Rightarrow> string \<Rightarrow> string \<times> string" where
  "fgets 0 s = ([], s)"
| "fgets (Suc n) [] = ([], [])"
| "fgets (Suc n) (c # s) =
     (if c = CHR 0x0A then ([c], s) else case fgets n s of (l, r) \<Rightarrow> (c # l, r))"

lemma fgets_shrinks: "length (snd (fgets n s)) \<le> length s"
  by (induction n s rule: fgets.induct) (auto split: prod.splits)

text \<open>
  A line of the routing table: the interface is skipped, the two numbers after it are the
  destination (\<open>mask\<close> in the code) and the gateway. \<open>Some None\<close> when it is not a default route.
\<close>

definition route_line :: "env \<Rightarrow> string \<Rightarrow> u32 option option" where
  "route_line e buf =
     (let c = dropWhile isspace (dropWhile (\<lambda>c. \<not> isspace c) (takeWhile (\<lambda>c. c \<noteq> NUL) buf))
      in case scan_hex e c of
           None \<Rightarrow> None
         | Some None \<Rightarrow> Some None
         | Some (Some (dest, c)) \<Rightarrow>
             (case scan_hex e c of
                None \<Rightarrow> None
              | Some None \<Rightarrow> Some None
              | Some (Some (addr, _)) \<Rightarrow>
                  Some (if dest = 0 then Some (word_of_int addr) else None)))"

lemma fgets_progress:
  assumes "f \<noteq> []" and "0 < n" and "fgets n f = (b, r)"
  shows "length r < length f"
proof -
  obtain c s where f: "f = c # s" using assms(1) by (cases f) auto
  obtain m where n: "n = Suc m" using assms(2) by (cases n) auto
  show ?thesis
    using fgets_shrinks [of m s] assms(3) unfolding f n
    by (cases "fgets m s") (auto split: if_splits)
qed

text \<open>The loop over the lines, read into 256 bytes each; the first is the heading.\<close>

function route_scan :: "env \<Rightarrow> nat \<Rightarrow> string \<Rightarrow> u32 option" where
  "route_scan e line f =
     (if f = [] then Some 0
      else case fgets 255 f of (buf, rest) \<Rightarrow>
        if line = 0 then route_scan e (line + 1) rest
        else (case route_line e buf of
                None \<Rightarrow> None
              | Some (Some gw) \<Rightarrow> Some gw
              | Some None \<Rightarrow> route_scan e (line + 1) rest))"
  by pat_completeness auto
termination
  by (relation "measure (\<lambda>(e, line, f). length f)") (auto intro: fgets_progress [where n = 255, OF _ _ sym])

declare route_scan.simps [simp del]

definition default_router_ip :: "env \<Rightarrow> state \<Rightarrow> u32 option" where
  "default_router_ip e s =
     (case e_route e (hist s) of None \<Rightarrow> Some 0 | Some f \<Rightarrow> route_scan e 0 f)"

section \<open>Defaults and the command line\<close>

definition ctx_defaults :: "env \<Rightarrow> unit M" where
  "ctx_defaults e =
     bindM (readM (\<lambda>s. sprintf_str PORTPROXY_DEFAULT_LAN_IFACE (lan s))) (\<lambda>x.
     thenM (modifyM (\<lambda>s. s\<lparr>lan := x\<rparr>))
     (bindM (readM (\<lambda>s. sprintf_str PORTPROXY_DEFAULT_WAN_IFACE (wan s))) (\<lambda>x.
     thenM (modifyM (\<lambda>s. s\<lparr>wan := x\<rparr>))
     (bindM (readM default_lan_ip) (\<lambda>x.
     thenM (modifyM (\<lambda>s. s\<lparr>lanIP := x\<rparr>))
     (bindM (readM default_wan_ip) (\<lambda>x.
     thenM (modifyM (\<lambda>s. s\<lparr>wanIP := x\<rparr>))
     (bindM (readM (default_router_ip e)) (\<lambda>x.
     modifyM (\<lambda>s. s
       \<lparr>aftrIPv4 := x,
        natpmp_udp_port := word_of_int PORTPROXY_NATPMP_UDP_PORT,
        upnp_udp_port := word_of_int PORTPROXY_UPNP_UDP_PORT,
        upnp_tcp_port1 := word_of_int PORTPROXY_UPNP_TCP_PORT1,
        upnp_tcp_port2 := word_of_int PORTPROXY_UPNP_TCP_PORT2,
        shared_udp_sock := 1,
        fwd_tcp_port1 := word_of_int PORTPROXY_UPNP_TCP_PORT1,
        fwd_tcp_port2 := word_of_int PORTPROXY_UPNP_TCP_PORT2,
        enable_nat_pmp := 0,
        enable_nat_pmp_ext := 1,
        enable_upnp_udp := 0,
        enable_upnp_tcp := 0,
        loglevel := 0,
        bind_ext_nat_pmp_to_natpmp_port := 0,
        timeout := PORTPROXY_DEFAULT_TIMEOUT,
        daemon := 0\<rparr>))))))))))"

text \<open>
  The options that take no parameter, other than \<open>-h\<close>; the options with an \<open>int\<close> parameter, by the
  field they set. The code tests the options one after the other; their names are all different, so
  the order does not matter. A port and the flag of the shared socket are \<open>unsigned\<close>, so the number is converted.
\<close>

definition flag_option :: "string \<Rightarrow> (state \<Rightarrow> state) option" where
  "flag_option a =
     (if strcaseeq a ''--persistent'' then Some (\<lambda>s. s\<lparr>persistent := 1\<rparr>)
      else if strcaseeq a ''-v'' then Some (\<lambda>s. s\<lparr>loglevel := loglevel s + 1\<rparr>)
      else if strcaseeq a ''-g'' then Some (\<lambda>s. s\<lparr>daemon := 1\<rparr>)
      else None)"

definition int_option :: "string \<Rightarrow> (int \<Rightarrow> state \<Rightarrow> state) option" where
  "int_option a =
     (if strcaseeq a ''--nat-pmp'' then Some (\<lambda>n s. s\<lparr>enable_nat_pmp := n\<rparr>)
      else if strcaseeq a ''--nat-pmp-ext'' then Some (\<lambda>n s. s\<lparr>enable_nat_pmp_ext := n\<rparr>)
      else if strcaseeq a ''--upnp-udp'' then Some (\<lambda>n s. s\<lparr>enable_upnp_udp := n\<rparr>)
      else if strcaseeq a ''--upnp-tcp'' then Some (\<lambda>n s. s\<lparr>enable_upnp_tcp := n\<rparr>)
      else if strcaseeq a ''--timeout'' then Some (\<lambda>n s. s\<lparr>timeout := n\<rparr>)
      else if strcaseeq a ''--nat-pmp-port'' then Some (\<lambda>n s. s\<lparr>natpmp_udp_port := word_of_int n\<rparr>)
      else if strcaseeq a ''--upnp-udp-port'' then Some (\<lambda>n s. s\<lparr>upnp_udp_port := word_of_int n\<rparr>)
      else if strcaseeq a ''--upnp-tcp-port1'' then Some (\<lambda>n s. s\<lparr>upnp_tcp_port1 := word_of_int n\<rparr>)
      else if strcaseeq a ''--upnp-tcp-port2'' then Some (\<lambda>n s. s\<lparr>upnp_tcp_port2 := word_of_int n\<rparr>)
      else if strcaseeq a ''--shared-udp-sock'' then Some (\<lambda>n s. s\<lparr>shared_udp_sock := word_of_int n\<rparr>)
      else None)"

text \<open>
  An IPv4 address that does not parse is not stored and not reported; an IPv6 one ends the parsing.
\<close>

definition store_addr4 :: "env \<Rightarrow> string \<Rightarrow> (u32 \<Rightarrow> state \<Rightarrow> state) \<Rightarrow> int M" where
  "store_addr4 e v put =
     (case inet_pton4 v of
        None \<Rightarrow> returnM 0
      | Some bs \<Rightarrow> bindM (readM (\<lambda>_. load32 (big_endian e) bs)) (\<lambda>a.
                    thenM (modifyM (put a)) (returnM 0)))"

definition store_addr6 :: "env \<Rightarrow> string \<Rightarrow> (byte list \<Rightarrow> state \<Rightarrow> state) \<Rightarrow> int M" where
  "store_addr6 e v put =
     (case e_pton6 e v of None \<Rightarrow> returnM (-1) | Some bs \<Rightarrow> thenM (modifyM (put bs)) (returnM 0))"

text \<open>The options with another parameter: the statement that takes it, 0 when parsing goes on.\<close>

definition addr_option :: "env \<Rightarrow> string \<Rightarrow> (string \<Rightarrow> int M) option" where
  "addr_option e a =
     (if strcaseeq a ''--lan-iface'' then Some (\<lambda>v.
        thenM (modifyM (\<lambda>s. s\<lparr>lan := strncpy v MAX_IFNAME_LENGTH\<rparr>))
        (bindM (readM default_lan_ip) (\<lambda>x. thenM (modifyM (\<lambda>s. s\<lparr>lanIP := x\<rparr>)) (returnM 0))))
      else if strcaseeq a ''--wan-iface'' then Some (\<lambda>v.
        thenM (modifyM (\<lambda>s. s\<lparr>wan := strncpy v MAX_IFNAME_LENGTH\<rparr>))
        (bindM (readM default_wan_ip) (\<lambda>x. thenM (modifyM (\<lambda>s. s\<lparr>wanIP := x\<rparr>)) (returnM 0))))
      else if strcaseeq a ''-l'' then Some (\<lambda>v. store_addr4 e v (\<lambda>x s. s\<lparr>lanIP := x\<rparr>))
      else if strcaseeq a ''-a'' then Some (\<lambda>v. store_addr4 e v (\<lambda>x s. s\<lparr>aftrIPv4 := x\<rparr>))
      else if strcaseeq a ''-w'' then Some (\<lambda>v. store_addr4 e v (\<lambda>x s. s\<lparr>wanIP := x\<rparr>))
      else if strcaseeq a ''-b'' then Some (\<lambda>v. store_addr6 e v (\<lambda>x s. s\<lparr>wanIPv6 := x\<rparr>))
      else if strcaseeq a ''-s'' then Some (\<lambda>v. store_addr6 e v (\<lambda>x s. s\<lparr>aftrIPv6 := x\<rparr>))
      else None)"

definition value_option :: "env \<Rightarrow> string \<Rightarrow> (string \<Rightarrow> int M) option" where
  "value_option e a =
     (case int_option a of
        Some put \<Rightarrow> Some (\<lambda>v. bindM (readM (\<lambda>_. atoi v)) (\<lambda>n. thenM (modifyM (put n)) (returnM 0)))
      | None \<Rightarrow> addr_option e a)"

text \<open>The loop over the arguments.\<close>

fun args_loop :: "env \<Rightarrow> string list \<Rightarrow> int M" where
  "args_loop e [] = returnM 0"
| "args_loop e (a # args) =
     (if strcaseeq a ''-h'' then exitM 0
      else case flag_option a of
             Some f \<Rightarrow> thenM (modifyM f) (args_loop e args)
           | None \<Rightarrow>
               (case value_option e a of
                  None \<Rightarrow> returnM (-1)
                | Some act \<Rightarrow>
                    (case args of
                       [] \<Rightarrow> returnM (-1)
                     | v # args \<Rightarrow>
                         bindM (act v) (\<lambda>r. if r < 0 then returnM r else args_loop e args))))"

text \<open>Not called by the program.\<close>

definition help_exit :: "unit M" where
  "help_exit = exitM 0"

text \<open>\<open>args\<close> are the arguments after the program's name.\<close>

definition cmd_line_parse :: "env \<Rightarrow> string list \<Rightarrow> int M" where
  "cmd_line_parse e args =
     thenM (ctx_defaults e)
     (if args = [] then exitM 0
      else bindM (args_loop e args) (\<lambda>r.
        if r < 0 then returnM r
        else thenM (modifyM (\<lambda>s. LogLevel (loglevel s) s))
          (thenM (readM (parse_report (big_endian e)))
          (bindM (getM daemon) (\<lambda>d.
           thenM (if d \<noteq> 0 then thenM (sys e Sys_daemon) (returnM ()) else returnM ())
           (returnM 0))))))"

end
