(* ===== verification/Reports.thy ===== *)
theory Reports
  imports Printing Tables
begin

text \<open>
  What \<open>context_print\<close> prints: the lines of the abstract lists of interfaces, sockets and mappings and
  of the configuration, as far as the log level goes.
\<close>

section \<open>Outputs\<close>

text \<open>The lines of a report with their levels, and the output at a log level.\<close>

type_synonym report = "(int \<times> string) list"

definition printed :: "int \<Rightarrow> report \<Rightarrow> string" where
  "printed k ls = concat (map (\<lambda>(_, l). l @ [LF]) (filter (\<lambda>(v, _). v \<le> k) ls))"

lemma printed_append: "printed k (xs @ ys) = printed k xs @ printed k ys"
  by (simp add: printed_def)

lemma printed_Nil [simp]: "printed k [] = []"
  by (simp add: printed_def)

lemma printed_concat: "concat (map (\<lambda>x. printed k (f x)) xs) = printed k (concat (map f xs))"
  by (induction xs) (simp_all add: printed_append)

lemma Log_line: "Log s v (Some (l @ [LF])) = Some (printed (log_level s) [(v, l)])"
  by (simp add: Log_def printed_def)

lemma printed_below: "\<forall>(v, _) \<in> set ls. k < v \<Longrightarrow> printed k ls = []"
  by (induction ls) (auto simp: printed_def)

lemma outs_Some: "outs (map (\<lambda>x. Some (f x)) xs) = Some (concat (map f xs))"
  by (induction xs) simp_all

lemma outs_None: "None \<in> set xs \<Longrightarrow> outs xs = None"
proof (induction xs)
  case (Cons x xs)
  then show ?case by (cases x) auto
qed simp

lemma print_list_chain:
  assumes "chain_at nxt h p xs" and "\<forall>(a, n) \<in> set xs. f n = Some (g n)"
  shows "print_list nxt f h p = Some (concat (map (g \<circ> snd) xs))"
  using assms by (induction nxt h p xs rule: chain_at.induct) (auto simp: print_list.simps)

section \<open>The lines\<close>

text \<open>An interface as \<open>if_list_get\<close> leaves it.\<close>

definition iface_ok :: "iface_t \<Rightarrow> bool" where
  "iface_ok i \<longleftrightarrow> NUL \<notin> set (if_name i) \<and> if_ipaddrcount i = int (length (if_ipaddr i))"

definition iface_lines :: "bool \<Rightarrow> iface_t \<Rightarrow> report" where
  "iface_lines be i = (1, iface_text i) # map (\<lambda>a. (2, ''    IPv4='' @ inet_ntop4 be a)) (if_ipaddr i)"

text \<open>The report of a context with these interfaces, sockets and mappings.\<close>

definition context_lines ::
  "bool \<Rightarrow> iface_t list \<Rightarrow> socket_t list \<Rightarrow> mapping_t list \<Rightarrow> state \<Rightarrow> report" where
  "context_lines be is ns ms s =
     (2, ''Detected interfaces:'') # concat (map (iface_lines be) is) @
     [(2, ''Configuration:''),
      (2, ''  lan='' @ takeWhile (\<lambda>c. c \<noteq> NUL) (lan s)),
      (2, ''  wan='' @ takeWhile (\<lambda>c. c \<noteq> NUL) (wan s)),
      (2, ''  lanIP='' @ inet_ntop4 be (lanIP s)),
      (2, ''  wanIP='' @ inet_ntop4 be (wanIP s)),
      (2, ''  aftrIPv4='' @ inet_ntop4 be (aftrIPv4 s))] @
     map (\<lambda>n. (3, socket_text be n)) ns @
     [(2, ''  natpmp_udp_port='' @ show_int (sint (natpmp_udp_port s))),
      (2, ''  upnp_udp_port='' @ show_int (sint (upnp_udp_port s))),
      (2, ''  upnp_tcp_port1='' @ show_int (sint (upnp_tcp_port1 s))),
      (2, ''  upnp_tcp_port2='' @ show_int (sint (upnp_tcp_port2 s))),
      (2, ''  fwd_tcp_port1='' @ show_int (sint (fwd_tcp_port1 s))),
      (2, ''  fwd_tcp_port2='' @ show_int (sint (fwd_tcp_port2 s))),
      (2, ''  shared_udp_sock='' @ yes_no (uint (shared_udp_sock s))),
      (2, ''  enable_natpmp='' @ yes_no (enable_nat_pmp s)),
      (2, ''  enable_upnp_tcp='' @ yes_no (enable_upnp_tcp s)),
      (2, ''  enable_upnp_udp='' @ yes_no (enable_upnp_udp s))] @
     map (\<lambda>m. (2, mapping_text be m)) ms"

lemma context_lines_levels: "\<forall>(v, _) \<in> set (context_lines be is ns ms s). 0 < v"
  by (auto simp: context_lines_def iface_lines_def)

section \<open>The functions that print\<close>

lemma log_text: "Log s v (Some (what @ l @ [LF])) = Some (printed (log_level s) [(v, what @ l)])"
  using Log_line [of s v "what @ l"] by simp

text \<open>Outputs that are printed reports, one after the other.\<close>

lemma outs_printed:
  assumes "list_all2 (\<lambda>x ls. x = Some (printed k ls)) xs lss"
  shows "outs xs = Some (printed k (concat lss))"
  using assms by (induction xs lss rule: list_all2_induct) (simp_all add: printed_append)

lemma outs_addrs:
  "list_all2 (\<lambda>x ls. x = Some (printed (log_level s) ls))
     (map (\<lambda>k. if k < length as then log_line s 2 what (f (as ! k)) else None) [0..<length as])
     (map (\<lambda>a. [(2, what @ f a)]) as)"
  by (simp add: list_all2_conv_all_nth log_text)

lemma iface_print_run:
  assumes "iface_ok i"
  shows "iface_print be s i = Some (printed (log_level s) (iface_lines be i))"
proof -
  have n: "nat (if_ipaddrcount i) = length (if_ipaddr i)" using assms by (simp add: iface_ok_def)
  have l: "log_line s 1 (iface_text i) [] = Some (printed (log_level s) [(1, iface_text i)])"
    using log_text [of s 1 "iface_text i" "[]"] by simp
  have "iface_print be s i = Some (printed (log_level s) (concat ([(1, iface_text i)] #
      map (\<lambda>a. [(2, ''    IPv4='' @ inet_ntop4 be a)]) (if_ipaddr i))))"
    unfolding iface_print_def n by (intro outs_printed list_all2_Cons [THEN iffD2] conjI l outs_addrs)
  also have "concat ([(1, iface_text i)] # map (\<lambda>a. [(2, ''    IPv4='' @ inet_ntop4 be a)]) (if_ipaddr i)) =
      iface_lines be i"
    by (simp add: iface_lines_def)
  finally show ?thesis .
qed

lemma ifaces_print_run:
  assumes "chain_at if_next (iheap s) p xs" and "\<forall>(a, i) \<in> set xs. iface_ok i"
  shows "ifaces_print be s p =
    Some (printed (log_level s) (concat (map (iface_lines be) (map snd xs))))"
proof -
  have "\<forall>(a, i) \<in> set xs. iface_print be s i = Some (printed (log_level s) (iface_lines be i))"
    using assms(2) by (auto simp: iface_print_run)
  from print_list_chain [OF assms(1) this] show ?thesis
    by (simp add: ifaces_print_def o_def printed_concat)
qed

lemma printed_map: "concat (map (\<lambda>x. printed k [(v, f x)]) xs) = printed k (map (\<lambda>x. (v, f x)) xs)"
  using printed_concat [of k "\<lambda>x. [(v, f x)]" xs] by simp

lemma lists_print_run:
  assumes "tables s ms ss"
  shows "sockets_print be s (sockets s) =
      Some (printed (log_level s) (map (\<lambda>n. (3, socket_text be n)) (map snd ss)))"
    and "print_list m_next (mapping_print be s) (mheap s) (mappings s) =
      Some (printed (log_level s) (map (\<lambda>m. (2, mapping_text be m)) (map snd ms)))"
proof -
  have c: "chain_at s_next (sheap s) (sockets s) ss" "chain_at m_next (mheap s) (mappings s) ms"
    using assms by (simp_all add: tables_def)
  show "sockets_print be s (sockets s) =
      Some (printed (log_level s) (map (\<lambda>n. (3, socket_text be n)) (map snd ss)))"
    using print_list_chain [OF c(1), of "\<lambda>n. log_line s 3 (socket_text be n) []"
        "\<lambda>n. printed (log_level s) [(3, socket_text be n)]"]
    by (simp add: sockets_print_def Log_line o_def printed_map)
  show "print_list m_next (mapping_print be s) (mheap s) (mappings s) =
      Some (printed (log_level s) (map (\<lambda>m. (2, mapping_text be m)) (map snd ms)))"
    using print_list_chain [OF c(2), of "mapping_print be s"
        "\<lambda>m. printed (log_level s) [(2, mapping_text be m)]"]
    by (simp add: mapping_print_def Log_line o_def printed_map)
qed

text \<open>The names are read when level 2 is printed.\<close>

definition names_printable :: "state \<Rightarrow> bool" where
  "names_printable s \<longleftrightarrow> log_level s < 2 \<or> c_str (lan s) \<noteq> None \<and> c_str (wan s) \<noteq> None"

lemma log_name_run:
  "log_name s what arr =
     (if log_level s < 2 \<or> c_str arr \<noteq> None
      then Some (printed (log_level s) [(2, what @ takeWhile (\<lambda>c. c \<noteq> NUL) arr)]) else None)"
  by (auto simp: log_name_def Log_def printed_def c_str_def)

lemma context_print_run:
  assumes "tables s ms ss" and "chain_at if_next (iheap s) (ifaces s) xs"
    and "\<forall>(a, i) \<in> set xs. iface_ok i"
  shows "context_print be s =
    (if names_printable s
     then Some (printed (log_level s) (context_lines be (map snd xs) (map snd ss) (map snd ms) s))
     else None)"
proof (cases "names_printable s")
  case True
  have log_name: "log_name s what arr =
      Some (printed (log_level s) [(2, what @ takeWhile (\<lambda>c. c \<noteq> NUL) arr)])"
    if "arr = lan s \<or> arr = wan s" for what arr
    using True that by (auto simp: names_printable_def log_name_run)
  have "context_print be s = Some (printed (log_level s) (concat
     [[(2, ''Detected interfaces:'' @ [])], concat (map (iface_lines be) (map snd xs)),
      [(2, ''Configuration:'' @ [])],
      [(2, ''  lan='' @ takeWhile (\<lambda>c. c \<noteq> NUL) (lan s))],
      [(2, ''  wan='' @ takeWhile (\<lambda>c. c \<noteq> NUL) (wan s))],
      [(2, ''  lanIP='' @ inet_ntop4 be (lanIP s))],
      [(2, ''  wanIP='' @ inet_ntop4 be (wanIP s))],
      [(2, ''  aftrIPv4='' @ inet_ntop4 be (aftrIPv4 s))],
      map (\<lambda>n. (3, socket_text be n)) (map snd ss),
      [(2, ''  natpmp_udp_port='' @ show_int (sint (natpmp_udp_port s)))],
      [(2, ''  upnp_udp_port='' @ show_int (sint (upnp_udp_port s)))],
      [(2, ''  upnp_tcp_port1='' @ show_int (sint (upnp_tcp_port1 s)))],
      [(2, ''  upnp_tcp_port2='' @ show_int (sint (upnp_tcp_port2 s)))],
      [(2, ''  fwd_tcp_port1='' @ show_int (sint (fwd_tcp_port1 s)))],
      [(2, ''  fwd_tcp_port2='' @ show_int (sint (fwd_tcp_port2 s)))],
      [(2, ''  shared_udp_sock='' @ yes_no (uint (shared_udp_sock s)))],
      [(2, ''  enable_natpmp='' @ yes_no (enable_nat_pmp s))],
      [(2, ''  enable_upnp_tcp='' @ yes_no (enable_upnp_tcp s))],
      [(2, ''  enable_upnp_udp='' @ yes_no (enable_upnp_udp s))],
      map (\<lambda>m. (2, mapping_text be m)) (map snd ms)]))"
    unfolding context_print_def
    by (intro outs_printed list.rel_intros log_text ifaces_print_run [OF assms(2,3)]
        lists_print_run [OF assms(1)] log_name disjI1 [OF refl] disjI2 [OF refl])
  then show ?thesis
    using True by (simp only: context_lines_def concat.simps append_Cons append_Nil append_Nil2 if_True)
next
  case False
  then have "log_name s ''  lan='' (lan s) = None \<or> log_name s ''  wan='' (wan s) = None"
    by (auto simp: names_printable_def log_name_run)
  then show ?thesis
    using False unfolding context_print_def by (intro trans [OF outs_None]) auto
qed

text \<open>The lines at the end of the parsing.\<close>

lemma parse_report_run:
  "parse_report be s = map_option (\<lambda>r. printed (log_level s)
     (map (Pair 1) [PORTPROXY_COPYRIGHT1, PORTPROXY_COPYRIGHT2, PORTPROXY_COPYRIGHT3, PORTPROXY_COPYRIGHT4]) @ r)
     (context_print be s)"
proof -
  have line: "log_line s 1 what [] = Some (printed (log_level s) [(1, what)])" for what
    using log_text [of s 1 what "[]"] by simp
  show ?thesis
    unfolding parse_report_def line
    by (cases "context_print be s") (simp_all add: printed_def)
qed

text \<open>Nothing is printed at log level 0.\<close>

lemma outs_quiet:
  "outs xs = Some r \<Longrightarrow> \<forall>x \<in> set xs. \<forall>a. x = Some a \<longrightarrow> a = [] \<Longrightarrow> r = []"
  by (induction xs arbitrary: r) (auto split: bind_splits)

lemma print_list_quiet:
  assumes "print_list nxt f h p = Some r" and "\<forall>n a. f n = Some a \<longrightarrow> a = []"
  shows "r = []"
proof -
  have "(\<forall>n a. f n = Some a \<longrightarrow> a = []) \<longrightarrow> r = []"
  proof (rule print_list.raw_induct [of "\<lambda>nxt f h p r. (\<forall>n a. f n = Some a \<longrightarrow> a = []) \<longrightarrow> r = []",
        OF _ assms(1)])
    fix loop nxt f h p r
    assume "\<And>nxt f h p r. loop nxt f h p = Some r \<Longrightarrow> (\<forall>n a. f n = Some a \<longrightarrow> a = []) \<longrightarrow> r = []"
      and "(if p = 0 then Some [] else Option.bind (h p) (\<lambda>n. Option.bind (f n) (\<lambda>a.
           Option.bind (loop nxt f h (nxt n)) (\<lambda>b. Some (a @ b))))) = Some r"
    then show "(\<forall>n a. f n = Some a \<longrightarrow> a = []) \<longrightarrow> r = []"
      by (fastforce split: bind_splits if_splits)
  qed
  then show ?thesis using assms(2) by blast
qed

lemma report_quiet:
  assumes "log_level s \<le> 0" and "parse_report be s \<noteq> None"
  shows "parse_report be s = Some []"
proof -
  have log: "Log s v x = Some []" if "1 \<le> v" for v x using that assms(1) by (simp add: Log_def)
  have ifc: "\<forall>i a. iface_print be s i = Some a \<longrightarrow> a = []"
    unfolding iface_print_def by (auto simp: log dest!: outs_quiet split: if_splits)
  have "\<forall>a. ifaces_print be s p = Some a \<longrightarrow> a = []" "\<forall>a. sockets_print be s p = Some a \<longrightarrow> a = []"
    "\<forall>a. print_list m_next (mapping_print be s) (mheap s) p = Some a \<longrightarrow> a = []" for p
    unfolding ifaces_print_def sockets_print_def
    by (auto dest!: print_list_quiet simp: log mapping_print_def ifc)
  then have "\<forall>a. context_print be s = Some a \<longrightarrow> a = []"
    unfolding context_print_def log_name_def by (auto simp: log split: bind_splits)
  then show ?thesis
    using assms(2) unfolding parse_report_def by (auto simp: log split: bind_splits)
qed

lemma parse_report_hist [simp]: "parse_report be (s\<lparr>hist := h\<rparr>) = parse_report be s"
proof -
  have log: "Log (s\<lparr>hist := h\<rparr>) v x = Log s v x" for v x by (simp add: Log_def)
  have "iface_print be (s\<lparr>hist := h\<rparr>) = iface_print be s"
    "mapping_print be (s\<lparr>hist := h\<rparr>) = mapping_print be s"
    unfolding iface_print_def mapping_print_def log by simp_all
  then show ?thesis
    by (simp add: parse_report_def context_print_def log_name_def ifaces_print_def sockets_print_def log)
qed

lemma parse_report_defined:
  assumes "tables s ms ss" and "chain_at if_next (iheap s) (ifaces s) xs"
    and "\<forall>(a, i) \<in> set xs. iface_ok i" and "names_printable s"
  shows "parse_report be s \<noteq> None"
  using context_print_run [OF assms(1-3)] assms(4) by (simp add: parse_report_run)

lemma parse_report_quiet: "log_level s \<le> 0 \<Longrightarrow> tables s ms ss \<Longrightarrow>
    chain_at if_next (iheap s) (ifaces s) xs \<Longrightarrow> \<forall>(a, i) \<in> set xs. iface_ok i \<Longrightarrow>
    parse_report be s = Some []"
  using context_lines_levels [of be "map snd xs" "map snd ss" "map snd ms" s]
  by (auto simp: parse_report_run context_print_run names_printable_def intro!: printed_below)

end
