(* ===== verification/Options.thy ===== *)
theory Options
  imports Config Reports
begin

text \<open>
  What the configuration of \<^verbatim>\<open>src/portproxy.c\<close> computes: numbers and addresses of the command line
  and how they are written, the options, the routing table, interfaces by name, and what the parsing
  leaves alone.
\<close>

section \<open>Decimal numbers\<close>

lemma digit_char:
  assumes "n < 10"
  shows "isdigit (char_of (48 + n))" and "(of_char (char_of (48 + n) :: char) :: int) = 48 + int n"
proof -
  have c: "(of_char (char_of (48 + n) :: char) :: nat) = 48 + n" using assms by simp
  then show "isdigit (char_of (48 + n))" using assms by (simp add: isdigit_def Let_def)
  then show "(of_char (char_of (48 + n) :: char) :: int) = 48 + int n"
    using of_nat_of_char [of "char_of (48 + n)", where 'a = int] by (simp only: c of_nat_add of_nat_numeral)
qed

lemma digits_val_snoc: "digits_val (s @ [c]) = 10 * digits_val s + (of_char c - 48)"
  by (simp add: digits_val_def)

lemma show_nat_digits: "list_all isdigit (show_nat n)" and show_nat_val: "digits_val (show_nat n) = int n"
  and show_nat_nonempty: "show_nat n \<noteq> []"
proof (induction n rule: show_nat.induct)
  case (1 n)
  {
    case 1
    show ?case using "1.IH" digit_char(1)
      by (subst show_nat.simps) simp
  next
    case 2
    show ?case
    proof (cases "n < 10")
      case True
      then show ?thesis using digit_char(2) [of n] by (subst show_nat.simps) (simp add: digits_val_def)
    next
      case False
      then have "digits_val (show_nat n) = 10 * int (n div 10) + int (n mod 10)"
        using "1.IH" digit_char(2) [of "n mod 10"]
        by (subst show_nat.simps) (simp add: digits_val_snoc)
      then show ?thesis by presburger
    qed
  next
    case 3
    show ?case by (subst show_nat.simps) simp
  }
qed

lemma show_nat_head: "0 < n \<Longrightarrow> hd (show_nat n) \<noteq> CHR ''0''"
proof (induction n rule: show_nat.induct)
  case (1 n)
  show ?case
  proof (cases "n < 10")
    case True
    then have "(of_char (hd (show_nat n)) :: nat) = 48 + n" by (subst show_nat.simps) simp
    then show ?thesis using 1 by auto
  next
    case False
    then show ?thesis using 1 show_nat_nonempty by (subst show_nat.simps) simp
  qed
qed

lemma show_nat_length: "n < 10 \<Longrightarrow> length (show_nat n) = 1"
  by (subst show_nat.simps) simp

lemma show_nat_short: "n < 1000 \<Longrightarrow> length (show_nat n) \<le> 3"
  using show_nat.simps [of n] show_nat.simps [of "n div 10"] show_nat.simps [of "n div 10 div 10"]
  by auto

text \<open>Digits are neither spaces, signs nor dots.\<close>

lemma isdigit_not: "isdigit c \<Longrightarrow> \<not> isspace c \<and> c \<noteq> CHR ''-'' \<and> c \<noteq> CHR ''+'' \<and> c \<noteq> CHR ''.''"
  by (auto simp: isdigit_def isspace_def Let_def)

lemma atoi_digits:
  assumes "list_all isdigit ds" and "ds \<noteq> []"
  shows "sign_of (dropWhile isspace ds) = (1, ds)" and "takeWhile isdigit ds = ds"
proof -
  obtain c s where ds: "ds = c # s" using assms(2) by (cases ds) auto
  then show "sign_of (dropWhile isspace ds) = (1, ds)"
    using assms(1) isdigit_not [of c] by simp
  show "takeWhile isdigit ds = ds"
    using assms(1) by (simp add: takeWhile_eq_all_conv list_all_iff)
qed

lemmas show_nat_atoi = atoi_digits [OF show_nat_digits show_nat_nonempty]

lemma atoi_show_int:
  assumes "- (2 ^ 31) \<le> n" and "n < 2 ^ 31"
  shows "atoi (show_int n) = Some n"
proof (cases "n < 0")
  case True
  have m: "\<not> isspace CHR ''-''" by (simp add: isspace_def)
  show ?thesis
    using True assms m by (simp add: atoi_def show_int_def show_nat_val show_nat_atoi Let_def)
next
  case False
  show ?thesis
    using False assms by (simp add: atoi_def show_int_def show_nat_val show_nat_atoi Let_def)
qed

section \<open>IPv4 addresses\<close>

lemma split_dots_word: "CHR ''.'' \<notin> set w \<Longrightarrow> split_dots w = [w]"
  by (induction w) auto

lemma split_dots_append: "CHR ''.'' \<notin> set w \<Longrightarrow> split_dots (w @ CHR ''.'' # s) = w # split_dots s"
  by (induction w) auto

lemma show_nat_no_dot: "CHR ''.'' \<notin> set (show_nat n)"
  using show_nat_digits [of n] isdigit_not by (auto simp: list_all_iff)

lemma pton_octet_show: "pton_octet (show_nat (unat b)) = Some b"
proof -
  have b: "uint b \<le> 255" using uint_lt2p [of b] by simp
  have "length (show_nat (unat b)) = 1 \<or> hd (show_nat (unat b)) \<noteq> CHR ''0''"
    using show_nat_head [of "unat b"] show_nat_length [of "unat b"] by (cases "unat b = 0") auto
  then show ?thesis
    using show_nat_digits show_nat_nonempty b by (simp add: pton_octet_def show_nat_val)
qed

lemma inet_pton4_show: "inet_pton4 (show_addr [a, b, c, d]) = Some [a, b, c, d]"
  by (simp add: inet_pton4_def split_dots_append [OF show_nat_no_dot] split_dots_word [OF show_nat_no_dot]
      pton_octet_show)

lemma length_show_addr: "length (show_addr [a, b, c, d]) \<le> 15"
proof -
  have "length (show_nat (unat x)) \<le> 3" for x :: byte
  proof (rule show_nat_short)
    have "unat x < 2 ^ LENGTH(8)" by (rule unsigned_less)
    then show "unat x < 1000" by simp
  qed
  from this [of a] this [of b] this [of c] this [of d] show ?thesis by simp
qed

lemma length_show_mac: "length (show_mac bs) = (if bs = [] then 0 else 3 * length bs - 1)"
  by (induction bs rule: show_mac.induct) auto

text \<open>The bytes of a loaded object are those that were read.\<close>

lemma byte_high_bits: "\<not> bit (b :: byte) (8 + n)" "\<not> bit b (16 + n)" "\<not> bit b (24 + n)"
  using bit_imp_le_length [of b] by fastforce+

lemma mem32_load32: "load32 be [a, b, c, d] = Some w \<Longrightarrow> mem32 be w = [a, b, c, d]"
  by (cases be) (auto simp: mem32_def Let_def bit_simps byte_high_bits intro!: bit_word_eqI)

section \<open>The options\<close>

lemma lower_names:
  "map to_lower ''-h'' = ''-h''" "map to_lower ''-v'' = ''-v''" "map to_lower ''-g'' = ''-g''"
  "map to_lower ''--persistent'' = ''--persistent''" "map to_lower ''--nat-pmp'' = ''--nat-pmp''"
  "map to_lower ''--nat-pmp-ext'' = ''--nat-pmp-ext''" "map to_lower ''--upnp-udp'' = ''--upnp-udp''"
  "map to_lower ''--upnp-tcp'' = ''--upnp-tcp''" "map to_lower ''--timeout'' = ''--timeout''"
  "map to_lower ''--nat-pmp-port'' = ''--nat-pmp-port''"
  "map to_lower ''--upnp-udp-port'' = ''--upnp-udp-port''"
  "map to_lower ''--upnp-tcp-port1'' = ''--upnp-tcp-port1''"
  "map to_lower ''--upnp-tcp-port2'' = ''--upnp-tcp-port2''"
  "map to_lower ''--shared-udp-sock'' = ''--shared-udp-sock''"
  "map to_lower ''--lan-iface'' = ''--lan-iface''" "map to_lower ''--wan-iface'' = ''--wan-iface''"
  "map to_lower ''-l'' = ''-l''" "map to_lower ''-a'' = ''-a''" "map to_lower ''-w'' = ''-w''"
  "map to_lower ''-b'' = ''-b''" "map to_lower ''-s'' = ''-s''"
  by code_simp+

lemma int_option_other:
  assumes "int_option a = Some put"
  shows "\<not> strcaseeq a ''-h''" and "flag_option a = None"
  using assms unfolding int_option_def flag_option_def strcaseeq_def lower_names
  by (auto split: if_splits)

lemma addr_option_other:
  assumes "addr_option e a = Some act"
  shows "\<not> strcaseeq a ''-h''" and "flag_option a = None" and "int_option a = None"
  using assms unfolding addr_option_def int_option_def flag_option_def strcaseeq_def lower_names
  by (auto split: if_splits)

lemma args_int_option:
  assumes "int_option a = Some put" and "atoi v = Some n"
  shows "args_loop e (a # v # args) s = args_loop e args (put n s)"
  using int_option_other [OF assms(1)] assms by (simp add: value_option_def run_simps)

lemma args_addr_option:
  assumes "addr_option e a = Some act"
  shows "args_loop e (a # v # args) = bindM (act v) (\<lambda>r. if r < 0 then returnM r else args_loop e args)"
  using addr_option_other [OF assms] assms by (simp add: value_option_def)

lemma addr_option_names:
  "addr_option e ''-l'' = Some (\<lambda>v. store_addr4 e v (\<lambda>x s. s\<lparr>lanIP := x\<rparr>))"
  "addr_option e ''-a'' = Some (\<lambda>v. store_addr4 e v (\<lambda>x s. s\<lparr>aftrIPv4 := x\<rparr>))"
  "addr_option e ''-w'' = Some (\<lambda>v. store_addr4 e v (\<lambda>x s. s\<lparr>wanIP := x\<rparr>))"
  "addr_option e ''-b'' = Some (\<lambda>v. store_addr6 e v (\<lambda>x s. s\<lparr>wanIPv6 := x\<rparr>))"
  "addr_option e ''-s'' = Some (\<lambda>v. store_addr6 e v (\<lambda>x s. s\<lparr>aftrIPv6 := x\<rparr>))"
  unfolding addr_option_def strcaseeq_def lower_names by simp_all

lemma addr_option_ifaces:
  "addr_option e ''--lan-iface'' = Some (\<lambda>v.
     thenM (modifyM (\<lambda>s. s\<lparr>lan := strncpy v MAX_IFNAME_LENGTH\<rparr>))
     (bindM (readM default_lan_ip) (\<lambda>x. thenM (modifyM (\<lambda>s. s\<lparr>lanIP := x\<rparr>)) (returnM 0))))"
  "addr_option e ''--wan-iface'' = Some (\<lambda>v.
     thenM (modifyM (\<lambda>s. s\<lparr>wan := strncpy v MAX_IFNAME_LENGTH\<rparr>))
     (bindM (readM default_wan_ip) (\<lambda>x. thenM (modifyM (\<lambda>s. s\<lparr>wanIP := x\<rparr>)) (returnM 0))))"
  unfolding addr_option_def strcaseeq_def lower_names by simp_all

lemma store_addr4_show:
  "\<exists>x. mem32 (big_endian e) x = [a, b, c, d] \<and>
     store_addr4 e (show_addr [a, b, c, d]) put s = Some (Ret 0, put x s)"
proof -
  obtain x where x: "load32 (big_endian e) [a, b, c, d] = Some x" by simp
  then show ?thesis
    using mem32_load32 [OF x] by (intro exI [of _ x]) (simp add: store_addr4_def inet_pton4_show run_simps
        del: show_addr.simps)
qed

section \<open>The routing table\<close>

lemma fgets_line: "LF \<notin> set l \<Longrightarrow> length l < n \<Longrightarrow> fgets n (l @ LF # r) = (l @ [LF], r)"
proof (induction l arbitrary: n)
  case Nil
  then show ?case by (cases n) auto
next
  case (Cons c l)
  then show ?case by (cases n) auto
qed

definition text_of :: "string list \<Rightarrow> string" where
  "text_of ls = concat (map (\<lambda>l. l @ [LF]) ls)"

definition text_line :: "string \<Rightarrow> bool" where
  "text_line l \<longleftrightarrow> LF \<notin> set l \<and> length l < 255"

lemma route_scan_text:
  assumes "\<forall>l \<in> set ls. text_line l \<and> route_line e (l @ [LF]) \<noteq> None" and "0 < k"
  shows "route_scan e k (text_of ls) =
    Some (case List.map_filter (\<lambda>l. the (route_line e (l @ [LF]))) ls of [] \<Rightarrow> 0 | g # _ \<Rightarrow> g)"
  using assms
proof (induction ls arbitrary: k)
  case Nil
  then show ?case by (subst route_scan.simps) (simp add: text_of_def List.map_filter_def)
next
  case (Cons l ls)
  have f: "fgets 255 (text_of (l # ls)) = (l @ [LF], text_of ls)"
    using Cons.prems fgets_line [of l 255 "text_of ls"] by (simp add: text_of_def text_line_def)
  have ne: "text_of (l # ls) \<noteq> []" by (simp add: text_of_def)
  obtain r where r: "route_line e (l @ [LF]) = Some r" using Cons.prems by auto
  show ?case
    using Cons r by (subst route_scan.simps) (cases r; simp add: f ne List.map_filter_simps)
qed

section \<open>Interfaces by name\<close>

lemma strcmp_eq_c_str: "c_str arr = Some n \<Longrightarrow> NUL \<notin> set s \<Longrightarrow> strcmp_eq s arr = Some (s = n)"
proof (induction s arr arbitrary: n rule: strcmp_eq.induct)
  case (1 s)
  then show ?case by (simp add: c_str_def)
next
  case (2 c arr)
  then show ?case by (auto simp: c_str_def split: if_splits)
next
  case (3 a s c arr)
  show ?case
  proof (cases "a = c")
    case True
    then have "c_str arr = Some (tl n)" "n \<noteq> []" "hd n = c"
      using 3(2,3) by (auto simp: c_str_def split: if_splits)
    then show ?thesis using 3 True by (cases n) auto
  next
    case False
    then show ?thesis using 3 by (auto simp: c_str_def split: if_splits)
  qed
qed

text \<open>The address \<open>iface_ip\<close> should find.\<close>

definition addr_of_name :: "string \<Rightarrow> (ptr \<times> iface_t) list \<Rightarrow> u32" where
  "addr_of_name name xs =
     (case find (\<lambda>i. if_name i = name) (map snd xs) of
        None \<Rightarrow> 0 | Some i \<Rightarrow> if if_ipaddr i = [] then 0 else hd (if_ipaddr i))"

lemma iface_find_chain:
  assumes "chain_at if_next h p xs" and "\<forall>(a, i) \<in> set xs. iface_ok i" and "c_str arr = Some n"
  shows "iface_find h arr p = Some (first_addr (\<lambda>i. if_name i = n) xs)"
  using assms(1,2)
proof (induction xs arbitrary: p)
  case Nil
  then show ?case by (simp add: iface_find.simps)
next
  case (Cons x xs)
  obtain a i where x: "x = (a, i)" by (cases x)
  have "strcmp_eq (if_name i) arr = Some (if_name i = n)"
    using Cons.prems x by (intro strcmp_eq_c_str [OF assms(3)]) (simp add: iface_ok_def)
  then show ?case
    using Cons x by (subst iface_find.simps) simp
qed

lemma iface_ip_chain:
  assumes c: "chain_at if_next (iheap s) (ifaces s) xs" and ok: "\<forall>(a, i) \<in> set xs. iface_ok i"
    and n: "c_str arr = Some n"
  shows "iface_ip arr s = Some (addr_of_name n xs)"
proof -
  note f = iface_find_chain [OF c ok n]
  show ?thesis
  proof (cases rule: first_addr_cases [OF c, of "\<lambda>i. if_name i = n"])
    case 1
    then have "find (\<lambda>i. if_name i = n) (map snd xs) = None" by (auto simp: find_None_iff)
    then show ?thesis using 1 f by (simp add: iface_ip_def addr_of_name_def)
  next
    case (2 ys a i zs)
    have "\<forall>j \<in> set (map snd ys). if_name j \<noteq> n" using 2(6) by auto
    then have "find (\<lambda>i. if_name i = n) (map snd ys @ us) = find (\<lambda>i. if_name i = n) us" for us
      by (induction ys) auto
    then have fd: "find (\<lambda>i. if_name i = n) (map snd xs) = Some i" using 2(1,5) by simp
    have "iface_ok i" using ok 2(1) by auto
    then show ?thesis
      using f 2(2-4) fd by (cases "if_ipaddr i") (auto simp: iface_ip_def addr_of_name_def iface_ok_def)
  qed
qed

lemma c_str_strncpy:
  assumes "NUL \<notin> set v"
  shows "c_str (strncpy v n) = (if length v < n then Some v else None)"
proof (cases "length v < n")
  case True
  then have "strncpy v n = v @ NUL # replicate (n - length v - 1) NUL"
    by (simp add: strncpy_def take_replicate min_def flip: replicate_Suc)
  then show ?thesis using assms True by (simp add: c_str_def takeWhile_append)
next
  case False
  then have "strncpy v n = take n v" by (simp add: strncpy_def)
  then show ?thesis using False assms in_set_takeD [of NUL n v] by (auto simp: c_str_def)
qed

section \<open>What the options leave alone\<close>

context frame
begin

lemma framed_args_loop:
  assumes "\<And>a f s. a \<in> set args \<Longrightarrow> flag_option a = Some f \<Longrightarrow> R s (f s)"
    and "\<And>a act v. value_option e a = Some act \<Longrightarrow> framed R (act v)"
  shows "framed R (args_loop e args)"
  using assms
proof (induction e args rule: args_loop.induct)
  case (1 e)
  then show ?case by simp
next
  case (2 e a args)
  have flag: "framed R (modifyM f)" if "flag_option a = Some f" for f
    using "2.prems"(1) [OF _ that] by (auto simp: framed_def run_simps)
  show ?case
  proof (cases "strcaseeq a ''-h'' \<or> flag_option a \<noteq> None \<or> value_option e a = None \<or> args = []")
    case True
    moreover have "framed R (args_loop e args)" if "\<not> strcaseeq a ''-h''" "flag_option a = Some f" for f
      using "2.prems" by (intro "2.IH"(2) [OF that]) auto
    ultimately show ?thesis
      using flag by (auto intro!: framed_bind split: option.split)
  next
    case False
    then obtain act v rest where v: "value_option e a = Some act" "args = v # rest"
      by (cases args) auto
    have "framed R (args_loop e rest)"
      using "2.prems" v False by (intro "2.IH"(1) [of act v rest 0]) auto
    then show ?thesis
      using False v "2.prems"(2) [OF v(1)] by (auto intro!: framed_bind)
  qed
qed

end


text \<open>The lengths of the arrays of the context.\<close>

definition ctx_typed :: "state \<Rightarrow> bool" where
  "ctx_typed s \<longleftrightarrow> length (lan s) = MAX_IFNAME_LENGTH \<and> length (wan s) = MAX_IFNAME_LENGTH \<and>
     length (wanIPv6 s) = 16 \<and> length (aftrIPv6 s) = 16"

definition typed_kept :: "state \<Rightarrow> state \<Rightarrow> bool" where
  "typed_kept s t \<longleftrightarrow> (ctx_typed s \<longrightarrow> ctx_typed t)"

interpretation typed_kept: frame typed_kept
  by unfold_locales (auto simp: typed_kept_def)

definition level_kept :: "state \<Rightarrow> state \<Rightarrow> bool" where
  "level_kept s t \<longleftrightarrow> loglevel t = loglevel s"

interpretation level_kept: frame level_kept
  by unfold_locales (auto simp: level_kept_def)

lemma framed_modify: "(\<And>s. R s (f s)) \<Longrightarrow> framed R (modifyM f)"
  by (auto simp: framed_def run_simps)

lemma int_option_keeps:
  assumes "int_option a = Some put"
  shows "level_kept s (put n s)" and "typed_kept s (put n s)"
  using assms by (auto simp: int_option_def level_kept_def typed_kept_def ctx_typed_def split: if_splits)

lemma flag_option_keeps:
  assumes "flag_option a = Some f"
  shows "typed_kept s (f s)" and "\<not> strcaseeq a ''-v'' \<Longrightarrow> level_kept s (f s)"
  using assms by (auto simp: flag_option_def level_kept_def typed_kept_def ctx_typed_def split: if_splits)

lemma length_strncpy: "length (strncpy v n) = n"
  by (simp add: strncpy_def)

lemma store_addr_level:
  "(\<And>s x. level_kept s (put x s)) \<Longrightarrow> framed level_kept (store_addr4 e v put)"
  "(\<And>s x. level_kept s (put6 x s)) \<Longrightarrow> framed level_kept (store_addr6 e v put6)"
  unfolding store_addr4_def store_addr6_def
  by (auto split: option.split intro!: level_kept.framed_intros framed_modify)

lemma store_addr_typed:
  "(\<And>s x. typed_kept s (put x s)) \<Longrightarrow> framed typed_kept (store_addr4 e v put)"
  "(\<And>s x. e_pton6 e v = Some x \<Longrightarrow> typed_kept s (put6 x s)) \<Longrightarrow> framed typed_kept (store_addr6 e v put6)"
  unfolding store_addr4_def store_addr6_def
  by (auto split: option.split intro!: typed_kept.framed_intros framed_modify)

lemma value_option_level: "value_option e a = Some act \<Longrightarrow> framed level_kept (act v)"
  by (auto simp: value_option_def addr_option_def level_kept_def int_option_keeps(1) [unfolded level_kept_def]
      split: option.splits if_splits
      intro!: level_kept.framed_intros framed_modify store_addr_level)

lemma value_option_typed:
  assumes "\<And>v x. e_pton6 e v = Some x \<Longrightarrow> length x = 16"
  shows "value_option e a = Some act \<Longrightarrow> framed typed_kept (act v)"
  using assms
  by (auto simp: value_option_def addr_option_def typed_kept_def ctx_typed_def length_strncpy
      int_option_keeps(2) [unfolded typed_kept_def ctx_typed_def]
      split: option.splits if_splits
      intro!: typed_kept.framed_intros framed_modify store_addr_typed)

lemma length_sprintf: "sprintf_str src arr = Some r \<Longrightarrow> length r = length arr"
  by (auto simp: sprintf_str_def split: if_splits)

lemma ctx_defaults_result:
  assumes "ctx_defaults e s = Some (r, t)"
  shows "r = Ret ()" and "loglevel t = 0" and "typed_kept s t"
  using assms
  by (auto simp: ctx_defaults_def run_simps typed_kept_def ctx_typed_def dest!: length_sprintf
      split: option.splits)

lemma cmd_line_typed:
  assumes "\<And>v x. e_pton6 e v = Some x \<Longrightarrow> length x = 16"
  shows "framed typed_kept (cmd_line_parse e args)"
proof -
  have d: "framed typed_kept (ctx_defaults e)"
    by (auto simp: framed_def dest: ctx_defaults_result)
  have a: "framed typed_kept (args_loop e args)"
    using assms by (intro typed_kept.framed_args_loop flag_option_keeps value_option_typed)
  have l: "framed typed_kept (modifyM (\<lambda>s. LogLevel (loglevel s) s))" "framed typed_kept (sys e c)" for c
    by (auto simp: framed_def run_simps typed_kept_def ctx_typed_def LogLevel_def)
  show ?thesis
    unfolding cmd_line_parse_def by (intro typed_kept.framed_intros d a l)
qed

lemma cmd_line_level:
  assumes run: "cmd_line_parse e args s = Some (Ret 0, t)" and v: "\<forall>a \<in> set args. \<not> strcaseeq a ''-v''"
  shows "log_level t = 0"
proof -
  obtain r u where d: "ctx_defaults e s = Some (r, u)"
    using run by (cases "ctx_defaults e s") (auto simp: cmd_line_parse_def bindM_def)
  note u = ctx_defaults_result [OF d]
  have ne: "args \<noteq> []"
    using run by (auto simp: cmd_line_parse_def bindM_def d u(1) run_simps)
  have fr: "framed level_kept (args_loop e args)"
    using v by (intro level_kept.framed_args_loop flag_option_keeps value_option_level) auto
  obtain o1 w where w: "args_loop e args u = Some (o1, w)"
    using run ne by (cases "args_loop e args u") (auto simp: cmd_line_parse_def bindM_def d u(1))
  have "loglevel w = 0" using framedD [OF fr w] u(2) by (simp add: level_kept_def)
  then show ?thesis
    using run ne
    by (cases o1) (auto simp: cmd_line_parse_def bindM_def d u(1) w modifyM_def getM_def returnM_def
        readM_def sys_def LogLevel_def split: if_splits option.splits)
qed

lemma cmd_line_report:
  assumes run: "cmd_line_parse e args s = Some (Ret 0, t)"
  shows "parse_report (big_endian e) t \<noteq> None"
proof -
  obtain u where u: "ctx_defaults e s = Some (Ret (), u)"
    using run ctx_defaults_result(1)
    by (cases "ctx_defaults e s") (auto simp: cmd_line_parse_def bindM_def)
  obtain o1 w where w: "args_loop e args u = Some (o1, w)" and ne: "args \<noteq> []"
    using run u by (cases "args_loop e args u") (auto simp: cmd_line_parse_def run_simps split: if_splits)
  let ?w = "LogLevel (loglevel w) w"
  have "parse_report (big_endian e) ?w \<noteq> None" and "t = ?w \<or> (\<exists>h. t = ?w\<lparr>hist := h\<rparr>)"
    using run u w ne
    by (auto simp: cmd_line_parse_def run_simps split: outcome.splits if_splits option.splits)
  then show ?thesis by auto
qed

section \<open>The help text\<close>

text \<open>The options a help text names: the first words of the lines that start with a dash.\<close>

definition options_named :: "string list \<Rightarrow> string list" where
  "options_named ls = map (\<lambda>l. takeWhile (\<lambda>c. c \<noteq> CHR '' '') (tl l))
     (filter (\<lambda>l. take 2 l = '' -'') ls)"

lemma options_of_help:
  "options_named help_lines =
     [''--lan-iface'', ''--wan-iface'', ''-l'', ''-w'', ''-a'', ''--nat-pmp'', ''--nat-pnp-ext'', ''--upnp-udp'',
      ''--upnp-tcp'', ''-g'', ''--persistent'', ''-v'', ''-b'', ''-s'', ''--nat-pmp-port'', ''--upnp-udp-port'',
      ''--upnp-tcp-port1'', ''--upnp-tcp-port2'']"
  by (simp add: options_named_def help_lines_def)

text \<open>The help names one option the code does not know: \<open>--nat-pnp-ext\<close>.\<close>

lemma help_unknown_option:
  "''--nat-pnp-ext'' \<in> set (options_named help_lines) \<and>
   args_loop e (''--nat-pnp-ext'' # args) s = Some (Ret (-1), s)"
proof -
  have l: "map to_lower ''--nat-pnp-ext'' = ''--nat-pnp-ext''" by code_simp
  have "\<not> strcaseeq ''--nat-pnp-ext'' ''-h''" "flag_option ''--nat-pnp-ext'' = None"
    "value_option e ''--nat-pnp-ext'' = None"
    unfolding flag_option_def value_option_def int_option_def addr_option_def strcaseeq_def lower_names l
    by simp_all
  then show ?thesis by (simp add: options_of_help run_simps)
qed

section \<open>Reading numbers back as they are written\<close>

lemma digit_obtain:
  assumes "isdigit c"
  obtains d where "d < 10" "c = char_of (48 + d)" "(of_char c :: int) = 48 + int d"
proof -
  define d where "d = (of_char c :: nat) - 48"
  have d: "d < 10" "(of_char c :: nat) = 48 + d" using assms by (auto simp: isdigit_def Let_def d_def)
  have c: "c = char_of (48 + d)" by (simp flip: d(2))
  then show thesis using that [OF d(1) c] digit_char(2) [OF d(1)] c by simp
qed

lemma digits_pos:
  "list_all isdigit s \<Longrightarrow> 0 \<le> digits_val s \<and> (s \<noteq> [] \<and> hd s \<noteq> CHR ''0'' \<longrightarrow> 0 < digits_val s)"
proof (induction s rule: rev_induct)
  case Nil
  then show ?case by (simp add: digits_val_def)
next
  case (snoc c s)
  obtain d where d: "d < 10" "c = char_of (48 + d)" "(of_char c :: int) = 48 + int d"
    using snoc.prems digit_obtain by auto
  have "char_of (48 :: nat) = CHR ''0''" by code_simp
  then have "d \<noteq> 0" if "c \<noteq> CHR ''0''" using that d(2) by (cases d) auto
  then show ?case
    using snoc d(3) by (cases "s = []") (auto simp: digits_val_snoc digits_val_def)
qed

lemma show_digits:
  "list_all isdigit s \<Longrightarrow> s \<noteq> [] \<Longrightarrow> length s = 1 \<or> hd s \<noteq> CHR ''0'' \<Longrightarrow>
    show_nat (nat (digits_val s)) = s"
proof (induction s rule: rev_induct)
  case (snoc c s)
  obtain d where d: "d < 10" "c = char_of (48 + d)" "(of_char c :: int) = 48 + int d"
    using snoc.prems digit_obtain by auto
  show ?case
  proof (cases "s = []")
    case True
    then show ?thesis using d by (subst show_nat.simps) (simp add: digits_val_snoc digits_val_def)
  next
    case False
    then have h: "hd s \<noteq> CHR ''0''" "list_all isdigit s" using snoc.prems by auto
    define n where "n = nat (digits_val s)"
    have n: "0 < n" "digits_val s = int n" using digits_pos [OF h(2)] h(1) False by (auto simp: n_def)
    have "show_nat n = s" using snoc.IH h False by (simp add: n_def)
    moreover have "nat (digits_val (s @ [c])) = 10 * n + d"
      by (simp add: digits_val_snoc n(2) d(3) nat_add_distrib nat_mult_distrib)
    ultimately show ?thesis
      using n(1) d(1) by (subst show_nat.simps) (simp add: d(2))
  qed
qed simp

lemma pton_octet_read:
  assumes "pton_octet s = Some b"
  shows "s = show_nat (unat b)"
proof -
  have s: "list_all isdigit s" "s \<noteq> []" "length s = 1 \<or> hd s \<noteq> CHR ''0''"
    "digits_val s \<le> 255" "b = word_of_int (digits_val s)"
    using assms by (auto simp: pton_octet_def split: if_splits)
  have "0 \<le> digits_val s" using digits_pos [OF s(1)] by blast
  then have "unat b = nat (digits_val s)"
    using s(4) by (simp add: s(5) unsigned_of_int take_bit_int_eq_self)
  then show ?thesis using show_digits [OF s(1-3)] by simp
qed

fun join_dots :: "string list \<Rightarrow> string" where
  "join_dots [] = []"
| "join_dots [w] = w"
| "join_dots (w # ws) = w @ ''.'' @ join_dots ws"

lemma split_dots_nonempty: "split_dots s \<noteq> []"
  by (induction s) (auto split: list.splits)

lemma join_split_dots: "join_dots (split_dots s) = s"
proof (induction s)
  case (Cons c s)
  then show ?case using split_dots_nonempty [of s] by (cases "split_dots s"; cases "tl (split_dots s)") auto
qed simp

text \<open>What is read as an IPv4 address is the way its bytes are written.\<close>

lemma inet_pton4_read:
  assumes "inet_pton4 v = Some bs"
  shows "\<exists>a b c d. bs = [a, b, c, d] \<and> v = show_addr [a, b, c, d]"
proof -
  obtain w x y z a b c d where "split_dots v = [w, x, y, z]" "bs = [a, b, c, d]"
    "pton_octet w = Some a" "pton_octet x = Some b" "pton_octet y = Some c" "pton_octet z = Some d"
    using assms by (auto simp: inet_pton4_def split: list.splits option.splits)
  then show ?thesis
    using join_split_dots [of v] pton_octet_read by auto
qed

section \<open>The lines of the routing table\<close>

text \<open>\<open>%08X\<close>: a number written with eight hexadecimal digits; \<open>k\<close> digits in general.\<close>

definition hex_upper :: "nat \<Rightarrow> char" where
  "hex_upper d = char_of (if d < 10 then 48 + d else 55 + d)"

primrec show_hex :: "nat \<Rightarrow> nat \<Rightarrow> string" where
  "show_hex 0 n = []"
| "show_hex (Suc k) n = show_hex k (n div 16) @ [hex_upper (n mod 16)]"

lemma length_show_hex [simp]: "length (show_hex k n) = k"
  by (induction k arbitrary: n) simp_all

lemma hex_digit_upper: "d < 16 \<Longrightarrow> hex_digit (hex_upper d) = Some (int d)"
  by (auto simp: hex_digit_def hex_upper_def Let_def)

lemma show_hex_digits: "list_all is_hex (show_hex k n)"
  by (induction k arbitrary: n) (simp_all add: is_hex_def hex_digit_upper)

lemma show_hex_val: "n < 16 ^ k \<Longrightarrow> hex_val (show_hex k n) = int n"
proof (induction k arbitrary: n)
  case 0
  then show ?case by (simp add: hex_val_def)
next
  case (Suc k)
  then have "n div 16 < 16 ^ k" by (simp add: less_mult_imp_div_less mult.commute)
  from Suc.IH [OF this] have "hex_val (show_hex (Suc k) n) = 16 * int (n div 16) + int (n mod 16)"
    by (simp add: hex_val_def hex_digit_upper)
  then show ?case by presburger
qed

lemma is_hex_not: "is_hex c \<Longrightarrow> \<not> isspace c \<and> c \<noteq> CHR ''-'' \<and> c \<noteq> CHR ''+'' \<and> c \<noteq> NUL \<and>
    c \<noteq> CHR ''x'' \<and> c \<noteq> CHR ''X''"
  by (auto simp: is_hex_def hex_digit_def isspace_def Let_def split: if_splits)

lemma scan_hex_show:
  assumes "2 \<le> k" and "n < 16 ^ k" and "int n < 2 ^ long_bits e" and t: "t = [] \<or> \<not> is_hex (hd t)"
    and ws: "list_all isspace ws"
  shows "scan_hex e (ws @ show_hex k n @ t) = Some (Some (int n, t))"
proof -
  let ?h = "show_hex k n"
  obtain c h where h: "?h = c # h" using assms(1) length_show_hex [of k n] by (cases ?h) auto
  have hex: "is_hex x" if "x \<in> set ?h" for x using that show_hex_digits [of k n] by (auto simp: list_all_iff)
  have c: "\<not> isspace c" "c \<noteq> CHR ''-''" "c \<noteq> CHR ''+''"
    using is_hex_not [OF hex [of c]] h by auto
  have sp: "dropWhile isspace (ws @ ?h @ t) = ?h @ t"
    using ws c(1) h by (simp add: dropWhile_append2 list_all_iff dropWhile_append3)
  have sg: "sign_of (?h @ t) = (1, ?h @ t)" using c(2,3) h by simp
  have "set (take 2 (?h @ t)) \<subseteq> set ?h" using assms(1) by (auto dest: in_set_takeD)
  then have "CHR ''x'' \<notin> set (take 2 (?h @ t))" "CHR ''X'' \<notin> set (take 2 (?h @ t))"
    using is_hex_not [OF hex] by blast+
  then have "take 2 (?h @ t) \<noteq> ''0x''" "take 2 (?h @ t) \<noteq> ''0X''" by (auto simp del: take_append)
  then have x: "drop_0x (?h @ t) = ?h @ t" by (simp add: drop_0x_def del: take_append)
  have "takeWhile is_hex (?h @ t) = ?h" "dropWhile is_hex (?h @ t) = t"
    using t hex by (cases t; simp add: takeWhile_append2 dropWhile_append2)+
  moreover have "?h \<noteq> []" using h by simp
  ultimately show ?thesis
    using assms(3) unfolding scan_hex_def sp sg by (simp add: x Let_def show_hex_val [OF assms(2)])
qed

text \<open>
  An entry of the routing table and its line as the kernel prints it: the interface, the destination
  and the gateway as eight hexadecimal digits, and the rest of the line, separated by tabs.
\<close>

record route_entry =
  rt_iface :: string
  rt_dest :: u32
  rt_gateway :: u32
  rt_rest :: string

abbreviation TAB :: char where "TAB \<equiv> CHR 0x09"

definition route_text :: "route_entry \<Rightarrow> string" where
  "route_text r = rt_iface r @ TAB # show_hex 8 (unat (rt_dest r)) @ TAB # show_hex 8 (unat (rt_gateway r)) @
     TAB # rt_rest r"

definition route_entry_ok :: "route_entry \<Rightarrow> bool" where
  "route_entry_ok r \<longleftrightarrow> list_all (\<lambda>c. \<not> isspace c \<and> c \<noteq> NUL) (rt_iface r) \<and>
     NUL \<notin> set (rt_rest r) \<and> LF \<notin> set (rt_rest r) \<and> length (route_text r) < 255"

lemma route_text_line: "route_entry_ok r \<Longrightarrow> text_line (route_text r)"
proof -
  assume r: "route_entry_ok r"
  have "isspace LF" by (simp add: isspace_def)
  moreover have "LF \<notin> set (show_hex k n)" for k n
    using show_hex_digits [of k n] is_hex_not \<open>isspace LF\<close> by (auto simp: list_all_iff)
  ultimately show ?thesis
    using r by (auto simp: route_entry_ok_def text_line_def route_text_def list_all_iff)
qed

lemma route_line_text:
  assumes "route_entry_ok r" and "32 \<le> long_bits e"
  shows "route_line e (route_text r @ [LF]) =
    Some (if rt_dest r = 0 then Some (rt_gateway r) else None)"
proof -
  let ?d = "show_hex 8 (unat (rt_dest r))" and ?g = "show_hex 8 (unat (rt_gateway r))"
  let ?l = "route_text r @ [LF]"
  have sp: "isspace TAB" "\<not> is_hex TAB" by code_simp+
  have no_nul: "NUL \<notin> set (show_hex k n)" for k n
    using show_hex_digits [of k n] is_hex_not by (auto simp: list_all_iff)
  have i: "\<forall>c \<in> set (rt_iface r). \<not> isspace c \<and> c \<noteq> NUL" "NUL \<notin> set (rt_rest r)"
    using assms(1) by (auto simp: route_entry_ok_def list_all_iff)
  have u: "unat x < 16 ^ 8" "int (unat x) < 2 ^ long_bits e" for x :: u32
  proof -
    have "unat x < 2 ^ LENGTH(32)" by (rule unsigned_less)
    then show "unat x < 16 ^ 8" by simp
    then have "int (unat x) < int (2 ^ 32)" by (simp only: of_nat_less_iff) simp
    then have "int (unat x) < 2 ^ 32" by (simp only: of_nat_power of_nat_numeral)
    also have "(2::int) ^ 32 \<le> 2 ^ long_bits e" using assms(2) by (rule power_increasing) simp
    finally show "int (unat x) < 2 ^ long_bits e" .
  qed
  have "takeWhile (\<lambda>c. c \<noteq> NUL) ?l = ?l"
    using i no_nul by (auto simp: takeWhile_eq_all_conv route_text_def)
  moreover have "dropWhile (\<lambda>c. \<not> isspace c) ?l = TAB # ?d @ TAB # ?g @ TAB # rt_rest r @ [LF]"
    using i(1) sp(1) by (simp add: route_text_def dropWhile_append3 dropWhile_append2)
  moreover have "dropWhile isspace (TAB # ?d @ x) = ?d @ x" for x
  proof -
    obtain c h where h: "?d = c # h" using length_show_hex [of 8 "unat (rt_dest r)"] by (cases ?d) auto
    then show ?thesis using show_hex_digits [of 8 "unat (rt_dest r)"] is_hex_not [of c] sp(1) by simp
  qed
  moreover have "scan_hex e (?d @ TAB # x) = Some (Some (int (unat (rt_dest r)), TAB # x))" for x
    using scan_hex_show [of 8 "unat (rt_dest r)" e "TAB # x" "[]"] u sp(2) by simp
  moreover have "scan_hex e (TAB # ?g @ TAB # x) = Some (Some (int (unat (rt_gateway r)), TAB # x))" for x
    using scan_hex_show [of 8 "unat (rt_gateway r)" e "TAB # x" "[TAB]"] u sp by simp
  ultimately show ?thesis
    by (simp add: route_line_def Let_def uint_0_iff del: show_hex.simps)
qed

text \<open>From a table of such lines under a heading, the first default route is taken.\<close>

lemma route_scan_entries:
  assumes "text_line heading" and "\<forall>r \<in> set rs. route_entry_ok r" and "32 \<le> long_bits e"
  shows "route_scan e 0 (text_of (heading # map route_text rs)) =
    Some (case find (\<lambda>r. rt_dest r = 0) rs of None \<Rightarrow> 0 | Some r \<Rightarrow> rt_gateway r)"
proof -
  let ?ls = "map route_text rs"
  have "fgets 255 (text_of (heading # ?ls)) = (heading @ [LF], text_of ?ls)"
    using assms(1) fgets_line [of heading 255 "text_of ?ls"] by (simp add: text_of_def text_line_def)
  moreover have "text_of (heading # ?ls) \<noteq> []" by (simp add: text_of_def)
  ultimately have "route_scan e 0 (text_of (heading # ?ls)) = route_scan e 1 (text_of ?ls)"
    by (subst route_scan.simps) simp
  also have "\<dots> = Some (case List.map_filter (\<lambda>l. the (route_line e (l @ [LF]))) ?ls of
      [] \<Rightarrow> 0 | g # _ \<Rightarrow> g)"
    using assms(2,3) by (intro route_scan_text) (auto simp: route_text_line route_line_text)
  also have "(case List.map_filter (\<lambda>l. the (route_line e (l @ [LF]))) ?ls of [] \<Rightarrow> 0 | g # _ \<Rightarrow> g) =
      (case find (\<lambda>r. rt_dest r = 0) rs of None \<Rightarrow> 0 | Some r \<Rightarrow> rt_gateway r)"
    using assms(2,3) by (induction rs) (auto simp: List.map_filter_simps List.map_filter_def route_line_text)
  finally show ?thesis .
qed

section \<open>Long names\<close>

text \<open>
  \<open>strncpy\<close> leaves a name of 255 characters or more without its terminator: the
  array is then no string, and what reads it as one, as binding a socket to the interface does, has
  no defined result.
\<close>

lemma iface_name_bounds:
  assumes "args_loop e [''--lan-iface'', v] s = Some (Ret 0, t)" and "NUL \<notin> set v"
  shows "length (lan t) = MAX_IFNAME_LENGTH \<and>
    c_str (lan t) = (if length v < MAX_IFNAME_LENGTH then Some v else None)"
  using assms c_str_strncpy [OF assms(2)] length_strncpy
  unfolding args_addr_option [OF addr_option_ifaces(1)]
  by (auto simp: run_simps split: option.splits)

section \<open>A sample context\<close>

definition sample_ctx :: state where
  "sample_ctx = sample0\<lparr>lan := replicate MAX_IFNAME_LENGTH NUL, wan := replicate MAX_IFNAME_LENGTH NUL,
     wanIPv6 := replicate 16 0, aftrIPv6 := replicate 16 0\<rparr>"

lemma sample_cmd_line: "\<exists>t. cmd_line_parse sample_env [''--persistent''] sample_ctx = Some (Ret 0, t)"
proof -
  have flag: "flag_option ''--persistent'' = Some (\<lambda>s. s\<lparr>persistent := 1\<rparr>)" "\<not> strcaseeq ''--persistent'' ''-h''"
    unfolding flag_option_def strcaseeq_def lower_names by simp_all
  have ip: "ifaces s = 0 \<Longrightarrow> iface_ip n s = Some 0" for n s
    by (simp add: iface_ip_def iface_find.simps)
  have "\<exists>t. ctx_defaults sample_env sample_ctx = Some (Ret (), t) \<and> daemon t = 0 \<and> loglevel t = 0 \<and>
      ifaces t = 0 \<and> mheap t = mheap sample0 \<and> sheap t = sheap sample0 \<and> pheap t = pheap sample0 \<and>
      brk t = brk sample0 \<and> mappings t = mappings sample0 \<and> sockets t = sockets sample0"
    by (simp add: ctx_defaults_def run_simps sprintf_str_def sample_ctx_def MAX_IFNAME_LENGTH_def
        PORTPROXY_DEFAULT_LAN_IFACE_def PORTPROXY_DEFAULT_WAN_IFACE_def default_lan_ip_def
        default_wan_ip_def ip sample_state_def default_router_ip_def sample_env_def)
  then obtain t where t: "ctx_defaults sample_env sample_ctx = Some (Ret (), t)" "daemon t = 0"
      "loglevel t = 0" "ifaces t = 0"
    and same: "mheap t = mheap sample0" "sheap t = sheap sample0" "pheap t = pheap sample0"
      "brk t = brk sample0" "mappings t = mappings sample0" "sockets t = sockets sample0"
    by blast
  let ?u = "LogLevel 0 (t\<lparr>persistent := 1\<rparr>)"
  have "tables ?u sample_ms sample_ss"
    by (rule tables_cong [THEN iffD2, OF _ _ _ _ _ _ sample_tables]) (simp_all add: LogLevel_def same)
  then have "parse_report be ?u = Some []" for be
    by (rule parse_report_quiet [where xs = "[]", rotated]) (simp_all add: LogLevel_def t(4))
  then show ?thesis
    using t by (simp add: cmd_line_parse_def run_simps flag)
qed

section \<open>Properties\<close>

text \<open>
  The settings with an integer parameter, the option each is written with, and the field of the
  context it is meant to set. Ports and the flag of the shared socket are unsigned there.
\<close>

datatype setting = Nat_pmp | Nat_pmp_ext | Upnp_udp | Upnp_tcp | Timeout | Nat_pmp_port | Upnp_udp_port
  | Upnp_tcp_port1 | Upnp_tcp_port2 | Shared_udp_sock

fun setting_name :: "setting \<Rightarrow> string" where
  "setting_name Nat_pmp = ''--nat-pmp''"
| "setting_name Nat_pmp_ext = ''--nat-pmp-ext''"
| "setting_name Upnp_udp = ''--upnp-udp''"
| "setting_name Upnp_tcp = ''--upnp-tcp''"
| "setting_name Timeout = ''--timeout''"
| "setting_name Nat_pmp_port = ''--nat-pmp-port''"
| "setting_name Upnp_udp_port = ''--upnp-udp-port''"
| "setting_name Upnp_tcp_port1 = ''--upnp-tcp-port1''"
| "setting_name Upnp_tcp_port2 = ''--upnp-tcp-port2''"
| "setting_name Shared_udp_sock = ''--shared-udp-sock''"

fun apply_setting :: "setting \<Rightarrow> int \<Rightarrow> state \<Rightarrow> state" where
  "apply_setting Nat_pmp n s = s\<lparr>enable_nat_pmp := n\<rparr>"
| "apply_setting Nat_pmp_ext n s = s\<lparr>enable_nat_pmp_ext := n\<rparr>"
| "apply_setting Upnp_udp n s = s\<lparr>enable_upnp_udp := n\<rparr>"
| "apply_setting Upnp_tcp n s = s\<lparr>enable_upnp_tcp := n\<rparr>"
| "apply_setting Timeout n s = s\<lparr>timeout := n\<rparr>"
| "apply_setting Nat_pmp_port n s = s\<lparr>natpmp_udp_port := word_of_int n\<rparr>"
| "apply_setting Upnp_udp_port n s = s\<lparr>upnp_udp_port := word_of_int n\<rparr>"
| "apply_setting Upnp_tcp_port1 n s = s\<lparr>upnp_tcp_port1 := word_of_int n\<rparr>"
| "apply_setting Upnp_tcp_port2 n s = s\<lparr>upnp_tcp_port2 := word_of_int n\<rparr>"
| "apply_setting Shared_udp_sock n s = s\<lparr>shared_udp_sock := word_of_int n\<rparr>"

lemma int_option_setting: "strcaseeq a (setting_name x) \<Longrightarrow> int_option a = Some (apply_setting x)"
  unfolding int_option_def strcaseeq_def
  by (cases x) (simp_all only: setting_name.simps lower_names, simp_all add: fun_eq_iff)

text \<open>
  C31: a command line of options with an integer parameter, their names in any case
  and each parameter written in decimal, is accepted, and sets for each option, in order, its own field
  to the value given, and nothing else.
\<close>

theorem int_options_applied:
  assumes "\<forall>(a, x, n) \<in> set opts. strcaseeq a (setting_name x) \<and> - (2 ^ 31) \<le> n \<and> n < 2 ^ 31"
  shows "args_loop e (concat (map (\<lambda>(a, x, n). [a, show_int n]) opts)) s =
    Some (Ret 0, fold (\<lambda>(a, x, n). apply_setting x n) opts s)"
  using assms
proof (induction opts arbitrary: s)
  case Nil
  then show ?case by (simp add: run_simps)
next
  case (Cons y opts)
  obtain a x n where y: "y = (a, x, n)" by (cases y)
  have p: "int_option a = Some (apply_setting x)" using Cons.prems y int_option_setting by auto
  have "atoi (show_int n) = Some n" using Cons.prems y by (intro atoi_show_int) auto
  note step = args_int_option [OF p this]
  have "\<forall>(a, x, n) \<in> set opts. strcaseeq a (setting_name x) \<and> - (2 ^ 31) \<le> n \<and> n < 2 ^ 31"
    using Cons.prems by simp
  then show ?case
    using Cons.IH by (simp only: y list.map concat.simps prod.case append.simps step fold.simps o_apply)
qed

text \<open>The port -1 is 4294967295 in the unsigned field.\<close>

theorem int_options_applied_witness:
  "args_loop sample_env [''--nat-pmp-port'', ''-1'', ''--UPNP-UDP'', ''1''] sample0 =
     Some (Ret 0, sample0\<lparr>natpmp_udp_port := 4294967295, enable_upnp_udp := 1\<rparr>)"
proof -
  have up: "strcaseeq ''--nat-pmp-port'' (setting_name Nat_pmp_port)"
    "strcaseeq ''--UPNP-UDP'' (setting_name Upnp_udp)" by code_simp+
  have dig: "char_of (49 :: nat) = CHR ''1''" by code_simp
  have d: "show_int (-1) = ''-1''" "show_int 1 = ''1''"
    by (simp_all add: show_int_def show_nat.simps dig)
  have w: "word_of_int (-1) = (4294967295 :: u32)" by simp
  show ?thesis
    using int_options_applied [of "[(''--nat-pmp-port'', Nat_pmp_port, -1), (''--UPNP-UDP'', Upnp_udp, 1)]"
        sample_env sample0] up
    by (simp add: d w del: args_loop.simps setting_name.simps)
qed

text \<open>
  C32: an IPv4 address given in dotted notation after \<open>-l\<close>, \<open>-a\<close> or \<open>-w\<close> is
  stored so that its four bytes stand in memory in network order, on machines of either byte order.
\<close>

theorem addr_options_round_trip:
  "\<exists>x. mem32 (big_endian e) x = [a, b, c, d] \<and>
     args_loop e (''-l'' # show_addr [a, b, c, d] # args) s = args_loop e args (s\<lparr>lanIP := x\<rparr>) \<and>
     args_loop e (''-a'' # show_addr [a, b, c, d] # args) s = args_loop e args (s\<lparr>aftrIPv4 := x\<rparr>) \<and>
     args_loop e (''-w'' # show_addr [a, b, c, d] # args) s = args_loop e args (s\<lparr>wanIP := x\<rparr>)"
proof -
  obtain x where x: "load32 (big_endian e) [a, b, c, d] = Some x" by simp
  have "args_loop e (opt # show_addr [a, b, c, d] # args) s = args_loop e args (put x s)"
    if "addr_option e opt = Some (\<lambda>v. store_addr4 e v put)" for opt put
    unfolding args_addr_option [OF that] using x
    by (simp add: store_addr4_def inet_pton4_show run_simps del: show_addr.simps)
  from this [OF addr_option_names(1)] this [OF addr_option_names(2)] this [OF addr_option_names(3)]
  show ?thesis
    using mem32_load32 [OF x] by (intro exI [of _ x]) blast
qed

text \<open>
  C33: a parameter of \<open>-l\<close>, \<open>-a\<close> or \<open>-w\<close> that is not four bytes written in decimal with
  dots between them is dropped: the parsing goes on with the address as it was. A parameter of \<open>-b\<close> or
  \<open>-s\<close> that the C library does not take as an IPv6 address ends the parsing with -1.
\<close>

theorem bad_addresses:
  assumes "\<forall>a b c d. v \<noteq> show_addr [a, b, c, d]" and "e_pton6 e w = None"
  shows "args_loop e (''-l'' # v # args) s = args_loop e args s \<and>
    args_loop e (''-a'' # v # args) s = args_loop e args s \<and>
    args_loop e (''-w'' # v # args) s = args_loop e args s \<and>
    args_loop e (''-b'' # w # args) s = Some (Ret (-1), s) \<and>
    args_loop e (''-s'' # w # args) s = Some (Ret (-1), s)"
proof -
  have "inet_pton4 v = None" using inet_pton4_read [of v] assms(1) by (cases "inet_pton4 v") auto
  then show ?thesis
    using assms(2) unfolding addr_option_names [THEN args_addr_option]
    by (simp add: store_addr4_def store_addr6_def run_simps)
qed

theorem bad_addresses_witness:
  "args_loop sample_env [''-a'', ''10.0.0.01''] sample0 = Some (Ret 0, sample0) \<and>
   args_loop sample_env [''-s'', ''::''] sample0 = Some (Ret (-1), sample0)"
proof -
  have "inet_pton4 ''10.0.0.01'' = None" by code_simp
  then have "\<forall>a b c d. ''10.0.0.01'' \<noteq> show_addr [a, b, c, d]" using inet_pton4_show by (metis option.distinct(1))
  from bad_addresses [OF this, of sample_env "''::''" "[]" sample0] show ?thesis
    by (simp add: sample_env_def run_simps)
qed

text \<open>
  C34: from a routing table in the form the kernel prints it, a heading and then one
  line for each entry, the detected router is the gateway of the first entry whose destination is
  0.0.0.0; it is 0.0.0.0 when there is none, and when there is no table.
\<close>

theorem default_router_spec:
  assumes "e_route e (hist s) = Some (text_of (heading # map route_text rs)) \<or>
      e_route e (hist s) = None \<and> rs = []"
    and "text_line heading" and "\<forall>r \<in> set rs. route_entry_ok r" and "32 \<le> long_bits e"
  shows "default_router_ip e s =
    Some (case find (\<lambda>r. rt_dest r = 0) rs of None \<Rightarrow> 0 | Some r \<Rightarrow> rt_gateway r)"
  using assms(1) route_scan_entries [OF assms(2-4)] by (auto simp: default_router_ip_def)

text \<open>The route to 192.168.0.0 over \<open>br0\<close> and the default route over \<open>eth0\<close>, to 192.0.0.1.\<close>

theorem default_router_spec_witness:
  "default_router_ip (sample_env\<lparr>e_route := (\<lambda>_. Some (text_of
      [''Iface'', ''br0'' @ [TAB] @ ''0000A8C0'' @ [TAB] @ ''00000000'' @ [TAB] @ ''0001'',
       ''eth0'' @ [TAB] @ ''00000000'' @ [TAB] @ ''010000C0'' @ [TAB] @ ''0003'']))\<rparr>) sample0 =
   Some 0x010000C0"
proof -
  let ?r = "\<lparr>rt_iface = ''br0'', rt_dest = 0x0000A8C0, rt_gateway = 0, rt_rest = ''0001''\<rparr>"
  let ?q = "\<lparr>rt_iface = ''eth0'', rt_dest = 0, rt_gateway = 0x010000C0, rt_rest = ''0003''\<rparr>"
  let ?l = "''br0'' @ [TAB] @ ''0000A8C0'' @ [TAB] @ ''00000000'' @ [TAB] @ ''0001''"
  let ?m = "''eth0'' @ [TAB] @ ''00000000'' @ [TAB] @ ''010000C0'' @ [TAB] @ ''0003''"
  let ?e = "sample_env\<lparr>e_route := (\<lambda>_. Some (text_of [''Iface'', ?l, ?m]))\<rparr>"
  have step: "show_hex (numeral k) n = show_hex (pred_numeral k) (n div 16) @ [hex_upper (n mod 16)]" for k n
    unfolding numeral_eq_Suc [of k] by simp
  have dig: "hex_upper 0 = CHR ''0''" "hex_upper (Suc 0) = CHR ''1''" "hex_upper 8 = CHR ''8''"
    "hex_upper 10 = CHR ''A''" "hex_upper 12 = CHR ''C''" by code_simp+
  have hex: "show_hex 8 (unat (0x0000A8C0 :: u32)) = ''0000A8C0''" "show_hex 8 (unat (0 :: u32)) = ''00000000''"
    "show_hex 8 (unat (0x010000C0 :: u32)) = ''010000C0''"
    by (simp_all add: step dig)
  have x: "route_text ?r = ?l" "route_text ?q = ?m"
    unfolding route_text_def route_entry.simps hex by simp_all
  have i: "list_all (\<lambda>c. \<not> isspace c \<and> c \<noteq> NUL) ''br0''" "list_all (\<lambda>c. \<not> isspace c \<and> c \<noteq> NUL) ''eth0''"
    by code_simp+
  have ok: "route_entry_ok ?r" "route_entry_ok ?q" "text_line ''Iface''"
    unfolding route_entry_ok_def route_entry.simps using i
    by (simp_all add: route_text_def text_line_def)
  have "e_route ?e (hist sample0) = Some (text_of (''Iface'' # map route_text [?r, ?q]))"
    by (simp only: list.map x) (simp add: sample_env_def)
  moreover have "32 \<le> long_bits ?e" by (simp add: sample_env_def)
  ultimately show ?thesis
    using default_router_spec [of ?e sample0 "''Iface''" "[?r, ?q]"] ok by simp
qed

text \<open>
  C35: an interface name of less than 255 characters given after \<open>--lan-iface\<close> or
  \<open>--wan-iface\<close> is stored, and the address becomes the first of the first interface with the name,
  0.0.0.0 when there is no such interface or it has no address.
\<close>

theorem iface_options_spec:
  assumes "chain_at if_next (iheap s) (ifaces s) xs" and "\<forall>(a, i) \<in> set xs. iface_ok i"
    and v: "NUL \<notin> set v" "length v < MAX_IFNAME_LENGTH"
  shows "args_loop e (''--lan-iface'' # v # args) s = args_loop e args
      (s\<lparr>lan := strncpy v MAX_IFNAME_LENGTH, lanIP := addr_of_name v xs\<rparr>) \<and>
    args_loop e (''--wan-iface'' # v # args) s = args_loop e args
      (s\<lparr>wan := strncpy v MAX_IFNAME_LENGTH, wanIP := addr_of_name v xs\<rparr>) \<and>
    c_str (strncpy v MAX_IFNAME_LENGTH) = Some v"
proof -
  have c: "c_str (strncpy v MAX_IFNAME_LENGTH) = Some v"
    using c_str_strncpy [OF v(1)] v(2) by simp
  note ip = iface_ip_chain [OF _ assms(2) c]
  show ?thesis
    using assms(1) c ip unfolding args_addr_option [OF addr_option_ifaces(1)] args_addr_option [OF addr_option_ifaces(2)]
    by (simp add: run_simps default_lan_ip_def default_wan_ip_def)
qed

theorem iface_options_spec_witness:
  "args_loop sample_env [''--lan-iface'', ''br0''] (sample0\<lparr>ifaces := 6, iheap := [6 \<mapsto> sample_iface]\<rparr>) =
     Some (Ret 0, sample0\<lparr>ifaces := 6, iheap := [6 \<mapsto> sample_iface],
       lan := ''br0'' @ replicate 252 NUL, lanIP := 0\<rparr>) \<and>
   args_loop sample_env [''--lan-iface'', ''br-lan''] (sample0\<lparr>ifaces := 6, iheap := [6 \<mapsto> sample_iface]\<rparr>) =
     Some (Ret 0, sample0\<lparr>ifaces := 6, iheap := [6 \<mapsto> sample_iface],
       lan := ''br-lan'' @ replicate 249 NUL, lanIP := 0x0100000A\<rparr>)"
proof -
  let ?s = "sample0\<lparr>ifaces := 6, iheap := [6 \<mapsto> sample_iface]\<rparr>"
  have c: "chain_at if_next (iheap ?s) (ifaces ?s) [(6, sample_iface)]" by (simp add: sample_iface_def)
  have ok: "\<forall>(a, i) \<in> set [(6, sample_iface)]. iface_ok i" by (simp add: iface_ok_def sample_iface_def)
  have n: "MAX_IFNAME_LENGTH = 255" by (simp add: MAX_IFNAME_LENGTH_def)
  have l: "strncpy ''br0'' 255 = ''br0'' @ replicate 252 NUL"
    "strncpy ''br-lan'' 255 = ''br-lan'' @ replicate 249 NUL" by (simp_all add: strncpy_def)
  show ?thesis
    using iface_options_spec [OF c ok, of "''br0''" sample_env "[]"]
      iface_options_spec [OF c ok, of "''br-lan''" sample_env "[]"]
    by (simp add: n l addr_of_name_def sample_iface_def run_simps)
qed

text \<open>
  C37: after a command line without \<open>-v\<close> the report at the end of the parsing is
  empty and no message of level 1 or more is printed any more; every message of the program, errors
  included, has at least that level.
\<close>

theorem quiet_by_default:
  assumes "cmd_line_parse e args s = Some (Ret 0, t)" and "\<forall>a \<in> set args. \<not> strcaseeq a ''-v''"
  shows "parse_report (big_endian e) t = Some [] \<and> (\<forall>level txt. 1 \<le> level \<longrightarrow> Log t level txt = Some [])"
  using cmd_line_level [OF assms] cmd_line_report [OF assms(1)] report_quiet [of t "big_endian e"]
  by (auto simp: Log_def)

theorem quiet_by_default_witness:
  "\<exists>t. cmd_line_parse sample_env [''--persistent''] sample_ctx = Some (Ret 0, t) \<and>
     parse_report False t = Some [] \<and> Log t 1 (Some ''Error'') = Some []"
proof -
  obtain t where t: "cmd_line_parse sample_env [''--persistent''] sample_ctx = Some (Ret 0, t)"
    using sample_cmd_line by blast
  have "\<forall>a \<in> set [''--persistent'']. \<not> strcaseeq a ''-v''"
    unfolding strcaseeq_def lower_names by (simp add: lower_names)
  from quiet_by_default [OF t this] show ?thesis using t by auto
qed

text \<open>
  An IPv4 address is written in at most 15 characters, so with its NUL it fits
  the buffers of \<open>INET_ADDRSTRLEN\<close> (16) characters, and reading it gives the address back; a
  link-layer address fits the 18 characters of \<open>iface_print\<close>.
\<close>

theorem printed_texts_fit:
  "length (inet_ntop4 be a) + 1 \<le> 16 \<and> inet_pton4 (inet_ntop4 be a) = Some (mem32 be a) \<and>
    load32 be (mem32 be a) = Some a \<and> length (mac_text i) + 1 \<le> 18"
proof -
  have "length (show_mac (take 6 (if_mac i))) \<le> 17"
    using length_show_mac [of "take 6 (if_mac i)"] by (simp split: if_splits)
  moreover obtain w x y z where m: "mem32 be a = [w, x, y, z]"
    by (cases be) (simp_all add: mem32_def)
  ultimately show ?thesis
    using length_show_addr [of w x y z] inet_pton4_show [of w x y z] load32_mem32 [of be a "[]"]
    by (simp add: inet_ntop4_def mac_text_def m del: show_addr.simps)
qed

text \<open>
  C38: \<open>context_print\<close> walks the three linked lists and prints exactly the lines
  of the abstract lists and of the configuration whose level is that of the log or below, in order.
  When level 2 is printed and the name of an interface has no terminator it has no defined result.
\<close>

theorem context_print_refines:
  assumes "tables s ms ss" and "chain_at if_next (iheap s) (ifaces s) xs"
    and "\<forall>(a, i) \<in> set xs. iface_ok i"
  shows "context_print be s =
    (if log_level s < 2 \<or> c_str (lan s) \<noteq> None \<and> c_str (wan s) \<noteq> None
     then Some (printed (log_level s) (context_lines be (map snd xs) (map snd ss) (map snd ms) s))
     else None)"
  using context_print_run [OF assms] unfolding names_printable_def .

lemma sample_iface_lines:
  "iface_lines False sample_iface =
     [(1, ''  Interface br-lan, 1 address(es), MAC=02:04:06:08:0a:0c''), (2, ''    IPv4=10.0.0.1'')]"
  unfolding sample_iface_def by code_simp

theorem context_print_refines_witness:
  "context_print False (sample0\<lparr>log_level := 2, ifaces := 6, iheap := [6 \<mapsto> sample_iface]\<rparr>) = None \<and>
   context_print False (sample0\<lparr>log_level := 1, ifaces := 6, iheap := [6 \<mapsto> sample_iface]\<rparr>) =
     Some (''  Interface br-lan, 1 address(es), MAC=02:04:06:08:0a:0c'' @ [LF])"
proof -
  let ?s = "\<lambda>k. sample0\<lparr>log_level := k, ifaces := 6, iheap := [6 \<mapsto> sample_iface]\<rparr>"
  have t: "tables (?s k) sample_ms sample_ss" for k
    by (rule tables_cong [THEN iffD2, OF _ _ _ _ _ _ sample_tables]) simp_all
  have c: "chain_at if_next (iheap (?s k)) (ifaces (?s k)) [(6, sample_iface)]" for k
    by (simp add: sample_iface_def)
  have ok: "\<forall>(a, i) \<in> set [(6 :: ptr, sample_iface)]. iface_ok i"
    by (simp add: iface_ok_def sample_iface_def)
  have n: "c_str (lan sample0) = None" by (simp add: sample_state_def c_str_def)
  have p: "printed 1 (context_lines False [sample_iface] ns ms s) =
    ''  Interface br-lan, 1 address(es), MAC=02:04:06:08:0a:0c'' @ [LF]" for ns ms s
    unfolding context_lines_def list.map concat.simps sample_iface_lines
    by (simp add: printed_def filter_map comp_def)
  show ?thesis
    using context_print_refines [OF t [of 2] c [of 2] ok, where be = False]
      context_print_refines [OF t [of 1] c [of 1] ok, where be = False]
    by (simp add: n p)
qed

end
