(* ===== verification/Sockets.thy ===== *)
theory Sockets
  imports Samples
begin

text \<open>
  The socket table of \<^verbatim>\<open>src/framework.c\<close>: creating sockets and entering them in the context's
  list, finding one by its descriptor, deleting one, closing all, joining a multicast group.
\<close>

section \<open>Operations\<close>

text \<open>The enumerator that \<open>socket_add\<close> and \<open>socket6_add\<close> store for a protocol.\<close>

definition socket_kind :: "socket_type_t \<Rightarrow> int \<Rightarrow> socket_type_t option" where
  "socket_kind udp ipproto =
     (if ipproto = IPPROTO_UDP then Some udp
      else if ipproto = IPPROTO_TCP then Some SOCKET_TYPE_TCP_LISTENING
      else None)"

text \<open>A \<open>socket_t\<close> cleared by \<open>memset\<close>, then given its state.\<close>

definition blank_socket :: "socket_type_t \<Rightarrow> socket_t" where
  "blank_socket st =
     \<lparr>s_fd = 0, s_ipproto = 0, s_state = st, s_peer = 0, s_peer_addr = 0, s_peer_port = 0,
      s_mcast = 0, s_next = 0\<rparr>"

definition socket_add2 :: "ptr \<Rightarrow> unit M" where
  "socket_add2 sock =
     bindM (getM sockets) (\<lambda>hd.
     thenM (put_socket sock (s_next_update (\<lambda>_. hd)))
           (modifyM (\<lambda>s. s\<lparr>sockets := sock\<rparr>)))"

definition socket_add ::
  "env \<Rightarrow> string \<Rightarrow> u32 \<Rightarrow> int \<Rightarrow> int \<Rightarrow> int \<Rightarrow> int \<Rightarrow> int M" where
  "socket_add e ifname addr port ipproto bindiface reuse =
     bindM (sock_add e ifname addr port ipproto bindiface reuse) (\<lambda>result.
     if result < 0 then returnM (-1)
     else bindM (getM sockets) (\<lambda>hd.
       case socket_kind SOCKET_TYPE_UDP ipproto of
         None \<Rightarrow> exitM (-1)
       | Some st \<Rightarrow>
           bindM (malloc_socket
             ((blank_socket st)\<lparr>s_fd := result, s_ipproto := ipproto, s_next := hd\<rparr>)) (\<lambda>p.
           thenM (modifyM (\<lambda>s. s\<lparr>sockets := p\<rparr>)) (returnM result))))"

definition socket6_add ::
  "env \<Rightarrow> string \<Rightarrow> byte list \<Rightarrow> int \<Rightarrow> int \<Rightarrow> int \<Rightarrow> int \<Rightarrow> int M" where
  "socket6_add e ifname addr port ipproto bindiface reuse =
     bindM (sys e (Sys_socket AF_INET6 SOCK_DGRAM ipproto)) (\<lambda>result.
     if result < 0 then returnM (-1)
     else bindM (getM sockets) (\<lambda>hd.
       case socket_kind SOCKET_TYPE_UDP6 ipproto of
         None \<Rightarrow> exitM (-1)
       | Some st \<Rightarrow>
           bindM (malloc_socket
             ((blank_socket st)\<lparr>s_fd := result, s_ipproto := ipproto, s_next := hd\<rparr>)) (\<lambda>p.
           thenM (modifyM (\<lambda>s. s\<lparr>sockets := p\<rparr>))
           (bindM (getM (\<lambda>s. if bind_ext_nat_pmp_to_natpmp_port s \<noteq> 0
                             then htons (big_endian e) (ucast (natpmp_udp_port s)) else 0)) (\<lambda>bport.
           bindM (sys e (Sys_bind result (Sockaddr_in6 addr bport))) (\<lambda>r.
           if r < 0 then returnM (-1)
           else bindM (getM (\<lambda>s. Sockaddr_in6 (aftrIPv6 s)
                               (htons (big_endian e) (ucast (natpmp_udp_port s))))) (\<lambda>srv.
             bindM (sys e (Sys_connect result srv)) (\<lambda>r.
             if r < 0 then returnM (-1) else returnM result))))))))"

definition socket_find :: "int \<Rightarrow> state \<Rightarrow> ptr option" where
  "socket_find fd s = walk s_next (\<lambda>n. s_fd n = fd) (sheap s) (sockets s)"

text \<open>The loop of \<open>socket_del\<close>: where it stops, and the node before.\<close>

partial_function (option) socket_del_find ::
  "(ptr \<Rightarrow> socket_t option) \<Rightarrow> int \<Rightarrow> ptr \<Rightarrow> ptr \<Rightarrow> (ptr \<times> ptr) option" where
  "socket_del_find h fd s prev =
     (if s = 0 then Some (0, prev)
      else case h s of
             None \<Rightarrow> None
           | Some n \<Rightarrow> if s_fd n = fd then Some (s, prev) else socket_del_find h fd (s_next n) s)"

definition socket_del :: "env \<Rightarrow> int \<Rightarrow> int M" where
  "socket_del e fd =
     bindM (readM (\<lambda>s. socket_del_find (sheap s) fd (sockets s) 0)) (\<lambda>(s, prev).
     if s = 0 then returnM (-1)
     else bindM (socket_at s) (\<lambda>n.
       thenM (if prev \<noteq> 0 then put_socket prev (s_next_update (\<lambda>_. s_next n))
              else modifyM (\<lambda>st. st\<lparr>sockets := s_next n\<rparr>))
       (thenM (sock_del e (s_fd n)) (thenM (free_socket s) (returnM 0)))))"

partial_function (option) sockets_close :: "env \<Rightarrow> state \<Rightarrow> (unit outcome \<times> state) option" where
  "sockets_close e s =
     (if sockets s = 0 then Some (Ret (), s)
      else bindM (socket_at (sockets s)) (\<lambda>n.
           bindM (socket_del e (s_fd n)) (\<lambda>_. sockets_close e)) s)"

definition socket_mcast_join :: "env \<Rightarrow> ptr \<Rightarrow> u32 \<Rightarrow> u32 \<Rightarrow> int M" where
  "socket_mcast_join e sock mc local_addr =
     bindM (socket_at sock) (\<lambda>n.
     bindM (sys e (Sys_setsockopt (s_fd n) (IP_ADD_MEMBERSHIP mc local_addr))) (\<lambda>r.
     if r < 0 then returnM (-1)
     else thenM (put_socket sock (s_mcast_update (\<lambda>_. 1)))
       (bindM (sys e (Sys_setsockopt (s_fd n) SO_REUSEADDR)) (\<lambda>r.
        if r < 0 then returnM (-1)
        else thenM (sys e (Sys_setsockopt (s_fd n) (IP_MULTICAST_LOOP 0))) (returnM 0)))))"

section \<open>Finding a socket\<close>

lemma socket_find_tables:
  "tables s ms ss \<Longrightarrow> socket_find fd s = Some (first_addr (\<lambda>n. s_fd n = fd) ss)"
  by (simp add: socket_find_def tables_def walk_chain)

lemma socket_find_cases:
  assumes "tables s ms ss"
  obtains (none) "socket_find fd s = Some 0" "\<forall>(a, n) \<in> set ss. s_fd n \<noteq> fd"
  | (hit) ys a n zs where "ss = ys @ (a, n) # zs" "socket_find fd s = Some a" "a \<noteq> 0"
      "sheap s a = Some n" "s_fd n = fd" "\<forall>(b, m) \<in> set ys. s_fd m \<noteq> fd"
proof -
  have c: "chain_at s_next (sheap s) (sockets s) ss" using assms by (simp add: tables_def)
  have f: "socket_find fd s = Some (first_addr (\<lambda>n. s_fd n = fd) ss)"
    using assms by (rule socket_find_tables)
  show thesis
    by (rule first_addr_cases [OF c, of "\<lambda>n. s_fd n = fd"]) (use f none hit in auto)
qed

text \<open>A found socket can be read.\<close>

lemma socket_find_at:
  assumes "tables s ms ss" and "first_addr (\<lambda>n. s_fd n = fd) ss \<noteq> 0"
  obtains n where "(first_addr (\<lambda>n. s_fd n = fd) ss, n) \<in> set ss"
    "sheap s (first_addr (\<lambda>n. s_fd n = fd) ss) = Some n" "s_fd n = fd"
proof -
  have "chain_at s_next (sheap s) (sockets s) ss" using assms by (simp add: tables_def)
  then show thesis
    using assms(2) by (cases rule: first_addr_cases [where P = "\<lambda>n. s_fd n = fd"]) (auto intro: that)
qed

section \<open>Deleting a socket\<close>

lemma socket_del_find_none:
  "chain_at s_next h p ss \<Longrightarrow> \<forall>(a, n) \<in> set ss. s_fd n \<noteq> fd \<Longrightarrow>
     \<exists>q. socket_del_find h fd p prev = Some (0, q)"
  by (induction ss arbitrary: p prev) (auto simp: socket_del_find.simps)

lemma socket_del_find_hit:
  "chain_at s_next h p (ys @ (a, n) # zs) \<Longrightarrow> \<forall>(b, m) \<in> set ys. s_fd m \<noteq> fd \<Longrightarrow> s_fd n = fd \<Longrightarrow>
     socket_del_find h fd p prev = Some (a, if ys = [] then prev else fst (last ys))"
  by (induction ys arbitrary: p prev) (auto simp: socket_del_find.simps)

text \<open>Deleting an unknown descriptor changes nothing.\<close>

lemma socket_del_none:
  assumes "tables s ms ss" and "\<forall>(a, n) \<in> set ss. s_fd n \<noteq> fd"
  shows "socket_del e fd s = Some (Ret (-1), s)"
proof -
  obtain q where "socket_del_find (sheap s) fd (sockets s) 0 = Some (0, q)"
    using assms socket_del_find_none unfolding tables_def by blast
  then show ?thesis by (simp add: socket_del_def run_simps)
qed

text \<open>The state after the first socket with the descriptor was unlinked, closed and freed.\<close>

lemma socket_del_hit:
  assumes t: "tables s ms (ys @ (a, n) # zs)"
    and ys: "\<forall>(b, m) \<in> set ys. s_fd m \<noteq> fd" and fd: "s_fd n = fd"
  obtains t ss' where "socket_del e fd s = Some (Ret 0, t)" "tables t ms ss'"
    "sock_view ss' = sock_view (ys @ zs)" "sock_frame s t"
    "hist t = (Sys_close fd, e_ret e (hist s) (Sys_close fd)) # hist s"
    "brk t = brk s" "sheap t a = None"
proof -
  let ?ev = "(Sys_close fd, e_ret e (hist s) (Sys_close fd))"
  have c: "chain_at s_next (sheap s) (sockets s) (ys @ (a, n) # zs)" and mc:
    "chain_at m_next (mheap s) (mappings s) ms" and ok: "heap_ok s"
    using t by (auto simp: tables_def)
  have a: "a \<noteq> 0" "sheap s a = Some n"
    using chain_at_mem [OF c, of a n] by auto
  show thesis
  proof (cases ys rule: rev_cases)
    case Nil
    let ?t = "s\<lparr>sockets := s_next n, sheap := (sheap s)(a := None), hist := ?ev # hist s\<rparr>"
    have "a \<notin> fst ` set zs" using chain_at_distinct [OF c] by (auto simp: image_iff)
    then have "tables ?t ms zs"
      using Nil c mc ok by (auto simp: tables_def heap_ok_def)
    moreover have "socket_del e fd s = Some (Ret 0, ?t)"
      using socket_del_find_hit [OF c ys fd, of 0] a Nil fd
      by (simp add: socket_del_def sock_del_def run_simps)
    moreover have "sock_frame s ?t"
      unfolding sock_frame_def
      by (intro exI [of _ "s_next n"] exI [of _ "(sheap s)(a := None)"] exI [of _ "brk s"]
          exI [of _ "[?ev]"]) simp
    ultimately show thesis using Nil by (intro that [of ?t zs]) simp_all
  next
    case (snoc us v)
    obtain b m where v: "v = (b, m)" by (cases v)
    let ?m = "m\<lparr>s_next := s_next n\<rparr>"
    let ?h = "((sheap s)(b \<mapsto> ?m))(a := None)"
    let ?t = "s\<lparr>sheap := ?h, hist := ?ev # hist s\<rparr>"
    have c': "chain_at s_next (sheap s) (sockets s) (us @ (b, m) # (a, n) # zs)"
      using c snoc v by simp
    have b: "b \<noteq> 0" "sheap s b = Some m" "b \<noteq> a"
      using chain_at_mem [OF c', of b m] chain_at_distinct [OF c'] by auto
    have "chain_at s_next ?h (sockets s) (us @ (b, ?m) # zs)"
      using sc.chain_unlink [OF c'] by simp
    then have "tables ?t ms (us @ (b, ?m) # zs)"
      using mc ok b a by (auto simp: tables_def heap_ok_def)
    moreover have "socket_del e fd s = Some (Ret 0, ?t)"
      using socket_del_find_hit [OF c ys fd, of 0] a b snoc v fd
      by (simp add: socket_del_def sock_del_def run_simps)
    moreover have "sock_frame s ?t"
      unfolding sock_frame_def
      by (intro exI [of _ "sockets s"] exI [of _ ?h] exI [of _ "brk s"] exI [of _ "[?ev]"]) simp
    ultimately show thesis using snoc v by (intro that [of ?t "us @ (b, ?m) # zs"]) simp_all
  qed
qed

text \<open>Either way: the result, and the list afterwards.\<close>

lemma wp_socket_del:
  assumes "tables s ms ss"
  shows "wp (socket_del e fd) (\<lambda>r t. \<exists>ss'. tables t ms ss' \<and> sock_frame s t \<and>
           set (sock_view ss') \<subseteq> set (sock_view ss) \<and> (r = 0 \<or> r = -1)) s"
proof (cases "\<forall>(a, n) \<in> set ss. s_fd n \<noteq> fd")
  case True
  with assms show ?thesis
    using sock_frame.R_refl
    by (simp add: wp_run [OF socket_del_none]) (blast intro: order_refl)
next
  case False
  then obtain ys x zs where ss: "ss = ys @ x # zs" and x: "s_fd (snd x) = fd"
    and ys: "\<forall>y \<in> set ys. s_fd (snd y) \<noteq> fd"
    using split_list_first_prop [of ss "\<lambda>x. s_fd (snd x) = fd"] by fastforce
  obtain a n where "x = (a, n)" by (cases x)
  with ss x ys assms have "tables s ms (ys @ (a, n) # zs)" "\<forall>(b, m) \<in> set ys. s_fd m \<noteq> fd"
    "s_fd n = fd" by auto
  then show ?thesis
  proof (rule socket_del_hit [where e = e])
    fix t ss'
    assume "socket_del e fd s = Some (Ret 0, t)" "tables t ms ss'"
      "sock_view ss' = sock_view (ys @ zs)" "sock_frame s t"
    then show ?thesis
      using ss \<open>x = (a, n)\<close> by (auto simp: wp_run intro!: exI [of _ ss'])
  qed
qed

section \<open>Closing all sockets\<close>

lemma sockets_close_run:
  assumes "tables s ms ss"
  shows "\<exists>t evs. sockets_close e s = Some (Ret (), t) \<and> tables t ms [] \<and> sock_frame s t \<and>
           hist t = rev evs @ hist s \<and> map fst evs = map Sys_close (sock_fds ss)"
  using assms
proof (induction "length ss" arbitrary: s ss)
  case 0
  then show ?case
    by (auto simp: sockets_close.simps tables_def sock_frame.R_refl intro!: exI [of _ "[]"])
next
  case (Suc k)
  from Suc.hyps(2) obtain a n zs where ss: "ss = (a, n) # zs"
    by (cases ss) auto
  with Suc.prems have hd: "sockets s = a" "a \<noteq> 0" "sheap s a = Some n"
    by (auto simp: tables_def)
  let ?ev = "(Sys_close (s_fd n), e_ret e (hist s) (Sys_close (s_fd n)))"
  obtain t ss' where del: "socket_del e (s_fd n) s = Some (Ret 0, t)" "tables t ms ss'"
    "sock_view ss' = sock_view zs" "sock_frame s t" "hist t = ?ev # hist s"
    by (rule socket_del_hit [of s ms "[]" a n zs "s_fd n" e]) (use Suc.prems ss in auto)
  have fds: "sock_fds ss' = sock_fds zs"
    using del(3) by (rule sock_fds_cong)
  have "length ss' = length zs"
    using arg_cong [OF del(3), of length] by simp
  then have k: "k = length ss'"
    using Suc.hyps(2) ss by simp
  obtain u evs where rest:
    "sockets_close e t = Some (Ret (), u)" "tables u ms []" "sock_frame t u"
    "hist u = rev evs @ hist t" "map fst evs = map Sys_close (sock_fds ss')"
    using Suc.hyps(1) [OF k del(2)] by blast
  have "sockets_close e s = Some (Ret (), u)"
    using hd del(1) rest(1) by (subst sockets_close.simps) (simp add: run_simps)
  moreover have "sock_frame s u"
    using del(4) rest(3) by (rule sock_frame.R_trans)
  ultimately show ?case
    using rest del(5) ss fds by (intro exI [of _ u] exI [of _ "?ev # evs"]) simp
qed

section \<open>Adding a socket\<close>

text \<open>A new node in front of the list, or the list as it was.\<close>

lemma wp_socket_add:
  assumes "tables s ms ss" and "port_char_fits port" and "fds_bounded e"
  shows "wp_exit (socket_add e ifn a port q b r)
           (\<lambda>fd t. sock_frame s t \<and> fd < FD_SETSIZE \<and>
              (fd = -1 \<and> tables t ms ss \<or>
               0 \<le> fd \<and> (\<exists>p st. socket_kind SOCKET_TYPE_UDP q = Some st \<and> tables t ms
                 ((p, (blank_socket st)\<lparr>s_fd := fd, s_ipproto := q, s_next := sockets s\<rparr>) # ss)))) s"
  unfolding socket_add_def
proof (rule wp_bindI [OF wp_sock_add [OF assms(2,3)]])
  fix fd t
  assume o: "only_hist s t \<and> fd < FD_SETSIZE"
  then have "only_hist s t" by simp
  then obtain h where t: "t = s\<lparr>hist := h @ hist s\<rparr>" by (auto simp: only_hist_def)
  let ?n = "\<lambda>st. (blank_socket st)\<lparr>s_fd := fd, s_ipproto := q, s_next := sockets s\<rparr>"
  have "tables t ms ss" using t assms(1) by simp
  then have push: "tables (t\<lparr>brk := Suc (brk t), sheap := (sheap t)(brk t \<mapsto> ?n st),
      sockets := brk t\<rparr>) ms ((brk t, ?n st) # ss)" for st
    using t by (intro tables_push_socket) simp_all
  have fr: "sock_frame s (t\<lparr>brk := Suc (brk t), sheap := (sheap t)(brk t \<mapsto> n), sockets := brk t\<rparr>)"
    for n
    using t unfolding sock_frame_def
    by (intro exI [of _ "brk t"] exI [of _ "(sheap t)(brk t \<mapsto> n)"] exI [of _ "Suc (brk t)"]
        exI [of _ h]) simp
  show "wp_exit (if fd < 0 then returnM (- 1)
      else bindM (getM sockets) (\<lambda>hd. case socket_kind SOCKET_TYPE_UDP q of None \<Rightarrow> exitM (- 1)
        | Some st \<Rightarrow> bindM (malloc_socket ((blank_socket st)\<lparr>s_fd := fd, s_ipproto := q, s_next := hd\<rparr>))
            (\<lambda>p. thenM (modifyM (\<lambda>s. s\<lparr>sockets := p\<rparr>)) (returnM fd))))
     (\<lambda>fd t. sock_frame s t \<and> fd < FD_SETSIZE \<and>
        (fd = -1 \<and> tables t ms ss \<or>
         0 \<le> fd \<and> (\<exists>p st. socket_kind SOCKET_TYPE_UDP q = Some st \<and> tables t ms
           ((p, (blank_socket st)\<lparr>s_fd := fd, s_ipproto := q, s_next := sockets s\<rparr>) # ss)))) t"
    using \<open>tables t ms ss\<close> push fr t o only_hist_sock_frame [OF \<open>only_hist s t\<close>]
    by (auto simp: wpx_def run_simps FD_SETSIZE_def split: option.splits)
qed

section \<open>Distinct descriptors\<close>

text \<open>
  When no two sockets of the list have the same descriptor (open descriptors never do), a socket
  is found, and deleted, by its own.
\<close>

lemma fd_unique:
  assumes "distinct (sock_fds (ys @ (a, n) # zs))"
  shows "\<forall>(b, m) \<in> set ys. s_fd m \<noteq> s_fd n" and "\<forall>(b, m) \<in> set zs. s_fd m \<noteq> s_fd n"
  using assms by (force simp: sock_fds_def)+

lemma socket_find_mem:
  assumes t: "tables s ms ss" and d: "distinct (sock_fds ss)" and mem: "(a, n) \<in> set ss"
  shows "socket_find (s_fd n) s = Some a" and "a \<noteq> 0" and "sheap s a = Some n"
proof -
  have c: "chain_at s_next (sheap s) (sockets s) ss" using t by (simp add: tables_def)
  show "a \<noteq> 0" "sheap s a = Some n"
    using chain_at_mem [OF c mem] by simp_all
  obtain ys zs where ss: "ss = ys @ (a, n) # zs"
    using mem by (auto simp: in_set_conv_decomp)
  have "\<forall>(b, m) \<in> set ys. s_fd m \<noteq> s_fd n"
    using fd_unique d ss by blast
  then have "first_addr (\<lambda>m. s_fd m = s_fd n) (ys @ (a, n) # zs) = a"
    by (induction ys) auto
  then show "socket_find (s_fd n) s = Some a"
    using socket_find_tables [OF t] ss by simp
qed

text \<open>The list without the sockets of a descriptor.\<close>

abbreviation drop_fd :: "int \<Rightarrow> (ptr \<times> socket_t) list \<Rightarrow> (ptr \<times> socket_t) list" where
  "drop_fd fd \<equiv> filter (\<lambda>(a, n). s_fd n \<noteq> fd)"

lemma sock_fds_drop_fd: "sock_fds (drop_fd fd ss) = filter (\<lambda>x. x \<noteq> fd) (sock_fds ss)"
  by (induction ss) auto

lemma drop_fd_view: "drop_fd fd (sock_view ss) = sock_view (drop_fd fd ss)"
  by (induction ss) auto

lemma drop_fd_none: "\<forall>(b, m) \<in> set ss. s_fd m \<noteq> fd \<Longrightarrow> drop_fd fd ss = ss"
  by (simp add: filter_id_conv)

lemma socket_del_mem:
  assumes t: "tables s ms ss" and d: "distinct (sock_fds ss)" and fd: "fd \<in> set (sock_fds ss)"
  obtains t ss' where "socket_del e fd s = Some (Ret 0, t)" "tables t ms ss'"
    "sock_view ss' = drop_fd fd (sock_view ss)" "sock_frame s t"
    "hist t = (Sys_close fd, e_ret e (hist s) (Sys_close fd)) # hist s"
proof -
  obtain a n where "(a, n) \<in> set ss" and n: "s_fd n = fd"
    using fd by (auto simp: sock_fds_def)
  then obtain ys zs where ss: "ss = ys @ (a, n) # zs"
    by (auto simp: in_set_conv_decomp)
  have u: "\<forall>(b, m) \<in> set ys. s_fd m \<noteq> fd" "\<forall>(b, m) \<in> set zs. s_fd m \<noteq> fd"
    using fd_unique [of ys a n zs] d ss n by simp_all
  have view: "sock_view (ys @ zs) = drop_fd fd (sock_view ss)"
    using u n ss by (simp add: drop_fd_view drop_fd_none)
  have "tables s ms (ys @ (a, n) # zs)" using t ss by simp
  from socket_del_hit [OF this u(1) n, where e = e]
  obtain t ss' where "socket_del e fd s = Some (Ret 0, t)" "tables t ms ss'"
    "sock_view ss' = sock_view (ys @ zs)" "sock_frame s t"
    "hist t = (Sys_close fd, e_ret e (hist s) (Sys_close fd)) # hist s"
    by metis
  then show thesis using view by (intro that) simp_all
qed

section \<open>Properties\<close>

text \<open>
  C40: when a socket was created but the address cannot be bound, \<open>sock_add\<close> reports
  the error and leaves the new descriptor open, so nobody can close it any more.
\<close>

theorem sock_add_leaks:
  fixes e :: env
  assumes port: "port_char_fits port" and proto: "sock_stype proto = Some ty"
    and ok: "\<And>h a p. e_ret e h (Sys_getaddrinfo a p) = 0" "\<And>h fd x. e_ret e h (Sys_setsockopt fd x) = 0"
      "\<And>h f y q. e_ret e h (Sys_socket f y q) = fd" "0 \<le> fd"
    and bad: "\<And>h fd x. e_ret e h (Sys_bind fd x) = -1"
  shows "\<exists>t. sock_add e ifn addr port proto b r s = Some (Ret LOWLEVEL_ERROR_BIND_FAILED, t) \<and>
    open_fds (hist t) = insert fd (open_fds (hist s))"
proof -
  have "\<not> fd < 0" using ok(4) by simp
  then show ?thesis
    using port by (cases "b = 0"; cases "r = 0"; simp add: sock_add_def run_simps proto ok(1-3) bad)
qed

theorem sock_add_leaks_witness:
  "\<exists>t. sock_add (sample_env\<lparr>e_ret := (\<lambda>h c. case c of Sys_socket _ _ _ \<Rightarrow> 11 | Sys_bind _ _ \<Rightarrow> -1 | _ \<Rightarrow> 0)\<rparr>) ''lan'' 0 5351 17 0 0 sample0 =
     Some (Ret LOWLEVEL_ERROR_BIND_FAILED, t) \<and> open_fds (hist t) = insert 11 (open_fds [])"
  using sock_add_leaks [of 5351 17 SOCK_DGRAM "sample_env\<lparr>e_ret := (\<lambda>h c. case c of Sys_socket _ _ _ \<Rightarrow> 11 | Sys_bind _ _ \<Rightarrow> -1 | _ \<Rightarrow> 0)\<rparr>" 11 "''lan''" 0 0 0 sample0]
  by (simp add: port_char_fits_def sock_stype_def ipproto_defs)

text \<open>
  A UDP socket on a unicast address, every call succeeding: the descriptor is asked for packet information, tied to the interface and made reusable only on request, bound to
  the address and port, and returned; no other descriptor is opened or closed.
\<close>

theorem sock_add_udp:
  fixes e :: env
  assumes port: "port_char_fits port" and addr: "\<not> sock_is_multicast addr"
    and ok: "\<And>h a p. e_ret e h (Sys_getaddrinfo a p) = 0" "\<And>h fd x. e_ret e h (Sys_setsockopt fd x) = 0"
      "\<And>h f y q. e_ret e h (Sys_socket f y q) = fd" "0 \<le> fd"
      "\<And>h fd x. e_ret e h (Sys_bind fd x) = 0"
  shows "\<exists>t evs. sock_add e ifn addr port IPPROTO_UDP b r s = Some (Ret fd, t) \<and>
    hist t = rev evs @ hist s \<and> map fst evs =
      [Sys_getaddrinfo None port, Sys_socket AF_INET SOCK_DGRAM 0, Sys_setsockopt fd IP_PKTINFO] @
      (if b \<noteq> 0 then [Sys_setsockopt fd (SO_BINDTODEVICE ifn)] else []) @
      (if r \<noteq> 0 then [Sys_setsockopt fd SO_REUSEADDR] else []) @
      [Sys_bind fd (Sockaddr_in addr (htons_int (big_endian e) port)), Sys_freeaddrinfo]"
proof -
  have "\<not> fd < 0" using ok(4) by simp
  moreover have "sock_stype IPPROTO_UDP = Some SOCK_DGRAM" "IPPROTO_UDP \<noteq> IPPROTO_TCP"
    by (simp_all add: sock_stype_def ipproto_defs)
  moreover define evs where "evs =
      [(Sys_getaddrinfo None port, 0), (Sys_socket AF_INET SOCK_DGRAM 0, fd),
       (Sys_setsockopt fd IP_PKTINFO, 0)] @
      (if b \<noteq> 0 then [(Sys_setsockopt fd (SO_BINDTODEVICE ifn), 0)] else []) @
      (if r \<noteq> 0 then [(Sys_setsockopt fd SO_REUSEADDR, 0)] else []) @
      [(Sys_bind fd (Sockaddr_in addr (htons_int (big_endian e) port)), 0)]"
  moreover define t where "t = s\<lparr>hist :=
      (Sys_freeaddrinfo, e_ret e (rev evs @ hist s) Sys_freeaddrinfo) # rev evs @ hist s\<rparr>"
  ultimately have run: "sock_add e ifn addr port IPPROTO_UDP b r s = Some (Ret fd, t)"
    using port addr
    by (cases "b = 0"; cases "r = 0";
        simp add: sock_add_def sock_add_finish_def run_simps ok(1-3,5))
  let ?evs = "evs @ [(Sys_freeaddrinfo, e_ret e (rev evs @ hist s) Sys_freeaddrinfo)]"
  have "hist t = rev ?evs @ hist s" by (simp add: t_def)
  moreover have "map fst ?evs =
      [Sys_getaddrinfo None port, Sys_socket AF_INET SOCK_DGRAM 0, Sys_setsockopt fd IP_PKTINFO] @
      (if b \<noteq> 0 then [Sys_setsockopt fd (SO_BINDTODEVICE ifn)] else []) @
      (if r \<noteq> 0 then [Sys_setsockopt fd SO_REUSEADDR] else []) @
      [Sys_bind fd (Sockaddr_in addr (htons_int (big_endian e) port)), Sys_freeaddrinfo]"
    by (simp add: evs_def)
  ultimately show ?thesis using run by blast
qed

theorem sock_add_udp_witness:
  "\<exists>t evs. sock_add (sample_env\<lparr>e_ret := (\<lambda>h c. case c of Sys_socket _ _ _ \<Rightarrow> 11 | _ \<Rightarrow> 0)\<rparr>)
      ''lan'' 0 5351 IPPROTO_UDP 0 1 sample0 = Some (Ret 11, t) \<and> hist t = rev evs \<and>
    map fst evs = [Sys_getaddrinfo None 5351, Sys_socket AF_INET SOCK_DGRAM 0,
      Sys_setsockopt 11 IP_PKTINFO, Sys_setsockopt 11 SO_REUSEADDR,
      Sys_bind 11 (Sockaddr_in 0 (htons_int False 5351)), Sys_freeaddrinfo]"
  using sock_add_udp [of 5351 0 "sample_env\<lparr>e_ret := (\<lambda>h c. case c of Sys_socket _ _ _ \<Rightarrow> 11 | _ \<Rightarrow> 0)\<rparr>"
      11 "''lan''" 0 1 sample0]
  by (simp add: port_char_fits_def sock_is_multicast_def)

section \<open>Properties\<close>

text \<open>
  C15: when descriptors are distinct, \<open>socket_del\<close> refines removing the socket
  with the descriptor from the abstract list: it closes that descriptor and no other, frees its
  node, and leaves the mappings and packets alone.
\<close>

theorem socket_del_refines:
  assumes "tables s ms ss" and "distinct (sock_fds ss)" and "fd \<in> set (sock_fds ss)"
  shows "\<exists>t ss'. socket_del e fd s = Some (Ret 0, t) \<and> tables t ms ss' \<and>
    sock_view ss' = filter (\<lambda>(a, n). s_fd n \<noteq> fd) (sock_view ss) \<and>
    hist t = (Sys_close fd, e_ret e (hist s) (Sys_close fd)) # hist s \<and>
    mheap t = mheap s \<and> pheap t = pheap s"
proof (rule socket_del_mem [OF assms, where e = e])
  fix t ss'
  assume "socket_del e fd s = Some (Ret 0, t)" "tables t ms ss'"
    "sock_view ss' = drop_fd fd (sock_view ss)" "sock_frame s t"
    "hist t = (Sys_close fd, e_ret e (hist s) (Sys_close fd)) # hist s"
  then show ?thesis
    using sock_frame_fields(2,3) by (intro exI [of _ t] exI [of _ ss']) simp
qed

theorem socket_del_refines_witness:
  "\<exists>t ss'. socket_del sample_env 8 sample0 = Some (Ret 0, t) \<and> tables t sample_ms ss' \<and>
    sock_view ss' = [(3, sample_n1\<lparr>s_next := 0\<rparr>)] \<and> hist t = [(Sys_close 8, 0)] \<and>
    mheap t = mheap sample0 \<and> pheap t = pheap sample0"
  using socket_del_refines [OF sample_tables, of 8 sample_env "sample_pkt 17 []"] by simp

text \<open>
  C16: \<open>sockets_close\<close> ends with an empty list of sockets, having closed the
  descriptor of each socket once, in list order; the mappings stay.
\<close>

theorem sockets_close_all:
  assumes "tables s ms ss"
  shows "\<exists>t evs. sockets_close e s = Some (Ret (), t) \<and> tables t ms [] \<and>
    hist t = rev evs @ hist s \<and> map fst evs = map Sys_close (sock_fds ss) \<and> pheap t = pheap s"
  using sockets_close_run [OF assms, of e] sock_frame_fields(3) by blast

theorem sockets_close_all_witness:
  "\<exists>t evs. sockets_close sample_env sample0 = Some (Ret (), t) \<and> tables t sample_ms [] \<and>
    hist t = rev evs @ [] \<and> map fst evs = [Sys_close 7, Sys_close 8] \<and>
    pheap t = pheap sample0"
  using sockets_close_all [OF sample_tables, of sample_env "sample_pkt 17 []"] by simp

end
