(* ===== verification/Mappings.thy ===== *)
theory Mappings
  imports Samples
begin

text \<open>
  The table of address mappings of \<^verbatim>\<open>src/framework.c\<close>: creating a mapping for a client's query,
  linking it, finding the mapping a response belongs to, deleting it, expiring old ones, and the
  time the main loop may sleep.
\<close>

section \<open>Operations\<close>

definition addr_cmp :: "u32 \<Rightarrow> u32 \<Rightarrow> int" where
  "addr_cmp a b = (if a = b then 1 else 0)"

text \<open>The number of nodes of the list, which \<open>mapping_add\<close> computes for its log line.\<close>

definition ctx_mappings_cnt :: "state \<Rightarrow> nat option" where
  "ctx_mappings_cnt s = map_option length (gather m_next (mheap s) (mappings s) [])"

text \<open>The test of \<open>mapping_find\<close>.\<close>

definition mapping_match :: "u32 \<Rightarrow> pkt_t \<Rightarrow> mapping_t \<Rightarrow> bool" where
  "mapping_match mc p m \<longleftrightarrow>
     (addr_cmp (m_aftrIPv4 m) mc \<noteq> 0 \<or> addr_cmp (p_srcIP p) (m_aftrIPv4 m) \<noteq> 0) \<and>
     addr_cmp (p_dstIP p) (m_wanIP m) \<noteq> 0 \<and>
     p_srcPort p = m_routerPort m \<and>
     p_dstPort p = m_wanPort m \<and>
     p_proto p = m_proto m"

definition mapping_find :: "ptr \<Rightarrow> ptr M" where
  "mapping_find pkt =
     bindM (pkt_at pkt) (\<lambda>p.
     readM (\<lambda>s. walk m_next (mapping_match (mcast s) p) (mheap s) (mappings s)))"

text \<open>
  The loop of \<open>mapping_delete\<close>: the node whose \<open>next\<close> is \<open>m\<close>, or \<open>NULL\<close> at the end of the list.
\<close>

partial_function (option) mapping_delete_find ::
  "(ptr \<Rightarrow> mapping_t option) \<Rightarrow> ptr \<Rightarrow> ptr \<Rightarrow> ptr option" where
  "mapping_delete_find h m tmp =
     (case h tmp of
        None \<Rightarrow> None
      | Some n \<Rightarrow>
          if m_next n = 0 then Some 0
          else if m_next n = m then Some tmp
          else mapping_delete_find h m (m_next n))"

text \<open>The first node of the list is unlinked only; any other one is also freed.\<close>

definition mapping_delete :: "ptr \<Rightarrow> int M" where
  "mapping_delete m =
     bindM (getM mappings) (\<lambda>tmp.
     if tmp = m then
       bindM (mapping_at tmp) (\<lambda>n.
       thenM (modifyM (\<lambda>s. s\<lparr>mappings := m_next n\<rparr>)) (returnM 0))
     else
       bindM (readM (\<lambda>s. mapping_delete_find (mheap s) m tmp)) (\<lambda>tmp.
       if tmp = 0 then returnM (-1)
       else bindM (mapping_at m) (\<lambda>n.
         thenM (put_mapping tmp (m_next_update (\<lambda>_. m_next n)))
         (thenM (free_mapping m) (returnM 0)))))"

text \<open>
  The loop of \<open>ctx_mappings_remove_expired\<close>, which starts again at the head after each deletion;
  \<open>i\<close> counts the deletions.
\<close>

partial_function (option) expire_loop ::
  "int \<Rightarrow> nat \<Rightarrow> ptr \<Rightarrow> state \<Rightarrow> (nat outcome \<times> state) option" where
  "expire_loop now i m s =
     (if m = 0 then Some (Ret i, s)
      else case mheap s m of
             None \<Rightarrow> None
           | Some n \<Rightarrow>
               if sint (m_timeout n) \<le> now
               then bindM (mapping_delete m) (\<lambda>_. bindM (getM mappings) (\<lambda>hd.
                      expire_loop now (Suc i) hd)) s
               else expire_loop now i (m_next n) s)"

definition ctx_mappings_remove_expired :: "env \<Rightarrow> nat M" where
  "ctx_mappings_remove_expired e =
     bindM (sys e Sys_time) (\<lambda>now. bindM (getM mappings) (\<lambda>m. expire_loop now 0 m))"

text \<open>The loop of \<open>ctx_timeout_get\<close>, in unsigned 32-bit arithmetic.\<close>

partial_function (option) timeout_loop ::
  "(ptr \<Rightarrow> mapping_t option) \<Rightarrow> u32 \<Rightarrow> ptr \<Rightarrow> u32 \<Rightarrow> u32 option" where
  "timeout_loop h now m tmo =
     (if m = 0 then Some tmo
      else case h m of
             None \<Rightarrow> None
           | Some n \<Rightarrow>
               if m_timeout n < now then Some 0
               else timeout_loop h now (m_next n)
                      (if m_timeout n - now < tmo then m_timeout n - now else tmo))"

definition ctx_timeout_get :: "env \<Rightarrow> u32 M" where
  "ctx_timeout_get e =
     bindM (sys e Sys_time) (\<lambda>now.
     bindM (readM (\<lambda>s. timeout_loop (mheap s) (word_of_int now) (mappings s) 3600)) (\<lambda>tmo.
     returnM (if tmo = 0 then 1 else tmo)))"

text \<open>
  Both branches of \<open>mapping_create\<close> fill the same fields from the packet; they differ in the
  address the query goes to.
\<close>

definition mapping_create :: "env \<Rightarrow> ptr \<Rightarrow> int \<Rightarrow> ptr M" where
  "mapping_create e pkt sock =
     bindM (pkt_at pkt) (\<lambda>p.
     bindM (sock_get_port e sock) (\<lambda>port.
     bindM (getM (\<lambda>s. (wanIP s, if addr_cmp (p_dstIP p) (mcast s) = 0 then aftrIPv4 s else mcast s)))
       (\<lambda>(wan, target).
     malloc_mapping
       \<lparr>m_clientIP = p_srcIP p, m_lanIP = p_dstIP p, m_wanIP = wan, m_aftrIPv4 = target,
        m_proto = p_proto p, m_clientPort = p_srcPort p, m_lanPort = p_dstPort p,
        m_wanPort = port, m_routerPort = p_dstPort p, m_lanSock = p_sock p, m_wanSock = sock,
        m_timeout = 0, m_next = 0\<rparr>)))"

definition mapping_add :: "env \<Rightarrow> ptr \<Rightarrow> unit M" where
  "mapping_add e m =
     bindM (getM mappings) (\<lambda>hd.
     thenM (put_mapping m (m_next_update (\<lambda>_. hd)))
     (bindM (sys e Sys_time) (\<lambda>now.
      bindM (getM timeout) (\<lambda>tmo.
      thenM (put_mapping m (m_timeout_update (\<lambda>_. word_of_int (now + tmo))))
      (thenM (modifyM (\<lambda>s. s\<lparr>mappings := m\<rparr>))
      (thenM (readM ctx_mappings_cnt) (returnM ())))))))"

section \<open>Finding a mapping\<close>

lemma mapping_match_view [simp]: "mapping_match mc p (m\<lparr>m_next := q\<rparr>) = mapping_match mc p m"
  by (simp add: mapping_match_def)

lemma mapping_find_run:
  assumes "tables s ms ss" and "pheap s pkt = Some p"
  shows "mapping_find pkt s = Some (Ret (first_addr (mapping_match (mcast s) p) ms), s)"
proof -
  have "chain_at m_next (mheap s) (mappings s) ms" using assms by (simp add: tables_def)
  then show ?thesis using assms(2) by (simp add: mapping_find_def run_simps walk_chain [of m_next])
qed

section \<open>Deleting a mapping\<close>

lemma mapping_delete_find_hit:
  "chain_at m_next h p (ys @ (b, n) # (a, m) # zs) \<Longrightarrow> mapping_delete_find h a p = Some b"
proof (induction ys arbitrary: p)
  case Nil
  then have "p = b" "h b = Some n" "m_next n = a" "a \<noteq> 0" by simp_all
  then show ?case by (subst mapping_delete_find.simps) simp
next
  case (Cons y ys)
  obtain c k where y: "y = (c, k)" by (cases y)
  have "distinct (map fst (y # ys @ (b, n) # (a, m) # zs))"
    using chain_at_distinct [OF Cons.prems] by simp
  then have "m_next k \<noteq> a" "m_next k \<noteq> 0"
    using Cons.prems y by (cases ys; auto)+
  moreover have "mapping_delete_find h a (m_next k) = Some b"
    using Cons y by auto
  ultimately show ?case
    using Cons.prems y by (subst mapping_delete_find.simps) auto
qed

text \<open>
  Deleting a mapping of the list: the list without it, no system call, and the node freed unless
  it was the first.
\<close>

lemma mapping_delete_hit:
  assumes t: "tables s (ys @ (a, m) # zs) ss"
  obtains t ms' where "mapping_delete a s = Some (Ret 0, t)" "tables t ms' ss"
    "map_view ms' = map_view (ys @ zs)" "map_frame s t" "hist t = hist s" "brk t = brk s"
    "mheap t a = (if ys = [] then Some m else None)"
proof -
  have c: "chain_at m_next (mheap s) (mappings s) (ys @ (a, m) # zs)" and sc:
    "chain_at s_next (sheap s) (sockets s) ss" and ok: "heap_ok s"
    using t by (auto simp: tables_def)
  have a: "a \<noteq> 0" "mheap s a = Some m"
    using chain_at_mem [OF c, of a m] by auto
  show thesis
  proof (cases ys rule: rev_cases)
    case Nil
    let ?t = "s\<lparr>mappings := m_next m\<rparr>"
    have "tables ?t zs ss"
      using Nil c sc ok by (auto simp: tables_def heap_ok_def)
    moreover have "mapping_delete a s = Some (Ret 0, ?t)"
      using Nil c a by (simp add: mapping_delete_def run_simps)
    moreover have "map_frame s ?t"
      unfolding map_frame_def
      by (intro exI [of _ "m_next m"] exI [of _ "mheap s"] exI [of _ "brk s"] exI [of _ "[]"]) simp
    ultimately show thesis using Nil a by (intro that [of ?t zs]) simp_all
  next
    case (snoc us v)
    obtain b n where v: "v = (b, n)" by (cases v)
    let ?n = "n\<lparr>m_next := m_next m\<rparr>"
    let ?h = "((mheap s)(b \<mapsto> ?n))(a := None)"
    let ?t = "s\<lparr>mheap := ?h\<rparr>"
    have c': "chain_at m_next (mheap s) (mappings s) (us @ (b, n) # (a, m) # zs)"
      using c snoc v by simp
    have d: "distinct (map fst (us @ (b, n) # (a, m) # zs))"
      using chain_at_distinct [OF c'] .
    have b: "b \<noteq> 0" "mheap s b = Some n" "b \<noteq> a"
      using chain_at_mem [OF c', of b n] d by auto
    have "mappings s \<noteq> a"
      using c' d by (cases us) auto
    have "chain_at m_next ?h (mappings s) (us @ (b, ?n) # zs)"
      using mc.chain_unlink [OF c'] by simp
    then have "tables ?t (us @ (b, ?n) # zs) ss"
      using sc ok b a by (auto simp: tables_def heap_ok_def)
    moreover have "mapping_delete a s = Some (Ret 0, ?t)"
      using mapping_delete_find_hit [OF c'] a b \<open>mappings s \<noteq> a\<close>
      by (simp add: mapping_delete_def run_simps)
    moreover have "map_frame s ?t"
      unfolding map_frame_def
      by (intro exI [of _ "mappings s"] exI [of _ ?h] exI [of _ "brk s"] exI [of _ "[]"]) simp
    ultimately show thesis
      using snoc v by (intro that [of ?t "us @ (b, ?n) # zs"]) simp_all
  qed
qed

section \<open>Expiry\<close>

text \<open>A mapping that \<open>ctx_mappings_remove_expired\<close> keeps at time \<open>now\<close>.\<close>

definition alive :: "int \<Rightarrow> mapping_t \<Rightarrow> bool" where
  "alive now m \<longleftrightarrow> now < sint (m_timeout m)"

abbreviation live_part :: "int \<Rightarrow> (ptr \<times> mapping_t) list \<Rightarrow> (ptr \<times> mapping_t) list" where
  "live_part now \<equiv> filter (\<lambda>(a, m). alive now m)"

lemma alive_next [simp]: "alive now (m\<lparr>m_next := q\<rparr>) = alive now m"
  by (simp add: alive_def)

lemma live_part_view: "live_part now (map_view ms) = map_view (live_part now ms)"
  by (induction ms) auto

lemma live_part_id: "\<forall>(a, m) \<in> set ms. alive now m \<Longrightarrow> live_part now ms = ms"
  by (simp add: filter_id_conv)

text \<open>
  The loop from any point of the list, everything before it being alive: it ends, and keeps the
  mappings that are alive, in their order.
\<close>

lemma expire_loop_run:
  assumes "tables s (pre @ post) ss" and "chain_at m_next (mheap s) p post"
    and "\<forall>(a, m) \<in> set pre. alive now m" and "length (pre @ post) = n"
  shows "\<exists>t ms'. expire_loop now i p s =
             Some (Ret (i + length post - length (live_part now post)), t) \<and> tables t ms' ss \<and>
           map_view ms' = live_part now (map_view (pre @ post)) \<and>
           map_frame s t \<and> hist t = hist s"
  using assms
proof (induction n arbitrary: s pre post p i rule: less_induct)
  case (less n)
  note outer = less.IH
  from less.prems show ?case
  proof (induction post arbitrary: pre p)
    case Nil
    then have "p = 0" "live_part now (map_view pre) = map_view pre"
      by (auto simp: live_part_view live_part_id)
    with Nil show ?case
      by (simp add: expire_loop.simps) (blast intro: map_frame.R_refl)
  next
    case (Cons x zs)
    obtain a m where x: "x = (a, m)" by (cases x)
    with Cons.prems have p: "p = a" "a \<noteq> 0" "mheap s a = Some m"
      "chain_at m_next (mheap s) (m_next m) zs" by auto
    show ?case
    proof (cases "alive now m")
      case True
      with Cons.prems x have "\<exists>t ms'. expire_loop now i (m_next m) s =
             Some (Ret (i + length zs - length (live_part now zs)), t) \<and> tables t ms' ss \<and>
           map_view ms' = live_part now (map_view ((pre @ [x]) @ zs)) \<and>
           map_frame s t \<and> hist t = hist s"
        by (intro Cons.IH p) auto
      moreover have "expire_loop now i p s = expire_loop now i (m_next m) s"
        using p True by (subst expire_loop.simps) (simp add: alive_def)
      moreover have "i + length (x # zs) - length (live_part now (x # zs)) =
          i + length zs - length (live_part now zs)"
        using True x length_filter_le [of "\<lambda>(a, m). alive now m" zs] by simp
      ultimately show ?thesis by simp
    next
      case False
      have t0: "tables s (pre @ (a, m) # zs) ss"
        using Cons.prems(1) x by simp
      obtain t ms' where del: "mapping_delete a s = Some (Ret 0, t)" "tables t ms' ss"
        "map_view ms' = map_view (pre @ zs)" "map_frame s t" "hist t = hist s"
        by (rule mapping_delete_hit [OF t0])
      have len: "length ms' = length (pre @ zs)"
        using arg_cong [OF del(3), of length] by simp
      have "chain_at m_next (mheap t) (mappings t) ms'"
        using del(2) by (simp add: tables_def)
      then obtain u ms2 where rest: "expire_loop now (Suc i) (mappings t) t =
             Some (Ret (Suc i + length ms' - length (live_part now ms')), u)" "tables u ms2 ss"
           "map_view ms2 = live_part now (map_view ms')" "map_frame t u" "hist u = hist t"
        using outer [of "length ms'" t "[]" ms' "mappings t" "Suc i"] del(2) len Cons.prems(4)
        by auto
      have kept: "live_part now (map_view ms') = live_part now (map_view (pre @ x # zs))"
        using del(3) False x by simp
      have "length (live_part now ms') = length (live_part now (pre @ x # zs))"
        using arg_cong [OF kept, of length] by (simp add: live_part_view del: map_view_simps(3))
      also have "\<dots> = length pre + length (live_part now (x # zs))"
        using Cons.prems(3) by (simp add: live_part_id)
      finally have "Suc i + length ms' - length (live_part now ms') =
          i + length (x # zs) - length (live_part now (x # zs))"
        using len by simp
      moreover have "expire_loop now i p s = expire_loop now (Suc i) (mappings t) t"
        using p False del(1) by (subst expire_loop.simps) (simp add: alive_def run_simps)
      ultimately show ?thesis
        using rest kept del(4,5) map_frame.R_trans by (metis (no_types, lifting))
    qed
  qed
qed

text \<open>The whole operation, at the time the kernel reports.\<close>

lemma remove_expired_run:
  fixes e :: env
  assumes "tables s ms ss"
  defines "now \<equiv> e_ret e (hist s) Sys_time"
  shows "\<exists>t ms'. ctx_mappings_remove_expired e s =
             Some (Ret (length ms - length (live_part now ms)), t) \<and> tables t ms' ss \<and>
           map_view ms' = live_part now (map_view ms) \<and>
           map_frame s t \<and> hist t = (Sys_time, now) # hist s"
proof -
  let ?s = "s\<lparr>hist := (Sys_time, now) # hist s\<rparr>"
  have t: "tables ?s ms ss" using assms by simp
  then have c: "chain_at m_next (mheap ?s) (mappings ?s) ms" by (simp add: tables_def)
  obtain t ms' where
    "expire_loop now 0 (mappings ?s) ?s =
       Some (Ret (0 + length ms - length (live_part now ms)), t)"
    "tables t ms' ss" "map_view ms' = live_part now (map_view ms)" "map_frame ?s t"
    "hist t = hist ?s"
    using expire_loop_run [of ?s "[]" ms ss "mappings ?s" now "length ms" 0] t c by auto
  moreover have "map_frame s ?s"
    by (rule only_hist_map_frame) simp
  ultimately show ?thesis
    by (auto simp: ctx_mappings_remove_expired_def now_def run_simps intro: map_frame.R_trans)
qed

section \<open>The time to sleep\<close>

text \<open>
  What the loop of \<open>ctx_timeout_get\<close> computes: 0 when some mapping's time is past (as unsigned
  numbers), else the least of the remaining times and the given one.
\<close>

definition sleep_time :: "u32 \<Rightarrow> (ptr \<times> mapping_t) list \<Rightarrow> u32 \<Rightarrow> u32" where
  "sleep_time now ms tmo =
     (if \<exists>(a, m) \<in> set ms. m_timeout m < now then 0
      else fold (\<lambda>(a, m). min (m_timeout m - now)) ms tmo)"

lemma timeout_loop_run:
  "chain_at m_next h p ms \<Longrightarrow> timeout_loop h now p tmo = Some (sleep_time now ms tmo)"
proof (induction ms arbitrary: p tmo)
  case Nil
  then show ?case by (simp add: timeout_loop.simps sleep_time_def)
next
  case (Cons x ms)
  obtain a m where x: "x = (a, m)" by (cases x)
  with Cons.prems have p: "p = a" "a \<noteq> 0" "h a = Some m" "chain_at m_next h (m_next m) ms"
    by auto
  show ?case
    using p Cons.IH [OF p(4)] x
    by (subst timeout_loop.simps) (auto simp: sleep_time_def min_def)
qed

lemma fold_min_Min:
  "fold (\<lambda>(a, m). min (m_timeout m - now)) ms (tmo :: u32) =
     Min (insert tmo ((\<lambda>(a, m). m_timeout m - now) ` set ms))"
proof (induction ms arbitrary: tmo)
  case Nil
  then show ?case by simp
next
  case (Cons x ms)
  obtain a m where x: "x = (a, m)" by (cases x)
  let ?X = "(\<lambda>(a, m). m_timeout m - now) ` set ms"
  have "Min (insert (min (m_timeout m - now) tmo) ?X) = Min (insert tmo (insert (m_timeout m - now) ?X))"
    by (cases "?X = {}") (simp_all add: min.assoc min.commute min.left_commute)
  then show ?case by (simp add: x Cons.IH)
qed

text \<open>The time to sleep: a second where nothing is left to wait for.\<close>

lemma sleep_time_Min:
  "let r = (let t = sleep_time now ms 3600 in if t = 0 then 1 else t) in
   if \<exists>(a, m) \<in> set ms. m_timeout m \<le> now then r = 1
   else r = Min (insert 3600 ((\<lambda>(a, m). m_timeout m - now) ` set ms)) \<and> 1 \<le> r"
proof -
  let ?X = "insert 3600 ((\<lambda>(a, m). m_timeout m - now) ` set ms)"
  have pos: "1 \<le> r" if "r \<noteq> 0" for r :: u32
    using that by (simp add: word_le_nat_alt Suc_le_eq unat_gt_0)
  consider "\<exists>(a, m) \<in> set ms. m_timeout m < now"
    | "\<exists>(a, m) \<in> set ms. m_timeout m = now" "\<not> (\<exists>(a, m) \<in> set ms. m_timeout m < now)"
    | "\<not> (\<exists>(a, m) \<in> set ms. m_timeout m \<le> now)"
    by (auto simp: order_le_less split: prod.splits)
  then show ?thesis
  proof cases
    case 1
    then show ?thesis by (auto simp: sleep_time_def split: prod.splits)
  next
    case 2
    then have "0 \<in> ?X" by force
    then have "Min ?X = 0" by (intro Min_eqI) auto
    then have "sleep_time now ms 3600 = 0" using 2(2) by (auto simp: sleep_time_def fold_min_Min)
    moreover have "\<exists>(a, m) \<in> set ms. m_timeout m \<le> now" using 2(1) by (auto intro: eq_refl)
    ultimately show ?thesis by (simp add: Let_def)
  next
    case 3
    then have "m_timeout m - now \<noteq> 0" if "(a, m) \<in> set ms" for a m using that by fastforce
    then have "Min ?X \<noteq> 0" using Min_in [of ?X] by auto
    moreover have "sleep_time now ms 3600 = Min ?X"
      using 3 by (auto simp: sleep_time_def fold_min_Min dest: less_imp_le)
    moreover have "1 \<le> Min ?X" using \<open>Min ?X \<noteq> 0\<close> by (rule pos)
    ultimately show ?thesis using 3 unfolding Let_def by (simp del: Min_insert)
  qed
qed

lemma ctx_timeout_get_run:
  fixes e :: env
  assumes "tables s ms ss"
  defines "now \<equiv> e_ret e (hist s) Sys_time"
  shows "ctx_timeout_get e s =
    Some (Ret (let t = sleep_time (word_of_int now) ms 3600 in if t = 0 then 1 else t),
      s\<lparr>hist := (Sys_time, now) # hist s\<rparr>)"
proof -
  have "chain_at m_next (mheap s) (mappings s) ms" using assms by (simp add: tables_def)
  from timeout_loop_run [OF this] show ?thesis
    by (simp add: ctx_timeout_get_def run_simps now_def Let_def)
qed

section \<open>Adding a mapping\<close>

text \<open>The mapping \<open>mapping_create\<close> fills in for a packet.\<close>

definition new_mapping :: "state \<Rightarrow> pkt_t \<Rightarrow> int \<Rightarrow> int \<Rightarrow> mapping_t" where
  "new_mapping s p sock port =
     \<lparr>m_clientIP = p_srcIP p, m_lanIP = p_dstIP p, m_wanIP = wanIP s,
      m_aftrIPv4 = (if p_dstIP p = mcast s then mcast s else aftrIPv4 s),
      m_proto = p_proto p, m_clientPort = p_srcPort p, m_lanPort = p_dstPort p,
      m_wanPort = port, m_routerPort = p_dstPort p, m_lanSock = p_sock p, m_wanSock = sock,
      m_timeout = 0, m_next = 0\<rparr>"

lemma mapping_create_run:
  assumes "pheap s pkt = Some p"
  shows "mapping_create e pkt sock s =
    Some (Ret (brk s),
      s\<lparr>hist := (Sys_getsockname sock, e_ret e (hist s) (Sys_getsockname sock)) # hist s,
        brk := Suc (brk s),
        mheap := (mheap s)(brk s \<mapsto> new_mapping s p sock (local_port e (hist s) sock))\<rparr>)"
  using assms
  by (simp add: mapping_create_def run_simps sock_get_port_run new_mapping_def addr_cmp_def)

lemma mapping_add_run:
  fixes e :: env
  assumes t: "tables s ms ss" and a: "mheap s a = Some m" "a \<noteq> 0" "a \<notin> fst ` set ms"
  defines "now \<equiv> e_ret e (hist s) Sys_time"
  defines "m' \<equiv> m\<lparr>m_next := mappings s, m_timeout := word_of_int (now + timeout s)\<rparr>"
  shows "mapping_add e a s =
      Some (Ret (), s\<lparr>hist := (Sys_time, now) # hist s, mheap := (mheap s)(a \<mapsto> m'), mappings := a\<rparr>)"
    and "tables (s\<lparr>hist := (Sys_time, now) # hist s, mheap := (mheap s)(a \<mapsto> m'), mappings := a\<rparr>)
           ((a, m') # ms) ss"
proof -
  let ?t = "s\<lparr>hist := (Sys_time, now) # hist s, mheap := (mheap s)(a \<mapsto> m'), mappings := a\<rparr>"
  have c: "chain_at m_next (mheap s) (mappings s) ms" using t by (simp add: tables_def)
  then have c': "chain_at m_next ((mheap s)(a \<mapsto> m')) a ((a, m') # ms)"
    using a by (intro mc.chain_push) (simp_all add: m'_def)
  then have cnt: "ctx_mappings_cnt ?t = Some (length ((a, m') # ms))"
    unfolding ctx_mappings_cnt_def by (simp add: gather_chain [OF c'] del: fun_upd_apply)
  then show "mapping_add e a s = Some (Ret (), ?t)"
    using a by (simp add: mapping_add_def run_simps now_def m'_def fun_upd_same)
  show "tables ?t ((a, m') # ms) ss"
    using t c' a by (auto simp: tables_def heap_ok_def)
qed

section \<open>Properties\<close>

text \<open>
  C18: \<open>mapping_find\<close> returns the first mapping of the list that a packet answers,
  and \<open>NULL\<close> exactly when there is none; it changes nothing. A packet answers a mapping when it comes
  from the address the query went to (from any address, if that was the multicast group) and from the
  port the query went to, and is sent to the WAN address and port the query came from, with the same
  protocol.
\<close>

theorem mapping_find_spec:
  assumes "tables s ms ss" and "pheap s pkt = Some p"
  defines "answers \<equiv> \<lambda>n. (m_aftrIPv4 n = mcast s \<or> m_aftrIPv4 n = p_srcIP p) \<and>
    m_wanIP n = p_dstIP p \<and> m_routerPort n = p_srcPort p \<and> m_wanPort n = p_dstPort p \<and>
    m_proto n = p_proto p"
  shows "\<exists>a. mapping_find pkt s = Some (Ret a, s) \<and>
    (a = 0 \<and> (\<forall>(b, n) \<in> set ms. \<not> answers n) \<or>
     (\<exists>ys m zs. ms = ys @ (a, m) # zs \<and> answers m \<and> (\<forall>(b, n) \<in> set ys. \<not> answers n)))"
proof -
  have "chain_at m_next (mheap s) (mappings s) ms" using assms by (simp add: tables_def)
  moreover have "mapping_match (mcast s) p = answers"
    by (auto simp: answers_def mapping_match_def addr_cmp_def fun_eq_iff)
  ultimately show ?thesis
    using mapping_find_run [OF assms(1,2)]
    by (cases rule: first_addr_cases [where P = "mapping_match (mcast s) p"]) auto
qed

text \<open>An answer for the second sample mapping, from the address and port its query went to.\<close>

theorem mapping_find_spec_witness:
  "mapping_find 5 (sample_state ((sample_pkt 17 [])\<lparr>p_srcPort := 1900\<rparr>)) =
     Some (Ret 2, sample_state ((sample_pkt 17 [])\<lparr>p_srcPort := 1900\<rparr>)) \<and>
   mapping_find 5 (sample_state ((sample_pkt 17 [])\<lparr>p_dstPort := 6001\<rparr>)) =
     Some (Ret 0, sample_state ((sample_pkt 17 [])\<lparr>p_dstPort := 6001\<rparr>))"
proof -
  let ?p = "(sample_pkt 17 [])\<lparr>p_srcPort := 1900\<rparr>" and ?q = "(sample_pkt 17 [])\<lparr>p_dstPort := 6001\<rparr>"
  have "\<exists>a. mapping_find 5 (sample_state ?p) = Some (Ret a, sample_state ?p) \<and> a = 2"
    using mapping_find_spec [OF sample_tables sample_fields(1), of ?p]
    by (auto simp: sample_pkt_def sample_m1_def sample_m2_def ipproto_defs Cons_eq_append_conv)
  moreover have "\<exists>a. mapping_find 5 (sample_state ?q) = Some (Ret a, sample_state ?q) \<and> a = 0"
    using mapping_find_spec [OF sample_tables sample_fields(1), of ?q]
    by (auto simp: sample_pkt_def sample_m1_def sample_m2_def ipproto_defs Cons_eq_append_conv)
  ultimately show ?thesis by simp
qed

text \<open>
  C7: deleting a mapping of the list refines removing it from the abstract
  list, the others kept in order with their contents; no call is made, the sockets and packets are
  untouched. The memory of the deleted mapping is freed unless it was the first of the list.
\<close>

theorem mapping_delete_refines:
  assumes "tables s ms ss" and "(a, m) \<in> set ms"
  shows "\<exists>t ms'. mapping_delete a s = Some (Ret 0, t) \<and> tables t ms' ss \<and>
    map_view ms' = filter (\<lambda>(b, n). b \<noteq> a) (map_view ms) \<and>
    hist t = hist s \<and> pheap t = pheap s \<and> sheap t = sheap s \<and>
    (mheap t a = None \<longleftrightarrow> mappings s \<noteq> a)"
proof -
  obtain ys zs where ms: "ms = ys @ (a, m) # zs"
    using assms(2) by (auto simp: in_set_conv_decomp)
  have c: "chain_at m_next (mheap s) (mappings s) (ys @ (a, m) # zs)"
    using assms(1) ms by (simp add: tables_def)
  from chain_at_distinct [OF c] have d: "a \<notin> fst ` set ys" "a \<notin> fst ` set zs"
    by (auto simp: image_iff)
  have keep: "filter (\<lambda>(b, n). b \<noteq> a) (map_view us) = map_view us" if "a \<notin> fst ` set us" for us
    using that by (induction us) auto
  have first: "mappings s \<noteq> a \<longleftrightarrow> ys \<noteq> []"
    using c d by (cases ys) auto
  from assms(1) ms have "tables s (ys @ (a, m) # zs) ss" by simp
  then obtain t ms' where "mapping_delete a s = Some (Ret 0, t)" "tables t ms' ss"
    "map_view ms' = map_view (ys @ zs)" "map_frame s t" "hist t = hist s"
    "mheap t a = (if ys = [] then Some m else None)"
    by (rule mapping_delete_hit)
  then show ?thesis
    using ms first keep [OF d(1)] keep [OF d(2)] map_frame_fields(2,3)
    by (intro exI [of _ t] exI [of _ ms']) simp
qed

theorem mapping_delete_refines_witness:
  "\<exists>t ms'. mapping_delete 2 sample0 = Some (Ret 0, t) \<and> tables t ms' sample_ss \<and>
    map_view ms' = filter (\<lambda>(b, n). b \<noteq> 2) (map_view sample_ms) \<and>
    hist t = [] \<and> pheap t = pheap sample0 \<and> sheap t = sheap sample0 \<and>
    (mheap t 2 = None \<longleftrightarrow> mappings sample0 \<noteq> 2)"
  using mapping_delete_refines [OF sample_tables, of 2 sample_m2 "sample_pkt 17 []"] by simp

text \<open>
  C8: \<open>ctx_mappings_remove_expired\<close> ends, asks the time once, and keeps
  exactly the mappings whose time is after it, in their order; it counts the others.
\<close>

theorem remove_expired_spec:
  fixes e :: env
  assumes "tables s ms ss"
  defines "now \<equiv> e_ret e (hist s) Sys_time"
  shows "\<exists>t ms'. ctx_mappings_remove_expired e s =
             Some (Ret (length (filter (\<lambda>(a, m). sint (m_timeout m) \<le> now) ms)), t) \<and>
           tables t ms' ss \<and>
           map_view ms' = filter (\<lambda>(a, m). now < sint (m_timeout m)) (map_view ms) \<and>
           hist t = (Sys_time, now) # hist s \<and> sheap t = sheap s \<and> pheap t = pheap s"
proof -
  have "length ms - length (live_part now ms) = length (filter (\<lambda>(a, m). sint (m_timeout m) \<le> now) ms)"
    by (induction ms) (auto simp: alive_def Suc_diff_le)
  then show ?thesis
    using remove_expired_run [OF assms(1), of e] map_frame_fields(2,3)
    unfolding now_def alive_def by fastforce
qed

theorem remove_expired_spec_witness:
  "\<exists>t ms'. ctx_mappings_remove_expired sample_env sample0 =
             Some (Ret 1, t) \<and>
           tables t ms' sample_ss \<and> map_view ms' = [(1, sample_m1\<lparr>m_next := 0\<rparr>)] \<and>
           hist t = [(Sys_time, 1000)] \<and> sheap t = sheap sample0 \<and>
           pheap t = pheap sample0"
  using remove_expired_spec [OF sample_tables, of sample_env "sample_pkt 17 []"]
  by (simp add: sample_m1_def sample_m2_def)

text \<open>
  C17: the time \<open>wait_for_traffic\<close> may sleep is one second when the time of some mapping
  has come; otherwise it is the least of one hour and of the seconds left to each mapping, so it is at
  least one second and passes the time of no mapping. Times are compared as unsigned numbers.
\<close>

theorem sleep_bounds:
  fixes e :: env
  assumes "tables s ms ss"
  defines "now \<equiv> word_of_int (e_ret e (hist s) Sys_time) :: u32"
  shows "\<exists>r t. ctx_timeout_get e s = Some (Ret r, t) \<and> hist t = (Sys_time, e_ret e (hist s) Sys_time) # hist s \<and>
    (if \<exists>(a, m) \<in> set ms. m_timeout m \<le> now then r = 1
     else r = Min (insert 3600 ((\<lambda>(a, m). m_timeout m - now) ` set ms)) \<and> 1 \<le> r)"
proof -
  define r where "r = (let t = sleep_time now ms 3600 in if t = 0 then 1 else t)"
  let ?t = "s\<lparr>hist := (Sys_time, e_ret e (hist s) Sys_time) # hist s\<rparr>"
  have "ctx_timeout_get e s = Some (Ret r, ?t)"
    using ctx_timeout_get_run [OF assms(1), of e] unfolding r_def now_def .
  moreover have "hist ?t = (Sys_time, e_ret e (hist s) Sys_time) # hist s" by simp
  ultimately show ?thesis
    using sleep_time_Min [of now ms] unfolding r_def [symmetric] by (metis (no_types, lifting))
qed

text \<open>With the sample mappings, whose times are 1010 and 990: at 1000, and at 980.\<close>

theorem sleep_bounds_witness:
  "(\<exists>t. ctx_timeout_get sample_env sample0 = Some (Ret 1, t)) \<and>
   (\<exists>t. ctx_timeout_get (sample_env\<lparr>e_ret := \<lambda>_ _. 980\<rparr>) sample0 = Some (Ret 10, t))"
  using sleep_bounds [OF sample_tables, of sample_env "sample_pkt 17 []"]
    sleep_bounds [OF sample_tables, of "sample_env\<lparr>e_ret := \<lambda>_ _. 980\<rparr>" "sample_pkt 17 []"]
  by (auto simp: sample_m1_def sample_m2_def)

end
