(* ===== verification/Receive.thy ===== *)
theory Receive
  imports Sockets Mappings Printing
begin

text \<open>
  Waiting for traffic and receiving it (\<^verbatim>\<open>src/framework.c\<close>): one packet from a UDP, an IPv6 UDP or
  a connected TCP socket, a new TCP connection on a listening socket, and \<open>wait_for_traffic\<close>,
  which selects on all sockets of the context and serves the first that is ready.
\<close>

section \<open>Operations\<close>

text \<open>The size of the receive buffer.\<close>

definition RECV_LEN :: nat where "RECV_LEN = 1500"

text \<open>A packet cleared by \<open>memset\<close>, as the receive functions fill it before reading.\<close>

definition blank_pkt :: "socket_t \<Rightarrow> pkt_t" where
  "blank_pkt n =
     \<lparr>p_srcIP = 0, p_dstIP = 0, p_srcPort = 0, p_dstPort = 0, p_proto = s_ipproto n,
      p_data = [], p_datalen = int RECV_LEN, p_sock = s_fd n\<rparr>"

definition sock_tcp_receive :: "env \<Rightarrow> ptr \<Rightarrow> ptr M" where
  "sock_tcp_receive e sock =
     bindM (socket_at sock) (\<lambda>n.
     bindM (malloc_pkt (blank_pkt n)) (\<lambda>pkt.
     bindM (sock_recv e (s_fd n) RECV_LEN) (\<lambda>(result, out).
     if result < 0 then returnM 0
     else thenM (put_pkt pkt (\<lambda>p. p\<lparr>p_data := o_buf out, p_datalen := result\<rparr>))
       (bindM (readM (socket_find (s_peer n))) (\<lambda>fwdto.
        if fwdto = 0 then returnM pkt
        else thenM (socket_at fwdto) (returnM pkt))))))"

definition sock_udp_receive :: "env \<Rightarrow> ptr \<Rightarrow> ptr M" where
  "sock_udp_receive e sock =
     bindM (socket_at sock) (\<lambda>n.
     bindM (malloc_pkt (blank_pkt n)) (\<lambda>pkt.
     bindM (sock_recv e (s_fd n) RECV_LEN) (\<lambda>(result, out).
     if result < 0 then returnM 0
     else
       bindM (getM (\<lambda>s. case o_my_addr out of None \<Rightarrow> e_stack e (hist s) | Some a \<Rightarrow> a)) (\<lambda>my_addr.
       bindM (sock_get_port e (s_fd n)) (\<lambda>port.
       thenM (put_pkt pkt (\<lambda>p. p\<lparr>p_data := o_buf out, p_datalen := result,
                p_srcIP := o_peer_addr out, p_dstIP := my_addr,
                p_srcPort := o_peer_port out, p_dstPort := port\<rparr>))
       (returnM pkt))))))"

definition sock_udp6_receive :: "env \<Rightarrow> ptr \<Rightarrow> ptr M" where
  "sock_udp6_receive e sock =
     bindM (socket_at sock) (\<lambda>n.
     bindM (malloc_pkt (blank_pkt n)) (\<lambda>pkt.
     bindM (sock6_recv e (s_fd n) RECV_LEN) (\<lambda>(result, bytes, _).
     if result < 0 then returnM 0
     else
       bindM (sock_get_port e (s_fd n)) (\<lambda>port.
       thenM (put_pkt pkt (\<lambda>p. p\<lparr>p_data := bytes, p_datalen := result,
                p_srcPort := 0, p_dstPort := port\<rparr>))
       (returnM pkt)))))"

text \<open>
  A new connection: the accepted socket and a socket connected to the AFTR, paired and entered in
  the list. It always returns \<open>NULL\<close>, as there is no packet yet.
\<close>

definition sock_tcp_accept :: "env \<Rightarrow> ptr \<Rightarrow> ptr M" where
  "sock_tcp_accept e sock =
     bindM (socket_at sock) (\<lambda>n.
     bindM (sys e (Sys_accept (s_fd n))) (\<lambda>newfd.
     if newfd < 0 then returnM 0
     else
       bindM (getM (\<lambda>s. e_peer e (hist s) newfd)) (\<lambda>(caddr, cport).
       bindM (getM sockets) (\<lambda>hd.
       bindM (malloc_socket ((blank_socket SOCKET_TYPE_TCP_CONNECTED)
                \<lparr>s_fd := newfd, s_ipproto := IPPROTO_TCP, s_next := hd, s_peer_addr := caddr,
                 s_peer_port := uint (htons (big_endian e) cport)\<rparr>)) (\<lambda>lansock.
       bindM (malloc_socket ((blank_socket SOCKET_TYPE_TCP_CONNECTED)
                \<lparr>s_ipproto := IPPROTO_TCP\<rparr>)) (\<lambda>wansock.
       bindM (sys e (Sys_socket AF_INET SOCK_STREAM 0)) (\<lambda>wfd.
       thenM (put_socket wansock (s_fd_update (\<lambda>_. wfd)))
       (if wfd < 0 then
          thenM (sys e (Sys_close newfd)) (thenM (free_socket lansock) (returnM 0))
        else
          bindM (sock_get_port e (s_fd n)) (\<lambda>port.
          bindM (getM (\<lambda>s. (aftrIPv4 s, htons_int (big_endian e) port))) (\<lambda>(saddr, sport).
          bindM (sys e (Sys_connect wfd (Sockaddr_in saddr sport))) (\<lambda>result.
          if result < 0 then
            thenM (sys e (Sys_close newfd)) (thenM (free_socket lansock)
            (thenM (sys e (Sys_close wfd)) (thenM (free_socket wansock) (returnM 0))))
          else
            thenM (put_socket wansock (\<lambda>w. w\<lparr>s_peer_addr := saddr,
                     s_peer_port := uint (htons (big_endian e) sport), s_peer := newfd\<rparr>))
            (thenM (put_socket lansock (s_peer_update (\<lambda>_. wfd)))
            (thenM (socket_add2 lansock) (thenM (socket_add2 wansock) (returnM 0)))))))))))))))"

text \<open>
  \<open>FD_SET\<close> on a descriptor that is negative or not below \<open>FD_SETSIZE\<close> writes outside the set.
\<close>

definition fd_in_range :: "int \<Rightarrow> bool" where
  "fd_in_range fd \<longleftrightarrow> 0 \<le> fd \<and> fd < FD_SETSIZE"

definition fd_set_all :: "state \<Rightarrow> int list option" where
  "fd_set_all s =
     (case gather s_next (sheap s) (sockets s) [] of
        None \<Rightarrow> None
      | Some ns \<Rightarrow> if list_all (\<lambda>n. fd_in_range (s_fd n)) ns then Some (map s_fd ns) else None)"

definition receive_from :: "env \<Rightarrow> ptr \<Rightarrow> ptr M" where
  "receive_from e sock =
     bindM (socket_at sock) (\<lambda>n.
     case s_state n of
       SOCKET_TYPE_UDP \<Rightarrow> sock_udp_receive e sock
     | SOCKET_TYPE_UDP6 \<Rightarrow> sock_udp6_receive e sock
     | SOCKET_TYPE_TCP_LISTENING \<Rightarrow> sock_tcp_accept e sock
     | SOCKET_TYPE_TCP_CONNECTED \<Rightarrow> sock_tcp_receive e sock)"

definition wait_for_traffic :: "env \<Rightarrow> ptr M" where
  "wait_for_traffic e =
     bindM (ctx_timeout_get e) (\<lambda>tmo.
     bindM (readM fd_set_all) (\<lambda>fds.
     thenM (readM ctx_mappings_cnt)
     (bindM (sys e (Sys_select fds (uint tmo))) (\<lambda>result.
      if result \<le> 0 then returnM 0
      else
        bindM (getM (\<lambda>s. e_ready e (hist s) fds)) (\<lambda>ready.
        bindM (readM (\<lambda>s. walk s_next (\<lambda>n. s_fd n \<in> set ready) (sheap s) (sockets s))) (\<lambda>sock.
        if sock = 0 then returnM 0 else receive_from e sock))))))"

section \<open>Receiving a packet\<close>

text \<open>What the handlers rely on: the length is that of the data, and fits the buffer.\<close>

definition pkt_ok :: "pkt_t \<Rightarrow> bool" where
  "pkt_ok p \<longleftrightarrow> p_datalen p = int (length (p_data p)) \<and> length (p_data p) \<le> RECV_LEN"

lemma pkt_ok_bytes: "pkt_ok p \<Longrightarrow> buf_bytes (p_data p) (p_datalen p) = Some (p_data p)"
  by (simp add: pkt_ok_def buf_bytes_def)

text \<open>The packet \<open>sock_udp_receive\<close> builds from what the kernel delivered after the calls \<open>h\<close>.\<close>

definition udp_pkt :: "env \<Rightarrow> event list \<Rightarrow> socket_t \<Rightarrow> pkt_t" where
  "udp_pkt e h n =
     (let out = recv_info e h (s_fd n) RECV_LEN;
          r = recv_ret e h (s_fd n) RECV_LEN;
          h' = (Sys_recvmsg (s_fd n) RECV_LEN, r) # h
      in (blank_pkt n)\<lparr>p_data := o_buf out, p_datalen := r, p_srcIP := o_peer_addr out,
           p_dstIP := (case o_my_addr out of None \<Rightarrow> e_stack e h' | Some a \<Rightarrow> a),
           p_srcPort := o_peer_port out, p_dstPort := local_port e h' (s_fd n)\<rparr>)"

lemma sock_udp_receive_run:
  fixes e :: env
  assumes "sheap s a = Some n"
  defines "r \<equiv> recv_ret e (hist s) (s_fd n) RECV_LEN"
  defines "h \<equiv> (Sys_recvmsg (s_fd n) RECV_LEN, r) # hist s"
  shows "sock_udp_receive e a s =
    (if r < 0
     then Some (Ret 0, s\<lparr>brk := Suc (brk s), pheap := (pheap s)(brk s \<mapsto> blank_pkt n), hist := h\<rparr>)
     else Some (Ret (brk s),
       s\<lparr>brk := Suc (brk s),
         hist := (Sys_getsockname (s_fd n), e_ret e h (Sys_getsockname (s_fd n))) # h,
         pheap := (pheap s)(brk s \<mapsto> udp_pkt e (hist s) n)\<rparr>))"
  using assms(1)
  by (simp add: sock_udp_receive_def run_simps sock_recv_run sock_get_port_run udp_pkt_def
      r_def h_def Let_def split: option.splits)

lemma udp_pkt_ok:
  "recv_ret e h (s_fd n) RECV_LEN \<noteq> -1 \<Longrightarrow> pkt_ok (udp_pkt e h n)"
  by (simp add: pkt_ok_def udp_pkt_def Let_def recv_buf_length recv_buf_le)

text \<open>
  A received packet: \<open>NULL\<close>, or a well-formed packet of the socket, at an address that held none.
\<close>

definition received :: "state \<Rightarrow> socket_t \<Rightarrow> ptr \<Rightarrow> state \<Rightarrow> bool" where
  "received s n r t \<longleftrightarrow>
     r = 0 \<or> (\<exists>p. pheap t r = Some p \<and> pkt_ok p \<and> p_sock p = s_fd n \<and> p_proto p = s_ipproto n)"

lemma wp_sock_udp_receive:
  assumes "tables s ms ss" and "sheap s a = Some n"
  shows "wp (sock_udp_receive e a) (\<lambda>r t. tables t ms ss \<and> received s n r t) s"
  using tables_malloc_pkt [OF assms(1)] udp_pkt_ok [of e "hist s" n]
  by (auto simp: sock_udp_receive_run [OF assms(2)] wpx_def received_def udp_pkt_def
      blank_pkt_def Let_def recv_ret_neg intro!: tables_cong [THEN iffD2, OF _ _ _ _ _ _ tables_malloc_pkt [OF assms(1)]])

lemma wp_sock_udp6_receive:
  assumes "tables s ms ss" and "sheap s a = Some n"
  shows "wp (sock_udp6_receive e a) (\<lambda>r t. tables t ms ss \<and> received s n r t) s"
  using assms(2)
  by (auto simp: sock_udp6_receive_def wp_simps sock6_recv_run wp_run [OF sock6_recv_run]
      wp_run [OF sock_get_port_run] received_def blank_pkt_def pkt_ok_def
      recv_ret_neg recv_buf_length recv_buf_le
      intro!: tables_cong [THEN iffD2, OF _ _ _ _ _ _ tables_malloc_pkt [OF assms(1)]])

lemma wp_sock_tcp_receive:
  assumes "tables s ms ss" and "sheap s a = Some n"
  shows "wp (sock_tcp_receive e a) (\<lambda>r t. tables t ms ss \<and> received s n r t) s"
proof -
  have pkt: "tables (s\<lparr>brk := Suc (brk s), pheap := (pheap s)(brk s \<mapsto> p), hist := h\<rparr>) ms ss" for p h
    by (rule tables_cong [THEN iffD2, OF _ _ _ _ _ _ tables_malloc_pkt [OF assms(1)]]) simp_all
  have pkt2: "tables (s\<lparr>brk := Suc (brk s), hist := h, pheap := (pheap s)(brk s \<mapsto> p)\<rparr>) ms ss" for p h
    by (rule tables_cong [THEN iffD2, OF _ _ _ _ _ _ tables_malloc_pkt [OF assms(1)]]) simp_all
  have peer: "\<exists>x. sheap s (first_addr (\<lambda>n. s_fd n = fd) ss) = Some x"
    if "0 < first_addr (\<lambda>n. s_fd n = fd) ss" for fd
    using that socket_find_at [OF assms(1), of fd] by auto
  show ?thesis
    using assms(2) pkt pkt2 socket_find_tables [OF pkt2, of "s_peer n"] peer
    by (auto simp: sock_tcp_receive_def wp_simps wp_run [OF sock_recv_run] received_def
        recv_ret_neg recv_buf_length recv_buf_le pkt_ok_def blank_pkt_def)
qed

section \<open>Accepting a connection\<close>

text \<open>The two sockets of a relayed connection.\<close>

definition relay_pair :: "socket_t \<Rightarrow> socket_t \<Rightarrow> bool" where
  "relay_pair x y \<longleftrightarrow>
     s_state x = SOCKET_TYPE_TCP_CONNECTED \<and> s_state y = SOCKET_TYPE_TCP_CONNECTED \<and>
     s_ipproto x = IPPROTO_TCP \<and> s_ipproto y = IPPROTO_TCP \<and>
     s_peer x = s_fd y \<and> s_peer y = s_fd x"

text \<open>Two new sockets in front of the list.\<close>

lemma tables_pair:
  assumes t: "tables s ms ss" and b: "brk u = Suc (Suc (brk s))"
    and r: "mheap u = mheap s" "pheap u = pheap s" "mappings u = mappings s"
    and w: "sockets u = Suc (brk s)" "sheap u (Suc (brk s)) = Some x" "s_next x = brk s"
    and l: "sheap u (brk s) = Some y" "s_next y = sockets s"
    and h: "\<And>p. p < brk s \<Longrightarrow> sheap u p = sheap s p"
      "\<And>p. Suc (Suc (brk s)) \<le> p \<Longrightarrow> sheap u p = None"
  shows "tables u ms ((Suc (brk s), x) # (brk s, y) # ss)"
proof -
  have "tables (u\<lparr>sockets := sockets s\<rparr>) ms ss"
    using b r h by (intro tables_extend [OF t]) simp_all
  then show ?thesis
    using w l heap_okD(4) [OF tables_ok [OF t]] by (simp add: tables_def heap_ok_def)
qed

lemma tables_pairI:
  assumes "tables s ms ss" and "brk u = Suc (Suc (brk s))"
    and "mheap u = mheap s" "pheap u = pheap s" "mappings u = mappings s"
    and "sockets u = Suc (brk s)" "sheap u (Suc (brk s)) = Some x" "s_next x = brk s"
    and "sheap u (brk s) = Some y" "s_next y = sockets s"
    and "\<And>p. p < brk s \<Longrightarrow> sheap u p = sheap s p"
      "\<And>p. Suc (Suc (brk s)) \<le> p \<Longrightarrow> sheap u p = None"
    and "relay_pair x y" "fd_in_range (s_fd x)" "fd_in_range (s_fd y)"
  shows "\<exists>w x l y. tables u ms ((w, x) # (l, y) # ss) \<and> relay_pair x y \<and>
           fd_in_range (s_fd x) \<and> fd_in_range (s_fd y)"
  using tables_pair [OF assms(1-12)] assms(13-15) by blast

text \<open>The four ways \<open>sock_tcp_accept\<close> can end.\<close>

lemma sock_tcp_accept_run:
  fixes e :: env
  assumes t: "tables s ms ss" and n: "sheap s a = Some n"
  defines "newfd \<equiv> e_ret e (hist s) (Sys_accept (s_fd n))"
  defines "h1 \<equiv> (Sys_accept (s_fd n), newfd) # hist s"
  defines "wfd \<equiv> e_ret e h1 (Sys_socket AF_INET SOCK_STREAM 0)"
  defines "h2 \<equiv> (Sys_socket AF_INET SOCK_STREAM 0, wfd) # h1"
  defines "h3 \<equiv> (Sys_getsockname (s_fd n), e_ret e h2 (Sys_getsockname (s_fd n))) # h2"
  defines "c \<equiv> Sys_connect wfd
      (Sockaddr_in (aftrIPv4 s) (htons_int (big_endian e) (local_port e h2 (s_fd n))))"
  defines "h4 \<equiv> (c, e_ret e h3 c) # h3"
  defines "h5 \<equiv> (Sys_close newfd, e_ret e h4 (Sys_close newfd)) # h4"
  shows "newfd < 0 \<Longrightarrow> sock_tcp_accept e a s = Some (Ret 0, s\<lparr>hist := h1\<rparr>)"
    and "0 \<le> newfd \<Longrightarrow> wfd < 0 \<Longrightarrow> sock_tcp_accept e a s = Some (Ret 0,
      s\<lparr>brk := Suc (Suc (brk s)), hist := (Sys_close newfd, e_ret e h2 (Sys_close newfd)) # h2,
        sheap := (sheap s)(Suc (brk s) \<mapsto> (blank_socket SOCKET_TYPE_TCP_CONNECTED)
          \<lparr>s_ipproto := IPPROTO_TCP, s_fd := wfd\<rparr>, brk s := None)\<rparr>)"
    and "0 \<le> newfd \<Longrightarrow> 0 \<le> wfd \<Longrightarrow> e_ret e h3 c < 0 \<Longrightarrow> sock_tcp_accept e a s = Some (Ret 0,
      s\<lparr>brk := Suc (Suc (brk s)), hist := (Sys_close wfd, e_ret e h5 (Sys_close wfd)) # h5,
        sheap := (sheap s)(brk s := None, Suc (brk s) := None)\<rparr>)"
    and "0 \<le> newfd \<Longrightarrow> 0 \<le> wfd \<Longrightarrow> 0 \<le> e_ret e h3 c \<Longrightarrow> \<exists>x y. relay_pair x y \<and>
      s_fd x = wfd \<and> s_fd y = newfd \<and> s_next x = brk s \<and> s_next y = sockets s \<and>
      sock_tcp_accept e a s = Some (Ret 0,
        s\<lparr>brk := Suc (Suc (brk s)), hist := h4, sheap := (sheap s)(brk s \<mapsto> y, Suc (brk s) \<mapsto> x),
          sockets := Suc (brk s)\<rparr>)"
proof -
  have a: "a \<noteq> brk s" "a \<noteq> Suc (brk s)" "brk s \<noteq> 0"
    using n tables_ok [OF t] by (auto simp: heap_ok_def)
  note folds = newfd_def [symmetric] h1_def [symmetric] wfd_def [symmetric] h2_def [symmetric]
    h3_def [symmetric] c_def [symmetric] h4_def [symmetric] h5_def [symmetric]
  obtain caddr cport where peer: "e_peer e h1 newfd = (caddr, cport)"
    by (cases "e_peer e h1 newfd")
  note run = sock_tcp_accept_def run_simps n sock_get_port_run folds peer
  show "newfd < 0 \<Longrightarrow> sock_tcp_accept e a s = Some (Ret 0, s\<lparr>hist := h1\<rparr>)"
    by (simp add: run)
  show "0 \<le> newfd \<Longrightarrow> wfd < 0 \<Longrightarrow> sock_tcp_accept e a s = Some (Ret 0,
      s\<lparr>brk := Suc (Suc (brk s)), hist := (Sys_close newfd, e_ret e h2 (Sys_close newfd)) # h2,
        sheap := (sheap s)(Suc (brk s) \<mapsto> (blank_socket SOCKET_TYPE_TCP_CONNECTED)
          \<lparr>s_ipproto := IPPROTO_TCP, s_fd := wfd\<rparr>, brk s := None)\<rparr>)"
    using a by (simp add: run)
  show "0 \<le> newfd \<Longrightarrow> 0 \<le> wfd \<Longrightarrow> e_ret e h3 c < 0 \<Longrightarrow> sock_tcp_accept e a s = Some (Ret 0,
      s\<lparr>brk := Suc (Suc (brk s)), hist := (Sys_close wfd, e_ret e h5 (Sys_close wfd)) # h5,
        sheap := (sheap s)(brk s := None, Suc (brk s) := None)\<rparr>)"
    using a by (simp add: run)
  let ?y = "(blank_socket SOCKET_TYPE_TCP_CONNECTED)\<lparr>s_fd := newfd, s_ipproto := IPPROTO_TCP,
      s_peer := wfd, s_peer_addr := caddr, s_peer_port := uint (htons (big_endian e) cport),
      s_next := sockets s\<rparr>"
  let ?x = "(blank_socket SOCKET_TYPE_TCP_CONNECTED)\<lparr>s_fd := wfd, s_ipproto := IPPROTO_TCP,
      s_peer := newfd, s_peer_addr := aftrIPv4 s,
      s_peer_port := uint (word_of_int (local_port e h2 (s_fd n)) :: u16), s_next := brk s\<rparr>"
  assume "0 \<le> newfd" "0 \<le> wfd" "0 \<le> e_ret e h3 c"
  then have "sock_tcp_accept e a s = Some (Ret 0,
      s\<lparr>brk := Suc (Suc (brk s)), hist := h4, sheap := (sheap s)(brk s \<mapsto> ?y, Suc (brk s) \<mapsto> ?x),
          sockets := Suc (brk s)\<rparr>)"
    using a by (simp add: run socket_add2_def blank_socket_def)
  moreover have "relay_pair ?x ?y" by (simp add: relay_pair_def blank_socket_def)
  ultimately show "\<exists>x y. relay_pair x y \<and>
      s_fd x = wfd \<and> s_fd y = newfd \<and> s_next x = brk s \<and> s_next y = sockets s \<and>
      sock_tcp_accept e a s = Some (Ret 0,
        s\<lparr>brk := Suc (Suc (brk s)), hist := h4, sheap := (sheap s)(brk s \<mapsto> y, Suc (brk s) \<mapsto> x),
          sockets := Suc (brk s)\<rparr>)"
    by (intro exI [of _ ?x] exI [of _ ?y]) (simp add: blank_socket_def)
qed

lemma wp_sock_tcp_accept:
  fixes e :: env
  assumes t: "tables s ms ss" and n: "sheap s a = Some n" and e: "fds_bounded e"
  shows "wp (sock_tcp_accept e a)
     (\<lambda>r t. r = 0 \<and> (tables t ms ss \<or>
        (\<exists>w x l y. tables t ms ((w, x) # (l, y) # ss) \<and> relay_pair x y \<and>
           fd_in_range (s_fd x) \<and> fd_in_range (s_fd y)))) s"
proof -
  define newfd where "newfd = e_ret e (hist s) (Sys_accept (s_fd n))"
  define h1 where "h1 = (Sys_accept (s_fd n), newfd) # hist s"
  define wfd where "wfd = e_ret e h1 (Sys_socket AF_INET SOCK_STREAM 0)"
  define h2 where "h2 = (Sys_socket AF_INET SOCK_STREAM 0, wfd) # h1"
  define h3 where "h3 = (Sys_getsockname (s_fd n), e_ret e h2 (Sys_getsockname (s_fd n))) # h2"
  define c where "c = Sys_connect wfd
      (Sockaddr_in (aftrIPv4 s) (htons_int (big_endian e) (local_port e h2 (s_fd n))))"
  note runs = sock_tcp_accept_run [OF t n, of e, folded newfd_def, folded h1_def, folded wfd_def,
      folded h2_def, folded h3_def, folded c_def]
  have fresh: "\<And>p. brk s \<le> p \<Longrightarrow> sheap s p = None"
    using tables_ok [OF t] by (simp add: heap_ok_def)
  consider "newfd < 0" | "0 \<le> newfd" "wfd < 0" | "0 \<le> newfd" "0 \<le> wfd" "e_ret e h3 c < 0"
    | "0 \<le> newfd" "0 \<le> wfd" "0 \<le> e_ret e h3 c"
    by linarith
  then show ?thesis
  proof cases
    case 1
    then show ?thesis using t by (simp add: wp_run [of "sock_tcp_accept e a" s, OF runs(1)])
  next
    case 2
    show ?thesis unfolding wp_run [of "sock_tcp_accept e a" s, OF runs(2) [OF 2]]
      by (intro conjI refl disjI1 tables_extend [OF t]) (simp_all add: fresh)
  next
    case 3
    show ?thesis unfolding wp_run [of "sock_tcp_accept e a" s, OF runs(3) [OF 3]]
      by (intro conjI refl disjI1 tables_extend [OF t]) (simp_all add: fresh)
  next
    case 4
    from runs(4) [OF 4] obtain x y where xy: "relay_pair x y" "s_fd x = wfd" "s_fd y = newfd"
      "s_next x = brk s" "s_next y = sockets s" and run: "sock_tcp_accept e a s = Some (Ret 0,
        s\<lparr>brk := Suc (Suc (brk s)), hist := (c, e_ret e h3 c) # h3,
          sheap := (sheap s)(brk s \<mapsto> y, Suc (brk s) \<mapsto> x), sockets := Suc (brk s)\<rparr>)"
      by blast
    have "wfd < FD_SETSIZE" "newfd < FD_SETSIZE"
      using e by (simp_all add: fds_bounded_def wfd_def newfd_def)
    then show ?thesis unfolding wp_run [of "sock_tcp_accept e a" s, OF run]
      using 4 xy fresh
      by (intro conjI refl disjI2 tables_pairI [OF t, where x = x and y = y])
         (simp_all add: fd_in_range_def)
  qed
qed

section \<open>Waiting for traffic\<close>

text \<open>
  The invariant of the main loop: both lists are well-formed, every descriptor of the socket list
  fits an \<open>fd_set\<close>, and every socket is a TCP or a UDP socket.
\<close>

definition relay_proto :: "int \<Rightarrow> bool" where
  "relay_proto q \<longleftrightarrow> q = IPPROTO_TCP \<or> q = IPPROTO_UDP"

definition sock_ok :: "socket_t \<Rightarrow> bool" where
  "sock_ok n \<longleftrightarrow> fd_in_range (s_fd n) \<and> relay_proto (s_ipproto n)"

definition socks_ok :: "(ptr \<times> socket_t) list \<Rightarrow> bool" where
  "socks_ok ss \<longleftrightarrow> (\<forall>(a, n) \<in> set ss. sock_ok n)"

definition state_ok :: "state \<Rightarrow> bool" where
  "state_ok s \<longleftrightarrow> (\<exists>ms ss. tables s ms ss \<and> socks_ok ss)"

lemma state_okI: "tables s ms ss \<Longrightarrow> socks_ok ss \<Longrightarrow> state_ok s"
  by (auto simp: state_ok_def)

lemma sock_ok_next [simp]: "sock_ok (n\<lparr>s_next := q\<rparr>) = sock_ok n"
  by (simp add: sock_ok_def)

lemma socks_ok_simps [simp]:
  "socks_ok []"
  "socks_ok ((a, n) # ss) \<longleftrightarrow> sock_ok n \<and> socks_ok ss"
  "socks_ok (xs @ ys) \<longleftrightarrow> socks_ok xs \<and> socks_ok ys"
  by (auto simp: socks_ok_def)

lemma socks_ok_view: "socks_ok (sock_view ss) = socks_ok ss"
  by (induction ss) auto

lemma socks_ok_sub: "set (sock_view xs) \<subseteq> set (sock_view ys) \<Longrightarrow> socks_ok ys \<Longrightarrow> socks_ok xs"
  using socks_ok_view [of xs] socks_ok_view [of ys] unfolding socks_ok_def by blast

lemma socks_ok_fds: "socks_ok ss \<Longrightarrow> list_all fd_in_range (sock_fds ss)"
  by (auto simp: socks_ok_def sock_fds_def list_all_iff sock_ok_def)

lemma fd_set_all_run:
  assumes "tables s ms ss" and "list_all fd_in_range (sock_fds ss)"
  shows "fd_set_all s = Some (sock_fds ss)"
proof -
  have "chain_at s_next (sheap s) (sockets s) ss" using assms by (simp add: tables_def)
  from gather_chain [OF this, of "[]"] assms(2) show ?thesis
    by (simp add: fd_set_all_def sock_fds_def list.pred_map comp_def)
qed

lemma ctx_mappings_cnt_run:
  "tables s ms ss \<Longrightarrow> ctx_mappings_cnt s = Some (length ms)"
  unfolding ctx_mappings_cnt_def tables_def by (auto dest: gather_chain [where acc = "[]"])

text \<open>A packet the loop hands to \<open>handle_packet\<close>.\<close>

definition pkt_ready :: "ptr \<Rightarrow> state \<Rightarrow> bool" where
  "pkt_ready r t \<longleftrightarrow> r = 0 \<or> (\<exists>p. pheap t r = Some p \<and> pkt_ok p \<and> relay_proto (p_proto p))"

lemma received_ready: "received s n r t \<Longrightarrow> sock_ok n \<Longrightarrow> pkt_ready r t"
  by (auto simp: received_def pkt_ready_def sock_ok_def)

lemma wp_receive_from:
  assumes t: "tables s ms ss" and fds: "socks_ok ss"
    and a: "sheap s a = Some n" "sock_ok n" and e: "fds_bounded e"
  shows "wp (receive_from e a) (\<lambda>r t. state_ok t \<and> pkt_ready r t) s"
proof -
  have keep: "wp m (\<lambda>r t. state_ok t \<and> pkt_ready r t) s"
    if "wp m (\<lambda>r t. tables t ms ss \<and> received s n r t) s" for m
    by (rule wp_conseq [OF that]) (auto intro: state_okI [OF _ fds] received_ready a(2))
  have "wp (case s_state n of
       SOCKET_TYPE_UDP \<Rightarrow> sock_udp_receive e a
     | SOCKET_TYPE_UDP6 \<Rightarrow> sock_udp6_receive e a
     | SOCKET_TYPE_TCP_LISTENING \<Rightarrow> sock_tcp_accept e a
     | SOCKET_TYPE_TCP_CONNECTED \<Rightarrow> sock_tcp_receive e a) (\<lambda>r t. state_ok t \<and> pkt_ready r t) s"
  proof (cases "s_state n")
    case SOCKET_TYPE_UDP
    then show ?thesis using keep [OF wp_sock_udp_receive [OF t a(1)]] by simp
  next
    case SOCKET_TYPE_UDP6
    then show ?thesis using keep [OF wp_sock_udp6_receive [OF t a(1)]] by simp
  next
    case SOCKET_TYPE_TCP_CONNECTED
    then show ?thesis using keep [OF wp_sock_tcp_receive [OF t a(1)]] by simp
  next
    case SOCKET_TYPE_TCP_LISTENING
    have "wp (sock_tcp_accept e a) (\<lambda>r t. state_ok t \<and> pkt_ready r t) s"
      by (rule wp_conseq [OF wp_sock_tcp_accept [OF t a(1) e]])
         (use fds in \<open>auto simp: pkt_ready_def relay_pair_def sock_ok_def relay_proto_def intro: state_okI\<close>)
    with SOCKET_TYPE_TCP_LISTENING show ?thesis by simp
  qed
  then show ?thesis using a by (simp add: receive_from_def wp_simps)
qed

lemma wp_wait_for_traffic:
  assumes "state_ok s" and e: "fds_bounded e"
  shows "wp (wait_for_traffic e) (\<lambda>r t. state_ok t \<and> pkt_ready r t) s"
proof -
  obtain ms ss where t: "tables s ms ss" and fds: "socks_ok ss"
    using assms(1) by (auto simp: state_ok_def)
  have h: "tables (s\<lparr>hist := h\<rparr>) ms ss" for h using t by simp
  have c: "chain_at s_next (sheap s) (sockets s) ss" using t by (simp add: tables_def)
  have recv: "wp (receive_from e (first_addr P ss)) (\<lambda>r t. state_ok t \<and> pkt_ready r t) (s\<lparr>hist := h\<rparr>)"
    if "first_addr P ss \<noteq> 0" for P h
    using c that
    by (cases rule: first_addr_cases [where P = P])
       (use fds in \<open>auto intro!: wp_receive_from [OF h fds _ _ e]\<close>)
  have "state_ok (s\<lparr>hist := h\<rparr>)" for h
    using h fds by (rule state_okI)
  then show ?thesis
    using recv
    by (simp add: wait_for_traffic_def wp_simps wp_run [of "ctx_timeout_get e" s, OF ctx_timeout_get_run [OF t]]
        fd_set_all_run [OF h socks_ok_fds [OF fds]] ctx_mappings_cnt_run [OF h] walk_chain [OF c] pkt_ready_def)
qed

section \<open>Properties\<close>

text \<open>
  C13: a connection accepted on a listening socket, when the connection to the AFTR
  succeeds: the AFTR is asked for on the port the client connected to, and the two new sockets,
  each the other's peer, are put in front of the list. No packet is returned.
\<close>

theorem tcp_accept_pairs:
  fixes e :: env
  assumes t: "tables s ms ss" and n: "sheap s a = Some n"
  defines "newfd \<equiv> e_ret e (hist s) (Sys_accept (s_fd n))"
  defines "h1 \<equiv> (Sys_accept (s_fd n), newfd) # hist s"
  defines "wfd \<equiv> e_ret e h1 (Sys_socket AF_INET SOCK_STREAM 0)"
  defines "h2 \<equiv> (Sys_socket AF_INET SOCK_STREAM 0, wfd) # h1"
  defines "h3 \<equiv> (Sys_getsockname (s_fd n), e_ret e h2 (Sys_getsockname (s_fd n))) # h2"
  defines "c \<equiv> Sys_connect wfd
      (Sockaddr_in (aftrIPv4 s) (htons_int (big_endian e) (local_port e h2 (s_fd n))))"
  assumes good: "0 \<le> newfd" "0 \<le> wfd" "0 \<le> e_ret e h3 c"
  shows "\<exists>u w x l y. sock_tcp_accept e a s = Some (Ret 0, u) \<and>
    tables u ms ((w, x) # (l, y) # ss) \<and> relay_pair x y \<and> s_fd x = wfd \<and> s_fd y = newfd \<and>
    hist u = (c, e_ret e h3 c) # h3"
proof -
  note runs = sock_tcp_accept_run [OF t n, of e, folded newfd_def, folded h1_def, folded wfd_def,
      folded h2_def, folded h3_def, folded c_def]
  have fresh: "\<And>p. brk s \<le> p \<Longrightarrow> sheap s p = None"
    using tables_ok [OF t] by (simp add: heap_ok_def)
  from runs(4) [OF good] obtain x y where xy: "relay_pair x y" "s_fd x = wfd" "s_fd y = newfd"
    "s_next x = brk s" "s_next y = sockets s" and run: "sock_tcp_accept e a s = Some (Ret 0,
      s\<lparr>brk := Suc (Suc (brk s)), hist := (c, e_ret e h3 c) # h3,
        sheap := (sheap s)(brk s \<mapsto> y, Suc (brk s) \<mapsto> x), sockets := Suc (brk s)\<rparr>)" (is "_ = Some (_, ?u)")
    by blast
  have "tables ?u ms ((Suc (brk s), x) # (brk s, y) # ss)"
    by (rule tables_pair [OF t]) (simp_all add: xy fresh)
  moreover have "hist ?u = (c, e_ret e h3 c) # h3" by simp
  ultimately show ?thesis using run xy by blast
qed

theorem tcp_accept_pairs_witness:
  "\<exists>u w x l y. sock_tcp_accept sample_env 3 sample0 = Some (Ret 0, u) \<and>
    tables u sample_ms ((w, x) # (l, y) # sample_ss) \<and> relay_pair x y \<and> s_fd x = 11 \<and> s_fd y = 12"
  using tcp_accept_pairs [OF sample_tables, of "sample_pkt 17 []" 3 sample_n1 sample_env] by simp blast

text \<open>
  C14: when the AFTR cannot be reached the client's connection is given up: both
  new descriptors are closed and the list of sockets is as it was. Only when no second descriptor
  could be made does memory stay behind: the structure meant for it is never freed.
\<close>

theorem tcp_accept_undone:
  fixes e :: env
  assumes t: "tables s ms ss" and n: "sheap s a = Some n"
  defines "newfd \<equiv> e_ret e (hist s) (Sys_accept (s_fd n))"
  defines "h1 \<equiv> (Sys_accept (s_fd n), newfd) # hist s"
  defines "wfd \<equiv> e_ret e h1 (Sys_socket AF_INET SOCK_STREAM 0)"
  defines "h2 \<equiv> (Sys_socket AF_INET SOCK_STREAM 0, wfd) # h1"
  defines "h3 \<equiv> (Sys_getsockname (s_fd n), e_ret e h2 (Sys_getsockname (s_fd n))) # h2"
  defines "c \<equiv> Sys_connect wfd
      (Sockaddr_in (aftrIPv4 s) (htons_int (big_endian e) (local_port e h2 (s_fd n))))"
  assumes got: "0 \<le> newfd" and bad: "wfd < 0 \<or> e_ret e h3 c < 0"
  shows "\<exists>u. sock_tcp_accept e a s = Some (Ret 0, u) \<and> tables u ms ss \<and>
    newfd \<notin> open_fds (hist u) \<and> (0 \<le> wfd \<longrightarrow> wfd \<notin> open_fds (hist u)) \<and>
    (\<forall>b. sheap u b = sheap s b \<or> wfd < 0 \<and> b = Suc (brk s))"
proof -
  note runs = sock_tcp_accept_run [OF t n, of e, folded newfd_def, folded h1_def, folded wfd_def,
      folded h2_def, folded h3_def, folded c_def]
  have fresh: "\<And>p. brk s \<le> p \<Longrightarrow> sheap s p = None"
    using tables_ok [OF t] by (simp add: heap_ok_def)
  show ?thesis
  proof (cases "wfd < 0")
    case True
    then show ?thesis
      unfolding runs(2) [OF got True]
      by (auto simp: fresh intro!: tables_extend [OF t])
  next
    case False
    then have wfd: "0 \<le> wfd" "e_ret e h3 c < 0" using bad by simp_all
    then show ?thesis
      unfolding runs(3) [OF got wfd]
      by (auto simp: fresh intro!: tables_extend [OF t])
  qed
qed

theorem tcp_accept_undone_witness:
  "\<exists>u. sock_tcp_accept (sample_env\<lparr>e_ret := (\<lambda>h c. case c of Sys_socket _ _ _ \<Rightarrow> -1 | _ \<Rightarrow> 12)\<rparr>) 3
      sample0 = Some (Ret 0, u) \<and> tables u sample_ms sample_ss \<and> 12 \<notin> open_fds (hist u)"
  using tcp_accept_undone [OF sample_tables, of "sample_pkt 17 []" 3 sample_n1
      "sample_env\<lparr>e_ret := (\<lambda>h c. case c of Sys_socket _ _ _ \<Rightarrow> -1 | _ \<Rightarrow> 12)\<rparr>"]
  by simp blast

text \<open>
  C20: what a UDP socket delivers. The packet holds at most 1500 bytes, all of them
  received, its sender's address and port, the socket's own port, and as its destination the
  address of the last \<open>IP_PKTINFO\<close> control message.
\<close>

theorem udp_receive_spec:
  fixes e :: env
  assumes n: "sheap s a = Some n" and info: "r_pktinfo (e_recv e (hist s) (s_fd n)) \<noteq> []"
    and ok: "e_ret e (hist s) (Sys_recvmsg (s_fd n) 1500) \<noteq> -1"
  shows "\<exists>t p h. sock_udp_receive e a s = Some (Ret (brk s), t) \<and> pheap t (brk s) = Some p \<and>
    p_data p = take 1500 (r_bytes (e_recv e (hist s) (s_fd n))) \<and>
    p_datalen p = int (length (p_data p)) \<and>
    p_srcIP p = r_peer (e_recv e (hist s) (s_fd n)) \<and>
    p_srcPort p = uint (htons (big_endian e) (r_port (e_recv e (hist s) (s_fd n)))) \<and>
    p_dstIP p = last (r_pktinfo (e_recv e (hist s) (s_fd n))) \<and>
    p_dstPort p = local_port e h (s_fd n) \<and> p_sock p = s_fd n \<and> p_proto p = s_ipproto n"
proof -
  have "\<not> recv_ret e (hist s) (s_fd n) RECV_LEN < 0"
    using ok by (simp add: recv_ret_def RECV_LEN_def)
  then have "\<exists>t. sock_udp_receive e a s = Some (Ret (brk s), t) \<and>
      pheap t (brk s) = Some (udp_pkt e (hist s) n)"
    using sock_udp_receive_run [where s = s and a = a and n = n and e = e, OF n] by simp
  moreover have "o_my_addr (recv_info e (hist s) (s_fd n) RECV_LEN) =
      Some (last (r_pktinfo (e_recv e (hist s) (s_fd n))))"
    using ok info by (simp add: recv_info_def RECV_LEN_def Let_def)
  ultimately show ?thesis
    using ok by (auto simp: udp_pkt_def blank_pkt_def recv_info_def recv_ret_def RECV_LEN_def Let_def)
qed

theorem udp_receive_spec_witness:
  "\<exists>t p h. sock_udp_receive sample_env 3 sample0 = Some (Ret 6, t) \<and> pheap t 6 = Some p \<and>
    p_data p = [1, 2] \<and> p_datalen p = int (length (p_data p)) \<and> p_srcIP p = 40 \<and>
    p_dstIP p = 41 \<and> p_dstPort p = local_port sample_env h 7 \<and> p_sock p = 7"
  using udp_receive_spec [of sample0 3 sample_n1 sample_env]
  by (auto simp: sample_env_def)

end
