(* ===== verification/Handlers.thy ===== *)
theory Handlers
  imports Receive
begin

text \<open>
  The packet handlers of \<^verbatim>\<open>src/framework.c\<close>: relaying TCP data and closing a relayed connection,
  the extended NAT-PMP shim in both directions, SSDP multicast from the WAN, and the classic
  forwarding of UDP queries and responses through the table of mappings; \<open>handle_packet\<close>
  dispatches between them.
\<close>

section \<open>Operations\<close>

definition packet_delete :: "ptr \<Rightarrow> unit M" where
  "packet_delete pkt = (if pkt = 0 then returnM () else free_pkt pkt)"

definition handle_tcp_packet :: "env \<Rightarrow> ptr \<Rightarrow> int M" where
  "handle_tcp_packet e pkt =
     bindM (pkt_at pkt) (\<lambda>p.
     bindM (readM (socket_find (p_sock p))) (\<lambda>sock.
     if sock = 0 then returnM (-1)
     else bindM (socket_at sock) (\<lambda>n.
       bindM (readM (socket_find (s_peer n))) (\<lambda>sock.
       if sock = 0 then returnM (-1)
       else bindM (socket_at sock) (\<lambda>n.
         bindM (readM (\<lambda>_. buf_bytes (p_data p) (p_datalen p))) (\<lambda>bytes.
         bindM (sys e (Sys_send (s_fd n) bytes)) (\<lambda>result.
         thenM (packet_delete pkt)
         (returnM (if result < 0 then result else 0)))))))))"

definition handle_tcp_close :: "env \<Rightarrow> ptr \<Rightarrow> int M" where
  "handle_tcp_close e pkt =
     bindM (pkt_at pkt) (\<lambda>p.
     if p_datalen p \<noteq> 0 then returnM (-1)
     else bindM (readM (socket_find (p_sock p))) (\<lambda>sock.
       if sock = 0 then returnM (-1)
       else bindM (socket_at sock) (\<lambda>n.
         thenM (socket_del e (p_sock p))
         (thenM (socket_del e (s_peer n)) (returnM 0)))))"

text \<open>Not called by the program.\<close>

definition handle_ssdp :: "env \<Rightarrow> ptr \<Rightarrow> int M" where
  "handle_ssdp e pkt =
     bindM (pkt_at pkt) (\<lambda>p.
     bindM (readM (socket_find (p_sock p))) (\<lambda>sock.
     bindM (socket_at sock) (\<lambda>n.
     bindM (getM (\<lambda>s. (mcast s, sint (upnp_udp_port s)))) (\<lambda>(mc, port).
     sock_send e (s_peer n) mc (p_data p) (p_datalen p) port))))"

definition packet_wan_mcast :: "ptr \<Rightarrow> int M" where
  "packet_wan_mcast pkt =
     bindM (pkt_at pkt) (\<lambda>p.
     getM (\<lambda>s. if addr_cmp (p_dstIP p) (mcast s) \<noteq> 0 \<and> p_sock p = wan_ssdp_sock s
               then 1 else 0))"

text \<open>
  The writes into the array \<open>buf\<close>: length, \<open>'P'\<close>, the first two bytes of the \<open>int\<close> that holds the
  client's port, the LAN address, the client's address and the client's request. The array has
  128 bytes; it is not initialised, and since only bytes that were written are read again it may
  as well be cleared (lemma \<open>shim_buf_run\<close> has any content).
\<close>

definition shim_buf :: "bool \<Rightarrow> u32 \<Rightarrow> int \<Rightarrow> u32 \<Rightarrow> byte list \<Rightarrow> byte list \<Rightarrow> byte list option" where
  "shim_buf be lan_ip src_port src_ip data buf =
     writes [(0, [12]), (1, [80]), (2, take 2 (mem32 be (word_of_int src_port))),
             (4, mem32 be lan_ip), (8, mem32 be src_ip), (12, data)] buf"

definition handle_nat_pmp_ext_fromclient :: "env \<Rightarrow> ptr \<Rightarrow> int M" where
  "handle_nat_pmp_ext_fromclient e pkt =
     bindM (pkt_at pkt) (\<lambda>p.
     if p_datalen p > 100 then returnM (-1)
     else
       bindM (readM (\<lambda>_. buf_bytes (p_data p) (p_datalen p))) (\<lambda>data.
       bindM (readM (\<lambda>s. shim_buf (big_endian e) (lanIP s) (p_srcPort p) (p_srcIP p) data
                          (replicate 128 0))) (\<lambda>buf.
       bindM (getM nat_pmp_ext_sock) (\<lambda>fd.
       bindM (readM (\<lambda>_. buf_bytes buf (p_datalen p + 12))) (\<lambda>bytes.
       bindM (sys e (Sys_send fd bytes)) (\<lambda>r.
       if r < 0 then returnM (-1) else returnM 0))))))"

definition handle_nat_pmp_ext_fromserver :: "env \<Rightarrow> ptr \<Rightarrow> int M" where
  "handle_nat_pmp_ext_fromserver e pkt =
     bindM (pkt_at pkt) (\<lambda>p.
     if p_datalen p < 12 then returnM (-1)
     else
       bindM (readM (\<lambda>_. buf_bytes (p_data p) (p_datalen p))) (\<lambda>data.
       if data ! 0 \<noteq> 12 \<or> data ! 1 \<noteq> 80 then returnM (-1)
       else
         bindM (readM (\<lambda>_. load16 (big_endian e) (drop 2 data))) (\<lambda>port.
         bindM (readM (\<lambda>_. load32 (big_endian e) (drop 8 data))) (\<lambda>addr.
         bindM (getM nat_pmp_lan_sock) (\<lambda>fd.
         bindM (sys e (Sys_sendto fd (drop 12 data)
                  (Sockaddr_in addr (htons (big_endian e) port)))) (\<lambda>r.
         if r < 0 then returnM (-1) else returnM 0))))))"

definition query_socket_get :: "env \<Rightarrow> ptr \<Rightarrow> int M" where
  "query_socket_get e pkt =
     bindM (pkt_at pkt) (\<lambda>p.
     if p_proto p = IPPROTO_UDP then getM shared_udp_sock_fd
     else
       bindM (getM (\<lambda>s. (wan s, wanIP s))) (\<lambda>(ifname, addr).
       bindM (socket_add e ifname addr 0 (p_proto p) 0 0) (\<lambda>fd.
       if fd < 0 then returnM (-1) else returnM fd)))"

text \<open>A call of \<open>mapping_print\<close>: the mapping is read, the text is the one of \<^verbatim>\<open>Printing\<close>.\<close>

definition show_mapping :: "env \<Rightarrow> ptr \<Rightarrow> string M" where
  "show_mapping e m = readM (\<lambda>s. Option.bind (mheap s m) (mapping_print (big_endian e) s))"

lemma show_mapping_run:
  "show_mapping e m s =
     (case mheap s m of None \<Rightarrow> None
      | Some n \<Rightarrow> Some (Ret (the (mapping_print (big_endian e) s n)), s))"
  by (simp add: show_mapping_def mapping_print_def Log_def run_simps split: option.splits)

lemma wp_show_mapping [wp_simps]:
  "wpx ex (show_mapping e m) Q s =
     (\<exists>n. mheap s m = Some n \<and> Q (the (mapping_print (big_endian e) s n)) s)"
  by (simp add: wpx_def show_mapping_run split: option.splits)

definition query_send :: "env \<Rightarrow> ptr \<Rightarrow> ptr \<Rightarrow> int M" where
  "query_send e m pkt =
     bindM (mapping_at m) (\<lambda>n.
     bindM (pkt_at pkt) (\<lambda>p.
     sock_send e (m_wanSock n) (m_aftrIPv4 n) (p_data p) (p_datalen p) (m_routerPort n)))"

definition response_send :: "env \<Rightarrow> ptr \<Rightarrow> ptr \<Rightarrow> int M" where
  "response_send e m pkt =
     thenM (show_mapping e m)
     (bindM (mapping_at m) (\<lambda>n.
      bindM (pkt_at pkt) (\<lambda>p.
      sock_send e (m_lanSock n) (m_clientIP n) (p_data p) (p_datalen p) (m_clientPort n))))"

definition packet_valid :: "ptr \<Rightarrow> int" where
  "packet_valid pkt = 1"

text \<open>The last two cases of \<open>handle_packet\<close>: classic forwarding through the mappings.\<close>

definition handle_mapped :: "env \<Rightarrow> ptr \<Rightarrow> int M" where
  "handle_mapped e pkt =
     bindM (mapping_find pkt) (\<lambda>m.
     if m \<noteq> 0 then
       thenM (response_send e m pkt) (thenM (mapping_delete m) (returnM 0))
     else if packet_valid pkt \<noteq> 0 then
       bindM (query_socket_get e pkt) (\<lambda>s.
       bindM (mapping_create e pkt s) (\<lambda>m.
       thenM (mapping_add e m)
       (thenM (show_mapping e m)
       (bindM (query_send e m pkt) (\<lambda>r.
        if r < 0 then returnM (-1) else returnM 0)))))
     else returnM (-1))"

definition handle_packet :: "env \<Rightarrow> ptr \<Rightarrow> int M" where
  "handle_packet e pkt =
     bindM (pkt_at pkt) (\<lambda>p.
     if p_proto p = IPPROTO_TCP then
       (if p_datalen p \<noteq> 0 then handle_tcp_packet e pkt else handle_tcp_close e pkt)
     else
       bindM (packet_wan_mcast pkt) (\<lambda>w.
       if w \<noteq> 0 then
         bindM (getM (\<lambda>s. (lan_ssdp_sock s, mcast s))) (\<lambda>(fd, mc).
         thenM (sock_send e fd mc (p_data p) (p_datalen p) (p_dstPort p)) (returnM 0))
       else
         bindM (getM (\<lambda>s. (enable_nat_pmp_ext s, nat_pmp_ext_sock s))) (\<lambda>(ext, fd).
         if ext \<noteq> 0 then
           (if p_sock p = fd then handle_nat_pmp_ext_fromserver e pkt
            else handle_nat_pmp_ext_fromclient e pkt)
         else handle_mapped e pkt)))"

section \<open>The shim\<close>

text \<open>The twelve bytes the shim is meant to be, in front of the request.\<close>

definition shim :: "bool \<Rightarrow> u32 \<Rightarrow> int \<Rightarrow> u32 \<Rightarrow> byte list" where
  "shim be lan_ip src_port src_ip =
     [12, 80] @ take 2 (mem32 be (word_of_int src_port)) @ mem32 be lan_ip @ mem32 be src_ip"

lemma shim_buf_run:
  "shim_buf be l p c body buf =
     (if 12 + length body \<le> length buf
      then Some ((shim be l p c @ body) @ drop (12 + length body) buf) else None)"
  using writes_in_row [of "[]" "[(0, [12]), (1, [80]), (2, take 2 (mem32 be (word_of_int p))),
      (4, mem32 be l), (8, mem32 be c), (12, body)]" buf]
  by (simp add: shim_buf_def shim_def Let_def add.commute del: writes.simps)

lemma length_shim [simp]: "length (shim be l p c) = 12"
  by (simp add: shim_def)

lemma shim_head: "shim be l p c ! 0 = 12" "shim be l p c ! 1 = 80"
  by (simp_all add: shim_def)

lemma drop_shim: "drop 12 (shim be l p c @ body) = body"
  by simp

lemma shim_client_addr: "load32 be (drop 8 (shim be l p c @ body)) = Some c"
  by (simp add: shim_def)

text \<open>
  Bytes 2 and 3 of the shim, read back as the code reads them. On a little-endian machine they
  are the low half of the port; on a big-endian machine the high half.
\<close>

lemma shim_port_le: "load16 False (drop 2 (shim False l p c @ body)) = Some (word_of_int p)"
proof -
  have "take 2 (mem32 False (word_of_int p)) = mem16 False (word_of_int p :: u16)"
    by (simp add: mem32_def mem16_def Let_def numeral_2_eq_2)
       (auto intro!: bit_word_eqI simp: bit_simps)
  then show ?thesis by (simp add: shim_def)
qed

lemma shim_port_be:
  assumes "0 \<le> p" and "p < 65536"
  shows "load16 True (drop 2 (shim True l p c @ body)) = Some 0"
proof -
  have p: "\<not> bit p n" if "16 \<le> n" for n
  proof -
    have "p = take_bit 16 p" using assms by (simp add: take_bit_int_eq_self)
    then show ?thesis using that by (metis bit_take_bit_iff not_less)
  qed
  have "take 2 (mem32 True (word_of_int p)) = [0, 0]"
    by (simp add: mem32_def Let_def numeral_2_eq_2)
       (auto intro!: bit_word_eqI simp: bit_simps p)
  then show ?thesis by (simp add: shim_def)
qed

section \<open>Extended NAT-PMP\<close>

text \<open>A request of at most 100 bytes fits in the array, whose start is then the shim and the request.\<close>

lemma shim_buf_fits:
  assumes "pkt_ok p" and "p_datalen p \<le> 100"
  obtains buf where "shim_buf be l x c (p_data p) (replicate 128 0) = Some buf"
    "buf_bytes buf (p_datalen p + 12) = Some (shim be l x c @ p_data p)"
proof
  have len: "p_datalen p = int (length (p_data p))" using assms(1) by (simp add: pkt_ok_def)
  show "shim_buf be l x c (p_data p) (replicate 128 0) =
      Some ((shim be l x c @ p_data p) @ drop (12 + length (p_data p)) (replicate 128 0))"
    using assms(2) len by (simp add: shim_buf_run)
  show "buf_bytes ((shim be l x c @ p_data p) @ drop (12 + length (p_data p)) (replicate 128 0))
      (p_datalen p + 12) = Some (shim be l x c @ p_data p)"
    by (simp add: len buf_bytes_def nat_add_distrib)
qed

lemma fromclient_run:
  fixes e :: env
  assumes "pheap s pkt = Some p" and "pkt_ok p" and "p_datalen p \<le> 100"
  defines "c \<equiv> Sys_send (nat_pmp_ext_sock s)
      (shim (big_endian e) (lanIP s) (p_srcPort p) (p_srcIP p) @ p_data p)"
  shows "handle_nat_pmp_ext_fromclient e pkt s =
    Some (Ret (if e_ret e (hist s) c < 0 then -1 else 0),
      s\<lparr>hist := (c, e_ret e (hist s) c) # hist s\<rparr>)"
proof -
  obtain buf where "shim_buf (big_endian e) (lanIP s) (p_srcPort p) (p_srcIP p) (p_data p)
      (replicate 128 0) = Some buf"
    "buf_bytes buf (p_datalen p + 12) =
       Some (shim (big_endian e) (lanIP s) (p_srcPort p) (p_srcIP p) @ p_data p)"
    by (rule shim_buf_fits [OF assms(2,3)])
  then show ?thesis
    using assms(1,3)
    by (simp add: handle_nat_pmp_ext_fromclient_def run_simps pkt_ok_bytes [OF assms(2)] c_def)
qed

lemma fromclient_too_long:
  assumes "pheap s pkt = Some p" and "p_datalen p > 100"
  shows "handle_nat_pmp_ext_fromclient e pkt s = Some (Ret (-1), s)"
  using assms by (simp add: handle_nat_pmp_ext_fromclient_def run_simps)

lemma fromserver_bad:
  assumes "pheap s pkt = Some p" and "pkt_ok p"
    and "p_datalen p < 12 \<or> p_data p ! 0 \<noteq> 12 \<or> p_data p ! 1 \<noteq> 80"
  shows "handle_nat_pmp_ext_fromserver e pkt s = Some (Ret (-1), s)"
  using assms(1,3)
  by (auto simp: handle_nat_pmp_ext_fromserver_def run_simps pkt_ok_bytes [OF assms(2)])

lemma fromserver_run:
  fixes e :: env
  assumes "pheap s pkt = Some p" and "pkt_ok p" and "12 \<le> p_datalen p"
    and "p_data p ! 0 = 12" and "p_data p ! 1 = 80"
    and port: "load16 (big_endian e) (drop 2 (p_data p)) = Some port"
    and addr: "load32 (big_endian e) (drop 8 (p_data p)) = Some addr"
  defines "c \<equiv> Sys_sendto (nat_pmp_lan_sock s) (drop 12 (p_data p))
      (Sockaddr_in addr (htons (big_endian e) port))"
  shows "handle_nat_pmp_ext_fromserver e pkt s =
    Some (Ret (if e_ret e (hist s) c < 0 then -1 else 0),
      s\<lparr>hist := (c, e_ret e (hist s) c) # hist s\<rparr>)"
  using assms(1,3,4,5)
  by (simp add: handle_nat_pmp_ext_fromserver_def run_simps pkt_ok_bytes [OF assms(2)] port addr
      c_def)

text \<open>Twelve bytes are enough for both reads.\<close>

lemma shim_reads_defined:
  assumes "12 \<le> length d"
  shows "\<exists>w. load16 be (drop 2 d) = Some w" and "\<exists>w. load32 be (drop 8 d) = Some w"
proof -
  have "2 \<le> length (drop 2 d)" "4 \<le> length (drop 8 d)"
    using assms by simp_all
  then show "\<exists>w. load16 be (drop 2 d) = Some w" "\<exists>w. load32 be (drop 8 d) = Some w"
    by (blast intro: load16_defined load32_defined)+
qed

end
