(* ===== verification/Forward.thy ===== *)
theory Forward
  imports Handlers
begin

text \<open>
  What the handlers of \<^verbatim>\<open>src/framework.c\<close> do, on every branch: data of a relayed TCP connection
  goes to its other side and a closed one is removed; a classic query makes a mapping and goes to
  the AFTR, and a response goes back to the client of the mapping it matches.
\<close>

section \<open>TCP connections\<close>

lemma packet_delete_run:
  "pheap s pkt = Some p \<Longrightarrow> pkt \<noteq> 0 \<Longrightarrow>
     packet_delete pkt s = Some (Ret (), s\<lparr>pheap := (pheap s)(pkt := None)\<rparr>)"
  by (simp add: packet_delete_def run_simps)

lemma handle_tcp_packet_run:
  fixes e :: env
  assumes p: "pheap s pkt = Some p" "pkt \<noteq> 0" "pkt_ok p"
    and a: "socket_find (p_sock p) s = Some a" "a \<noteq> 0" "sheap s a = Some n"
    and b: "socket_find (s_peer n) s = Some b" "b \<noteq> 0" "sheap s b = Some m"
  defines "c \<equiv> Sys_send (s_fd m) (p_data p)"
  shows "handle_tcp_packet e pkt s =
    Some (Ret (min 0 (e_ret e (hist s) c)),
      s\<lparr>hist := (c, e_ret e (hist s) c) # hist s, pheap := (pheap s)(pkt := None)\<rparr>)"
  using p(1,2) a b
  by (simp add: handle_tcp_packet_def run_simps pkt_ok_bytes [OF p(3)] c_def packet_delete_run)

lemma handle_tcp_packet_unknown:
  assumes "pheap s pkt = Some p" and t: "tables s ms ss"
    and "p_sock p \<notin> set (sock_fds ss)"
  shows "handle_tcp_packet e pkt s = Some (Ret (-1), s)"
proof -
  have "\<forall>(a, n) \<in> set ss. s_fd n \<noteq> p_sock p"
    using assms(3) by (force simp: sock_fds_def)
  then have "socket_find (p_sock p) s = Some 0"
    using socket_find_cases [OF t, of "p_sock p"] by fastforce
  then show ?thesis
    using assms(1) by (simp add: handle_tcp_packet_def run_simps)
qed

text \<open>A relayed connection in the list of sockets.\<close>

lemma handle_tcp_packet_pair:
  fixes e :: env
  assumes t: "tables s ms ss" and d: "distinct (sock_fds ss)"
    and x: "(a, x) \<in> set ss" and y: "(b, y) \<in> set ss" and xy: "s_peer x = s_fd y"
    and p: "pheap s pkt = Some p" "pkt_ok p" "p_sock p = s_fd x"
  defines "c \<equiv> Sys_send (s_fd y) (p_data p)"
  shows "handle_tcp_packet e pkt s =
    Some (Ret (min 0 (e_ret e (hist s) c)),
      s\<lparr>hist := (c, e_ret e (hist s) c) # hist s, pheap := (pheap s)(pkt := None)\<rparr>)"
proof -
  have "pkt \<noteq> 0"
    using p(1) heap_okD(7) [OF tables_ok [OF t]] by (metis option.distinct(1))
  then show ?thesis
    using handle_tcp_packet_run [OF p(1) _ p(2), of a x b y]
      socket_find_mem [OF t d x] socket_find_mem [OF t d y] p(3) xy
    by (simp add: c_def)
qed

lemma handle_tcp_close_pair:
  fixes e :: env
  assumes t: "tables s ms ss" and d: "distinct (sock_fds ss)"
    and x: "(a, x) \<in> set ss" and y: "(b, y) \<in> set ss"
    and xy: "s_peer x = s_fd y" "s_fd x \<noteq> s_fd y"
    and p: "pheap s pkt = Some p" "p_datalen p = 0" "p_sock p = s_fd x"
  obtains u ss' r1 r2 where "handle_tcp_close e pkt s = Some (Ret 0, u)" "tables u ms ss'"
    "sock_view ss' = drop_fd (s_fd y) (drop_fd (s_fd x) (sock_view ss))" "sock_frame s u"
    "hist u = (Sys_close (s_fd y), r2) # (Sys_close (s_fd x), r1) # hist s"
proof -
  have mem: "s_fd x \<in> set (sock_fds ss)" "s_fd y \<in> set (sock_fds ss)"
    using x y by (force simp: sock_fds_def)+
  obtain t1 s1 where del1: "socket_del e (s_fd x) s = Some (Ret 0, t1)" "tables t1 ms s1"
    "sock_view s1 = drop_fd (s_fd x) (sock_view ss)" "sock_frame s t1"
    "hist t1 = (Sys_close (s_fd x), e_ret e (hist s) (Sys_close (s_fd x))) # hist s"
    by (rule socket_del_mem [OF t d mem(1), where e = e])
  have fds: "sock_fds s1 = filter (\<lambda>z. z \<noteq> s_fd x) (sock_fds ss)"
    using sock_fds_view [of s1] del1(3) by (simp only: sock_fds_drop_fd sock_fds_view)
  have d1: "distinct (sock_fds s1)" and m1: "s_fd y \<in> set (sock_fds s1)"
    using d mem xy by (simp_all add: fds)
  obtain u s2 where del2: "socket_del e (s_fd y) t1 = Some (Ret 0, u)" "tables u ms s2"
    "sock_view s2 = drop_fd (s_fd y) (sock_view s1)" "sock_frame t1 u"
    "hist u = (Sys_close (s_fd y), e_ret e (hist t1) (Sys_close (s_fd y))) # hist t1"
    by (rule socket_del_mem [OF del1(2) d1 m1, where e = e])
  have "handle_tcp_close e pkt s = Some (Ret 0, u)"
    using p xy socket_find_mem [OF t d x] del1(1) del2(1)
    by (simp add: handle_tcp_close_def run_simps)
  then show thesis
    using del1 del2 sock_frame.R_trans by (intro that) auto
qed

section \<open>Classic forwarding\<close>

text \<open>The datagram \<open>sock_send\<close> sends.\<close>

abbreviation datagram :: "env \<Rightarrow> int \<Rightarrow> byte list \<Rightarrow> u32 \<Rightarrow> int \<Rightarrow> syscall" where
  "datagram e fd bytes addr port \<equiv>
     Sys_sendto fd bytes (Sockaddr_in addr (htons_int (big_endian e) port))"

lemma sock_send_run:
  fixes e :: env
  assumes "pkt_ok p"
  defines "c fd addr port \<equiv> datagram e fd (p_data p) addr port"
  shows "sock_send e fd addr (p_data p) (p_datalen p) port s =
    Some (Ret (if e_ret e (hist s) (c fd addr port) < 0 then LOWLEVEL_ERROR_SOCKET else 0),
      s\<lparr>hist := (c fd addr port, e_ret e (hist s) (c fd addr port)) # hist s\<rparr>)"
  by (simp add: sock_send_def run_simps pkt_ok_bytes [OF assms(1)] c_def LOWLEVEL_NO_ERROR_def)

text \<open>A response: sent to the client of the first matching mapping, which is deleted.\<close>

lemma handle_mapped_response:
  fixes e :: env
  assumes t: "tables s (ys @ (a, m) # zs) ss"
    and p: "pheap s pkt = Some p" "pkt_ok p"
    and m: "mapping_match (mcast s) p m" "\<forall>(b, n) \<in> set ys. \<not> mapping_match (mcast s) p n"
  defines "c \<equiv> datagram e (m_lanSock m) (p_data p) (m_clientIP m) (m_clientPort m)"
  obtains u ms' where "handle_mapped e pkt s = Some (Ret 0, u)" "tables u ms' ss"
    "map_view ms' = map_view (ys @ zs)" "map_frame s u"
    "hist u = (c, e_ret e (hist s) c) # hist s"
proof -
  let ?s = "s\<lparr>hist := (c, e_ret e (hist s) c) # hist s\<rparr>"
  have "chain_at m_next (mheap s) (mappings s) (ys @ (a, m) # zs)"
    using t by (simp add: tables_def)
  then have a: "a \<noteq> 0" "mheap s a = Some m"
    using chain_at_mem by fastforce+
  have "first_addr (mapping_match (mcast s) p) (ys @ (a, m) # zs) = a"
    using m by (induction ys) auto
  then have f: "mapping_find pkt s = Some (Ret a, s)"
    using mapping_find_run [OF t p(1)] by simp
  have "tables ?s (ys @ (a, m) # zs) ss" using t by simp
  then obtain u ms' where del: "mapping_delete a ?s = Some (Ret 0, u)" "tables u ms' ss"
    "map_view ms' = map_view (ys @ zs)" "map_frame ?s u" "hist u = hist ?s"
    by (rule mapping_delete_hit)
  have "handle_mapped e pkt s = Some (Ret 0, u)"
    using f a p(1) del(1)
    by (simp add: handle_mapped_def response_send_def show_mapping_run run_simps
        sock_send_run [OF p(2)] c_def)
  moreover have "map_frame s u"
    using del(4) map_frame.R_trans only_hist_map_frame only_hist_push by blast
  ultimately show thesis
    using del by (intro that) simp_all
qed

text \<open>
  A UDP query without a matching mapping: a mapping for it is put in front of the list, and the
  data goes to the AFTR, or to the multicast group if it was sent there.
\<close>

lemma handle_mapped_query:
  fixes e :: env
  assumes t: "tables s ms ss" and p: "pheap s pkt = Some p" "pkt_ok p"
    and udp: "p_proto p = IPPROTO_UDP"
    and none: "\<forall>(b, n) \<in> set ms. \<not> mapping_match (mcast s) p n"
  defines "fd \<equiv> shared_udp_sock_fd s"
  defines "port \<equiv> local_port e (hist s) fd"
  defines "h1 \<equiv> (Sys_getsockname fd, e_ret e (hist s) (Sys_getsockname fd)) # hist s"
  defines "now \<equiv> e_ret e h1 Sys_time"
  defines "h2 \<equiv> (Sys_time, now) # h1"
  defines "m \<equiv> (new_mapping s p fd port)
      \<lparr>m_next := mappings s, m_timeout := word_of_int (now + timeout s)\<rparr>"
  defines "c \<equiv> datagram e fd (p_data p) (m_aftrIPv4 m) (p_dstPort p)"
  obtains u where
    "handle_mapped e pkt s = Some (Ret (if e_ret e h2 c < 0 then -1 else 0), u)"
    "tables u ((brk s, m) # ms) ss" "map_frame s u" "hist u = (c, e_ret e h2 c) # h2"
proof -
  let ?s1 = "s\<lparr>hist := h1, brk := Suc (brk s), mheap := (mheap s)(brk s \<mapsto> new_mapping s p fd port)\<rparr>"
  let ?s2 = "?s1\<lparr>hist := (Sys_time, now) # hist ?s1, mheap := (mheap ?s1)(brk s \<mapsto> m), mappings := brk s\<rparr>"
  let ?u = "?s2\<lparr>hist := (c, e_ret e h2 c) # h2\<rparr>"
  have "first_addr (mapping_match (mcast s) p) ms = 0"
    using none by (induction ms) auto
  then have f: "mapping_find pkt s = Some (Ret 0, s)"
    using mapping_find_run [OF t p(1)] by simp
  have fresh: "brk s \<notin> fst ` set ms" "brk s \<noteq> 0"
    using tables_brk_fresh [OF t] heap_okD(4) [OF tables_ok [OF t]] by simp_all
  have t1: "tables ?s1 ms ss"
    using t fresh by (auto simp: tables_def heap_ok_def)
  have add: "mapping_add e (brk s) ?s1 = Some (Ret (), ?s2)"
    using mapping_add_run(1) [OF t1, of "brk s" "new_mapping s p fd port" e] fresh
    by (simp add: now_def m_def)
  have t2: "tables ?s2 ((brk s, m) # ms) ss"
    using mapping_add_run(2) [OF t1, of "brk s" "new_mapping s p fd port" e] fresh
    by (simp add: now_def m_def)
  have m: "m_wanSock m = fd" "m_routerPort m = p_dstPort p"
    by (simp_all add: m_def new_mapping_def)
  have "handle_mapped e pkt s = Some (Ret (if e_ret e h2 c < 0 then -1 else 0), ?u)"
    using f p(1) udp add m
    by (simp add: handle_mapped_def query_socket_get_def run_simps mapping_create_run [OF p(1)]
        packet_valid_def show_mapping_run query_send_def sock_send_run [OF p(2)] fd_def [symmetric]
        h1_def [symmetric] port_def [symmetric] h2_def [symmetric] c_def [symmetric]
        LOWLEVEL_ERROR_SOCKET_def)
  moreover have "tables ?u ((brk s, m) # ms) ss"
    using t2 by (subst tables_cong [of ?u ?s2]) simp_all
  moreover have "map_frame s ?u"
    unfolding map_frame_def
    by (intro exI [of _ "brk s"] exI [of _ "(mheap s)(brk s \<mapsto> m)"] exI [of _ "Suc (brk s)"]
        exI [of _ "[(c, e_ret e h2 c), (Sys_time, now),
          (Sys_getsockname fd, e_ret e (hist s) (Sys_getsockname fd))]"])
       (simp add: h1_def h2_def)
  ultimately show thesis by (intro that [of ?u]) simp_all
qed

section \<open>Dispatch\<close>

lemma handle_packet_udp:
  assumes "pheap s pkt = Some p" and "p_proto p = IPPROTO_UDP"
    and "p_dstIP p \<noteq> mcast s \<or> p_sock p \<noteq> wan_ssdp_sock s"
  shows "handle_packet e pkt s =
    (if enable_nat_pmp_ext s = 0 then handle_mapped e pkt s
     else if p_sock p = nat_pmp_ext_sock s then handle_nat_pmp_ext_fromserver e pkt s
     else handle_nat_pmp_ext_fromclient e pkt s)"
  using assms
  by (auto simp: handle_packet_def run_simps packet_wan_mcast_def addr_cmp_def ipproto_defs)

lemma handle_packet_tcp:
  assumes "pheap s pkt = Some p" and "p_proto p = IPPROTO_TCP"
  shows "handle_packet e pkt s =
    (if p_datalen p = 0 then handle_tcp_close e pkt s else handle_tcp_packet e pkt s)"
  using assms by (simp add: handle_packet_def run_simps)

section \<open>Properties\<close>

text \<open>
  C3: extended NAT-PMP on a little-endian machine. A client's datagram of at most
  100 bytes goes to the AFTR behind a 12-byte shim. Any answer that starts with the same shim is
  sent, without it, from the LAN socket to the address and port the datagram came from.
\<close>

theorem ext_round_trip:
  fixes e :: env
  assumes le: "\<not> big_endian e"
    and p: "pheap s pkt = Some p" "pkt_ok p" "p_proto p = IPPROTO_UDP" "p_datalen p \<le> 100"
    and here: "enable_nat_pmp_ext s \<noteq> 0" "p_sock p \<noteq> nat_pmp_ext_sock s"
      "p_dstIP p \<noteq> mcast s \<or> p_sock p \<noteq> wan_ssdp_sock s"
    and q: "pheap u pkt2 = Some q" "pkt_ok q" "p_proto q = IPPROTO_UDP"
      "p_data q = shim False (lanIP s) (p_srcPort p) (p_srcIP p) @ body"
    and there: "enable_nat_pmp_ext u \<noteq> 0" "p_sock q = nat_pmp_ext_sock u"
      "p_dstIP q \<noteq> mcast u \<or> p_sock q \<noteq> wan_ssdp_sock u"
  shows "(\<exists>r t. handle_packet e pkt s = Some (Ret r, t) \<and>
      fst (hd (hist t)) = Sys_send (nat_pmp_ext_sock s)
        (shim False (lanIP s) (p_srcPort p) (p_srcIP p) @ p_data p) \<and> tl (hist t) = hist s) \<and>
    (\<exists>r t. handle_packet e pkt2 u = Some (Ret r, t) \<and>
      fst (hd (hist t)) = Sys_sendto (nat_pmp_lan_sock u) body
        (Sockaddr_in (p_srcIP p) (htons False (word_of_int (p_srcPort p)))) \<and> tl (hist t) = hist u)"
proof (rule conjI)
  have len: "12 \<le> p_datalen q"
    using q(2,4) by (simp add: pkt_ok_def)
  show "\<exists>r t. handle_packet e pkt s = Some (Ret r, t) \<and>
      fst (hd (hist t)) = Sys_send (nat_pmp_ext_sock s)
        (shim False (lanIP s) (p_srcPort p) (p_srcIP p) @ p_data p) \<and> tl (hist t) = hist s"
    using le here by (simp add: handle_packet_udp [OF p(1,3) here(3)] fromclient_run [OF p(1,2,4)])
  have "handle_packet e pkt2 u = handle_nat_pmp_ext_fromserver e pkt2 u"
    using there by (simp add: handle_packet_udp [OF q(1,3) there(3)])
  then show "\<exists>r t. handle_packet e pkt2 u = Some (Ret r, t) \<and>
      fst (hd (hist t)) = Sys_sendto (nat_pmp_lan_sock u) body
        (Sockaddr_in (p_srcIP p) (htons False (word_of_int (p_srcPort p)))) \<and> tl (hist t) = hist u"
    using fromserver_run [OF q(1,2) len, of e "word_of_int (p_srcPort p)" "p_srcIP p"] le
    by (simp add: q(4) shim_head(1) shim_head(2) [simplified] nth_append shim_port_le shim_client_addr drop_shim del: drop_append)
qed

theorem ext_round_trip_witness:
  "(\<exists>r t. handle_packet sample_env 5 (sample_state (sample_pkt 17 [0, 1])) = Some (Ret r, t) \<and>
      fst (hd (hist t)) = Sys_send 8 (shim False 21 5351 23 @ [0, 1]) \<and> tl (hist t) = []) \<and>
   (\<exists>r t. handle_packet sample_env 5 (sample_state
        ((sample_pkt 17 (shim False 21 5351 23 @ [7]))\<lparr>p_sock := 8\<rparr>)) = Some (Ret r, t) \<and>
      fst (hd (hist t)) = Sys_sendto 7 [7] (Sockaddr_in 23 (htons False (word_of_int 5351))) \<and>
      tl (hist t) = [])"
  using ext_round_trip [of sample_env "sample_state (sample_pkt 17 [0, 1])" 5 "sample_pkt 17 [0, 1]"
      "sample_state ((sample_pkt 17 (shim False 21 5351 23 @ [7]))\<lparr>p_sock := 8\<rparr>)" 5
      "(sample_pkt 17 (shim False 21 5351 23 @ [7]))\<lparr>p_sock := 8\<rparr>" "[7]"]
  by (simp add: sample_pkt_def pkt_ok_def RECV_LEN_def ipproto_defs)

text \<open>
  C19: on a big-endian machine the first twelve bytes written for a client,
  the shim, carry the high half of the port, which is 0, so an answer that starts with them goes to
  port 0 of the client.
\<close>

theorem ext_port_lost_big_endian:
  fixes e :: env
  assumes be: "big_endian e" and port: "0 \<le> p_srcPort p" "p_srcPort p < 65536"
    and q: "pheap u pkt2 = Some q" "pkt_ok q" "p_proto q = IPPROTO_UDP"
      "shim_buf True (lanIP s) (p_srcPort p) (p_srcIP p) request buf = Some sent"
      "p_data q = take 12 sent @ body"
    and there: "enable_nat_pmp_ext u \<noteq> 0" "p_sock q = nat_pmp_ext_sock u"
      "p_dstIP q \<noteq> mcast u \<or> p_sock q \<noteq> wan_ssdp_sock u"
  shows "\<exists>r t. handle_packet e pkt2 u = Some (Ret r, t) \<and>
      fst (hd (hist t)) = Sys_sendto (nat_pmp_lan_sock u) body (Sockaddr_in (p_srcIP p) 0)"
proof -
  have sent: "take 12 sent = shim True (lanIP s) (p_srcPort p) (p_srcIP p)"
    using q(4) by (auto simp: shim_buf_run split: if_splits)
  have len: "12 \<le> p_datalen q"
    using q(2,5) sent by (simp add: pkt_ok_def)
  have "handle_packet e pkt2 u = handle_nat_pmp_ext_fromserver e pkt2 u"
    using there by (simp add: handle_packet_udp [OF q(1,3) there(3)])
  moreover have "htons True 0 = 0" by (simp add: htons_def)
  ultimately show ?thesis
    using fromserver_run [OF q(1,2) len, of e 0 "p_srcIP p"] be
    by (simp add: q(5) sent shim_head(1) shim_head(2) [simplified] nth_append shim_port_be [OF port]
        shim_client_addr drop_shim del: drop_append)
qed

theorem ext_port_lost_big_endian_witness:
  "\<exists>sent r t. shim_buf True 21 5351 23 [9, 9] (replicate 128 0) = Some sent \<and>
      handle_packet (sample_env\<lparr>big_endian := True\<rparr>) 5 (sample_state
        ((sample_pkt 17 (take 12 sent @ [7]))\<lparr>p_sock := 8\<rparr>)) = Some (Ret r, t) \<and>
      fst (hd (hist t)) = Sys_sendto 7 [7] (Sockaddr_in 23 0)"
proof -
  let ?e = "sample_env\<lparr>big_endian := True\<rparr>"
  obtain sent where w: "shim_buf True 21 5351 23 [9, 9] (replicate 128 0) = Some sent" "length (take 12 sent) = 12"
    by (simp add: shim_buf_run)
  let ?q = "(sample_pkt 17 (take 12 sent @ [7]))\<lparr>p_sock := 8\<rparr>"
  have "pkt_ok ?q" using w(2) by (simp add: sample_pkt_def pkt_ok_def RECV_LEN_def)
  then show ?thesis
    using ext_port_lost_big_endian [of ?e "sample_pkt 17 []" "sample_state ?q" 5 ?q
        "sample_state (sample_pkt 17 [])" "[9, 9]" "replicate 128 0" sent "[7]"] w(1)
    by (auto simp: sample_pkt_def ipproto_defs)
qed

text \<open>
  C2: classic forwarding. A UDP query with no mapping is sent on the shared
  socket, to the AFTR or to the multicast group it was addressed to, and leaves one new mapping.
  A packet that later comes back to that socket's port from the queried port (from the AFTR, or
  from anybody if the query was multicast) is sent to the client's address and port on the socket
  the query came in by, and the new mapping is gone again.
\<close>

theorem classic_round_trip:
  fixes e :: env
  assumes t: "tables s ms ss"
    and off: "enable_nat_pmp_ext s = 0" and mc: "wanIP s \<noteq> mcast s"
    and p: "pheap s pkt = Some p" "pkt_ok p" "p_proto p = IPPROTO_UDP"
      "p_dstIP p \<noteq> mcast s \<or> p_sock p \<noteq> wan_ssdp_sock s"
    and new: "\<forall>(a, m) \<in> set ms. \<not> mapping_match (mcast s) p m"
    and q: "pkt_ok q" "p_proto q = IPPROTO_UDP" "p_dstIP q = wanIP s"
      "p_srcPort q = p_dstPort p" "p_dstPort q = local_port e (hist s) (shared_udp_sock_fd s)"
      "p_dstIP p = mcast s \<or> p_srcIP q = aftrIPv4 s"
  shows "\<exists>r u. handle_packet e pkt s = Some (Ret r, u) \<and>
      fst (hd (hist u)) = datagram e (shared_udp_sock_fd s) (p_data p)
        (if p_dstIP p = mcast s then mcast s else aftrIPv4 s) (p_dstPort p) \<and>
      (\<exists>m. tables u ((brk s, m) # ms) ss \<and>
        (\<forall>w a. tables w ((brk s, m) # ms) ss \<and> pheap w a = Some q \<and> mcast w = mcast s \<and>
             enable_nat_pmp_ext w = 0 \<longrightarrow>
           (\<exists>v ms'. handle_packet e a w = Some (Ret 0, v) \<and>
              fst (hd (hist v)) = datagram e (p_sock p) (p_data q) (p_srcIP p) (p_srcPort p) \<and>
              tl (hist v) = hist w \<and> tables v ms' ss \<and> map_view ms' = map_view ms)))"
proof -
  let ?fd = "shared_udp_sock_fd s"
  define m where "m = (new_mapping s p ?fd (local_port e (hist s) ?fd))\<lparr>m_next := mappings s,
    m_timeout := word_of_int (e_ret e ((Sys_getsockname ?fd,
      e_ret e (hist s) (Sys_getsockname ?fd)) # hist s) Sys_time + timeout s)\<rparr>"
  have m: "m_aftrIPv4 m = (if p_dstIP p = mcast s then mcast s else aftrIPv4 s)"
    "m_lanSock m = p_sock p" "m_clientIP m = p_srcIP p" "m_clientPort m = p_srcPort p"
    by (simp_all add: m_def new_mapping_def)
  obtain r u where u: "handle_mapped e pkt s = Some (Ret r, u)" "tables u ((brk s, m) # ms) ss"
    "fst (hd (hist u)) = datagram e ?fd (p_data p) (m_aftrIPv4 m) (p_dstPort p)"
    by (rule handle_mapped_query [OF t p(1-3) new, where e = e]) (simp add: m_def)
  have "mapping_match (mcast s) q m"
    using q(2-6) p(3) by (auto simp: mapping_match_def m_def new_mapping_def addr_cmp_def)
  have resp: "\<exists>v ms'. handle_packet e a w = Some (Ret 0, v) \<and>
              fst (hd (hist v)) = datagram e (p_sock p) (p_data q) (p_srcIP p) (p_srcPort p) \<and>
              tl (hist v) = hist w \<and> tables v ms' ss \<and> map_view ms' = map_view ms"
    if w: "tables w ([] @ (brk s, m) # ms) ss" "pheap w a = Some q" "mcast w = mcast s"
      "enable_nat_pmp_ext w = 0" for w a
  proof -
    have hp: "handle_packet e a w = handle_mapped e a w"
      using w(3,4) q(3) mc by (subst handle_packet_udp [OF w(2) q(2)]) auto
    have "mapping_match (mcast w) q m" using \<open>mapping_match (mcast s) q m\<close> w(3) by simp
    then show ?thesis
      by (rule handle_mapped_response [OF w(1,2) q(1), where e = e]) (simp_all add: hp m, blast)
  qed
  have "handle_packet e pkt s = Some (Ret r, u)"
    using off by (simp add: handle_packet_udp [OF p(1,3,4)] u(1))
  then show ?thesis
    using u(2,3) resp unfolding m(1) append_Nil by blast
qed

theorem classic_round_trip_witness:
  "\<exists>r u. handle_packet sample_env 5 ((sample_state ((sample_pkt 17 [9])\<lparr>p_dstPort := 1900\<rparr>))
          \<lparr>enable_nat_pmp_ext := 0\<rparr>) = Some (Ret r, u) \<and>
      fst (hd (hist u)) = datagram sample_env 8 [9] 23 1900"
proof -
  let ?p = "(sample_pkt 17 [9])\<lparr>p_dstPort := 1900\<rparr>"
  let ?s = "(sample_state ?p)\<lparr>enable_nat_pmp_ext := 0\<rparr>"
  let ?q = "(sample_pkt 17 [])\<lparr>p_srcPort := 1900,
      p_dstPort := local_port sample_env [] 8\<rparr>"
  have "tables ?s sample_ms sample_ss"
    using sample_tables by (subst tables_cong [of ?s "sample_state ?p"]) simp_all
  then show ?thesis
    using classic_round_trip [of ?s sample_ms sample_ss 5 ?p ?q sample_env]
    by (simp add: sample_pkt_def pkt_ok_def RECV_LEN_def ipproto_defs mapping_match_def
        addr_cmp_def sample_m1_def sample_m2_def) blast
qed

text \<open>
  C9: the mappings of two clients that asked the same port of the AFTR are
  told apart by nothing an answer carries, as both queries left from the shared socket. After both
  queries the first answer goes to the client that asked last, whichever query it answers, and its
  mapping is removed; the mapping of the first client stays.
\<close>

theorem answers_go_to_last_client:
  fixes e :: env
  assumes t: "tables s ms ss" and off: "enable_nat_pmp_ext s = 0"
    and mc: "wanIP s \<noteq> mcast s" "aftrIPv4 s \<noteq> mcast s"
    and fd: "\<forall>h. local_port e h (shared_udp_sock_fd s) = wan_port"
    and p: "pheap s a1 = Some p1" "pheap s a2 = Some p2"
      "\<forall>p \<in> {p1, p2}. pkt_ok p \<and> p_proto p = IPPROTO_UDP \<and> p_dstIP p \<noteq> mcast s \<and> p_dstPort p = port \<and>
         p_srcIP p \<noteq> aftrIPv4 s \<and> (\<forall>(b, m) \<in> set ms. \<not> mapping_match (mcast s) p m)"
    and q: "pheap s a3 = Some q" "pkt_ok q" "p_proto q = IPPROTO_UDP" "p_srcIP q = aftrIPv4 s"
      "p_dstIP q = wanIP s" "p_srcPort q = port" "p_dstPort q = wan_port"
  shows "\<exists>v ms' m. thenM (handle_packet e a1) (thenM (handle_packet e a2) (handle_packet e a3)) s = Some (Ret 0, v) \<and>
      fst (hd (hist v)) = datagram e (p_sock p2) (p_data q) (p_srcIP p2) (p_srcPort p2) \<and>
      tables v ms' ss \<and> map_view ms' = map_view ((brk s, m) # ms) \<and> m_clientIP m = p_srcIP p1"
proof -
  have query: "\<exists>r u m. handle_packet e a s' = Some (Ret r, u) \<and> tables u ((brk s', m) # ms'') ss \<and>
      map_frame s' u \<and> m_lanSock m = p_sock p \<and> m_clientIP m = p_srcIP p \<and> m_clientPort m = p_srcPort p \<and>
      m_aftrIPv4 m = aftrIPv4 s \<and> m_wanIP m = wanIP s \<and> m_routerPort m = port \<and> m_wanPort m = wan_port \<and>
      m_proto m = IPPROTO_UDP"
    if s': "tables s' ms'' ss" "map_frame s s'" "pheap s' a = Some p" "p \<in> {p1, p2}"
      "\<forall>(b, n) \<in> set ms''. \<not> mapping_match (mcast s) p n" for s' ms'' a p
  proof -
    note same = map_frame_fields [OF s'(2)]
    have conf: "enable_nat_pmp_ext s' = 0" "shared_udp_sock_fd s' = shared_udp_sock_fd s"
      using s'(2) off by (auto simp: map_frame_def)
    have pp: "pkt_ok p" "p_proto p = IPPROTO_UDP" "p_dstIP p \<noteq> mcast s" "p_dstPort p = port"
      using p(3) s'(4) by auto
    define m where "m = (new_mapping s' p (shared_udp_sock_fd s') (local_port e (hist s') (shared_udp_sock_fd s')))
      \<lparr>m_next := mappings s', m_timeout := word_of_int (e_ret e ((Sys_getsockname (shared_udp_sock_fd s'),
        e_ret e (hist s') (Sys_getsockname (shared_udp_sock_fd s'))) # hist s') Sys_time + timeout s')\<rparr>"
    have m: "m_lanSock m = p_sock p" "m_clientIP m = p_srcIP p" "m_clientPort m = p_srcPort p"
      "m_aftrIPv4 m = aftrIPv4 s" "m_wanIP m = wanIP s" "m_routerPort m = port" "m_wanPort m = wan_port"
      "m_proto m = IPPROTO_UDP"
      using fd pp same by (simp_all add: m_def new_mapping_def conf)
    obtain r u where u: "handle_mapped e a s' = Some (Ret r, u)" "tables u ((brk s', m) # ms'') ss"
      "map_frame s' u"
      by (rule handle_mapped_query [OF s'(1,3) pp(1,2), where e = e]) (use s'(5) same in \<open>auto simp: m_def\<close>)
    have "handle_packet e a s' = Some (Ret r, u)"
      using conf pp(3) same by (simp add: handle_packet_udp [OF s'(3) pp(2)] u(1))
    then show ?thesis using u m by blast
  qed
  obtain r1 u m1 where u: "handle_packet e a1 s = Some (Ret r1, u)" "tables u ((brk s, m1) # ms) ss"
    "map_frame s u" "m_clientIP m1 = p_srcIP p1" "m_aftrIPv4 m1 = aftrIPv4 s"
    using query [OF t map_frame.R_refl p(1)] p(3) by fastforce
  have "pheap u a2 = Some p2" using map_frame_fields(3) [OF u(3)] p(2) by simp
  moreover have "\<forall>(b, n) \<in> set ((brk s, m1) # ms). \<not> mapping_match (mcast s) p2 n"
    using p(3) u(5) mc(2) by (auto simp: mapping_match_def addr_cmp_def)
  ultimately obtain r2 w m2 where w: "handle_packet e a2 u = Some (Ret r2, w)"
    "tables w ((brk u, m2) # (brk s, m1) # ms) ss" "map_frame u w" "m_lanSock m2 = p_sock p2"
    "m_clientIP m2 = p_srcIP p2" "m_clientPort m2 = p_srcPort p2" "m_aftrIPv4 m2 = aftrIPv4 s"
    "m_wanIP m2 = wanIP s" "m_routerPort m2 = port" "m_wanPort m2 = wan_port" "m_proto m2 = IPPROTO_UDP"
    using query [OF u(2,3), of a2 p2] by blast
  have sw: "map_frame s w" using u(3) w(3) by (rule map_frame.R_trans)
  note same = map_frame_fields [OF sw]
  have conf: "enable_nat_pmp_ext w = 0" using sw off by (auto simp: map_frame_def)
  have qw: "pheap w a3 = Some q" using same q(1) by simp
  have ww: "tables w ([] @ (brk u, m2) # (brk s, m1) # ms) ss" using w(2) by simp
  have hit: "mapping_match (mcast w) q m2"
    using q(3-7) w(7-11) by (simp add: mapping_match_def addr_cmp_def)
  obtain v ms' where v: "handle_mapped e a3 w = Some (Ret 0, v)" "tables v ms' ss"
    "map_view ms' = map_view ([] @ (brk s, m1) # ms)"
    "hist v = (datagram e (m_lanSock m2) (p_data q) (m_clientIP m2) (m_clientPort m2),
       e_ret e (hist w) (datagram e (m_lanSock m2) (p_data q) (m_clientIP m2) (m_clientPort m2))) # hist w"
    by (rule handle_mapped_response [OF ww qw q(2) hit, where e = e]) (simp, rule that)
  have "handle_packet e a3 w = Some (Ret 0, v)"
    using conf q(5) mc(1) same by (simp add: handle_packet_udp [OF qw q(3)] v(1))
  then have "thenM (handle_packet e a1) (thenM (handle_packet e a2) (handle_packet e a3)) s = Some (Ret 0, v)"
    using u(1) w(1) by (simp add: run_simps)
  moreover have "fst (hd (hist v)) = datagram e (p_sock p2) (p_data q) (p_srcIP p2) (p_srcPort p2)"
    by (simp add: v(4) w(4-6))
  ultimately show ?thesis using v(2,3) u(4) unfolding append_Nil by blast
qed

theorem answers_go_to_last_client_witness:
  "\<exists>s v. thenM (handle_packet sample_env 5) (thenM (handle_packet sample_env 6) (handle_packet sample_env 7)) s =
      Some (Ret 0, v) \<and>
    pheap s 5 = Some ((sample_pkt 17 [1])\<lparr>p_srcIP := 60, p_srcPort := 4001\<rparr>) \<and>
    pheap s 6 = Some ((sample_pkt 17 [2])\<lparr>p_srcIP := 70, p_srcPort := 4002\<rparr>) \<and>
    fst (hd (hist v)) = datagram sample_env 7 [9] 70 4002"
proof -
  let ?p = "\<lambda>b ip port. (sample_pkt 17 [b])\<lparr>p_srcIP := ip, p_srcPort := port\<rparr>"
  let ?w = "local_port sample_env [] 8"
  let ?q = "(sample_pkt 17 [9])\<lparr>p_srcPort := 6000, p_dstPort := ?w\<rparr>"
  let ?s = "sample0\<lparr>enable_nat_pmp_ext := 0, brk := 8, pheap := [5 \<mapsto> ?p 1 60 4001, 6 \<mapsto> ?p 2 70 4002, 7 \<mapsto> ?q]\<rparr>"
  have t: "tables ?s sample_ms sample_ss"
    using sample_tables [of "sample_pkt 17 []"] by (simp add: tables_def heap_ok_def sample_state_def)
  have fd: "\<forall>h. local_port sample_env h (shared_udp_sock_fd ?s) = ?w"
    by (simp add: local_port_def sample_env_def)
  have p: "\<forall>p \<in> {?p 1 60 4001, ?p 2 70 4002}. pkt_ok p \<and> p_proto p = IPPROTO_UDP \<and> p_dstIP p \<noteq> mcast ?s \<and>
      p_dstPort p = 6000 \<and> p_srcIP p \<noteq> aftrIPv4 ?s \<and>
      (\<forall>(b, m) \<in> set sample_ms. \<not> mapping_match (mcast ?s) p m)"
    by (simp add: sample_pkt_def pkt_ok_def RECV_LEN_def ipproto_defs mapping_match_def addr_cmp_def
        sample_m1_def sample_m2_def)
  have q: "pkt_ok ?q" "p_proto ?q = IPPROTO_UDP"
    by (simp_all add: sample_pkt_def pkt_ok_def RECV_LEN_def ipproto_defs)
  have "\<exists>v ms' m. thenM (handle_packet sample_env 5) (thenM (handle_packet sample_env 6) (handle_packet sample_env 7)) ?s =
      Some (Ret 0, v) \<and> fst (hd (hist v)) = datagram sample_env (p_sock (?p 2 70 4002)) (p_data ?q)
        (p_srcIP (?p 2 70 4002)) (p_srcPort (?p 2 70 4002)) \<and>
      tables v ms' sample_ss \<and> map_view ms' = map_view ((brk ?s, m) # sample_ms) \<and>
      m_clientIP m = p_srcIP (?p 1 60 4001)"
    by (rule answers_go_to_last_client [OF t _ _ _ fd _ _ p _ q]) (simp_all add: sample_pkt_def)
  then obtain v where v: "thenM (handle_packet sample_env 5) (thenM (handle_packet sample_env 6) (handle_packet sample_env 7)) ?s =
      Some (Ret 0, v)" "fst (hd (hist v)) = datagram sample_env 7 [9] 70 4002"
    by (auto simp: sample_pkt_def)
  show ?thesis
    by (rule exI [of _ ?s], rule exI [of _ v]) (use v in simp)
qed

text \<open>
  C11: data received on one socket of a relayed connection is sent, unchanged and
  whole, on the descriptor of its peer; nothing else is called, and the packet is freed.
\<close>

theorem tcp_data_relayed:
  fixes e :: env
  assumes "tables s ms ss" and "distinct (sock_fds ss)"
    and "(a, x) \<in> set ss" and "(b, y) \<in> set ss" and "relay_pair x y"
    and "pheap s pkt = Some p" "pkt_ok p" "p_proto p = IPPROTO_TCP" "p_sock p = s_fd x"
    and "p_data p \<noteq> []"
  shows "\<exists>r t. handle_packet e pkt s = Some (Ret r, t) \<and> r \<le> 0 \<and>
      fst (hd (hist t)) = Sys_send (s_fd y) (p_data p) \<and> tl (hist t) = hist s \<and>
      tables t ms ss \<and> pheap t pkt = None"
proof -
  let ?c = "Sys_send (s_fd y) (p_data p)"
  let ?t = "s\<lparr>hist := (?c, e_ret e (hist s) ?c) # hist s, pheap := (pheap s)(pkt := None)\<rparr>"
  have "p_datalen p \<noteq> 0" using assms(7,10) by (simp add: pkt_ok_def)
  then have "handle_packet e pkt s = Some (Ret (min 0 (e_ret e (hist s) ?c)), ?t)"
    using assms handle_packet_tcp [of s pkt p e]
      handle_tcp_packet_pair [OF assms(1-4) _ assms(6,7,9), of e]
    by (simp add: relay_pair_def)
  moreover have "tables ?t ms ss"
    using tables_free_pkt [of "s\<lparr>hist := _\<rparr>" ms ss pkt] assms(1) by simp
  ultimately show ?thesis
    by (intro exI [of _ "min 0 (e_ret e (hist s) ?c)"] exI [of _ ?t]) simp
qed

theorem tcp_data_relayed_witness:
  "\<exists>r t. handle_packet sample_env 5 (sample_state (sample_pkt 6 [9])) = Some (Ret r, t) \<and> r \<le> 0 \<and>
      fst (hd (hist t)) = Sys_send 8 [9] \<and> tl (hist t) = [] \<and>
      tables t sample_ms sample_ss \<and> pheap t 5 = None"
  using tcp_data_relayed [OF sample_tables, of 3 sample_n1 4 sample_n2 "sample_pkt 6 [9]" 5
      "sample_pkt 6 [9]" sample_env]
  by (simp add: sample_pkt_def pkt_ok_def RECV_LEN_def ipproto_defs relay_pair_def sample_n1_def
      sample_n2_def)

text \<open>
  C12: the end of one side of a relayed connection closes both descriptors,
  in that order, and removes exactly the two sockets from the list.
\<close>

theorem tcp_close_removes_pair:
  fixes e :: env
  assumes "tables s ms ss" and "distinct (sock_fds ss)"
    and "(a, x) \<in> set ss" and "(b, y) \<in> set ss" and "relay_pair x y" "s_fd x \<noteq> s_fd y"
    and "pheap s pkt = Some p" "p_proto p = IPPROTO_TCP" "p_sock p = s_fd x" "p_datalen p = 0"
  shows "\<exists>t ss' r1 r2. handle_packet e pkt s = Some (Ret 0, t) \<and>
      hist t = (Sys_close (s_fd y), r2) # (Sys_close (s_fd x), r1) # hist s \<and>
      tables t ms ss' \<and>
      sock_view ss' = filter (\<lambda>(c, n). s_fd n \<noteq> s_fd x \<and> s_fd n \<noteq> s_fd y) (sock_view ss)"
proof -
  have "s_peer x = s_fd y" using assms(5) by (simp add: relay_pair_def)
  then obtain u ss' r1 r2 where u: "handle_tcp_close e pkt s = Some (Ret 0, u)" "tables u ms ss'"
    "sock_view ss' = drop_fd (s_fd y) (drop_fd (s_fd x) (sock_view ss))"
    "hist u = (Sys_close (s_fd y), r2) # (Sys_close (s_fd x), r1) # hist s"
    using handle_tcp_close_pair [OF assms(1-4) _ assms(6,7,10,9), of e] by metis
  moreover have "handle_packet e pkt s = Some (Ret 0, u)"
    using handle_packet_tcp [OF assms(7,8)] assms(10) u(1) by simp
  moreover have "drop_fd (s_fd y) (drop_fd (s_fd x) (sock_view ss)) =
      filter (\<lambda>(c, n). s_fd n \<noteq> s_fd x \<and> s_fd n \<noteq> s_fd y) (sock_view ss)"
    unfolding filter_filter by (rule filter_cong) auto
  ultimately show ?thesis by auto
qed

theorem tcp_close_removes_pair_witness:
  "\<exists>t ss' r1 r2. handle_packet sample_env 5 (sample_state (sample_pkt 6 [])) = Some (Ret 0, t) \<and>
      hist t = [(Sys_close 8, r2), (Sys_close 7, r1)] \<and> tables t sample_ms ss' \<and> sock_view ss' = []"
  using tcp_close_removes_pair [OF sample_tables, of 3 sample_n1 4 sample_n2 "sample_pkt 6 []" 5
      "sample_pkt 6 []" sample_env]
  by (simp add: sample_pkt_def ipproto_defs relay_pair_def sample_n1_def sample_n2_def)

text \<open>
  A UDP packet to the multicast group received on the WAN SSDP socket is sent on the LAN SSDP socket to the group, at the port it was sent to. Nothing else happens,
  whatever protocols are enabled.
\<close>

theorem wan_multicast_forwarded:
  fixes e :: env
  assumes "pheap s pkt = Some p" "pkt_ok p" "p_proto p = IPPROTO_UDP"
    and "p_dstIP p = mcast s" "p_sock p = wan_ssdp_sock s"
  defines "c \<equiv> datagram e (lan_ssdp_sock s) (p_data p) (mcast s) (p_dstPort p)"
  shows "handle_packet e pkt s = Some (Ret 0, s\<lparr>hist := (c, e_ret e (hist s) c) # hist s\<rparr>)"
  using assms(1,3-5)
  by (simp add: handle_packet_def run_simps packet_wan_mcast_def addr_cmp_def ipproto_defs
      sock_send_run [OF assms(2)] c_def)

theorem wan_multicast_forwarded_witness:
  "handle_packet sample_env 5 (sample_state ((sample_pkt 17 [9])\<lparr>p_dstIP := 99\<rparr>)) =
     Some (Ret 0, (sample_state ((sample_pkt 17 [9])\<lparr>p_dstIP := 99\<rparr>))
       \<lparr>hist := [(datagram sample_env 8 [9] 99 6000, 0)]\<rparr>)"
  using wan_multicast_forwarded [of "sample_state ((sample_pkt 17 [9])\<lparr>p_dstIP := 99\<rparr>)" 5
      "(sample_pkt 17 [9])\<lparr>p_dstIP := 99\<rparr>" sample_env]
  by (simp add: sample_pkt_def pkt_ok_def RECV_LEN_def ipproto_defs)

end
