(* ===== verification/Invariant.thy ===== *)
theory Invariant
  imports Forward
begin

text \<open>
  Every handler has a defined result on a well-formed state and a received packet, and keeps the
  state well-formed, whatever the kernel answers.
\<close>

section \<open>The invariant\<close>

lemma state_ok_cong:
  assumes "mheap t = mheap s" "sheap t = sheap s" "pheap t = pheap s" "brk t = brk s"
    and "mappings t = mappings s" "sockets t = sockets s"
  shows "state_ok t = state_ok s"
  using tables_cong [OF assms] by (simp add: state_ok_def)

lemma state_ok_hist [simp]: "state_ok (s\<lparr>hist := h\<rparr>) = state_ok s"
  by (rule state_ok_cong) simp_all

lemma state_ok_free_pkt: "state_ok s \<Longrightarrow> state_ok (s\<lparr>pheap := (pheap s)(p := None)\<rparr>)"
  unfolding state_ok_def using tables_free_pkt by blast

lemma wp_socket_del_ok:
  assumes "state_ok s"
  shows "wp (socket_del e fd) (\<lambda>r t. state_ok t \<and> pheap t = pheap s) s"
proof -
  obtain ms ss where t: "tables s ms ss" and fds: "socks_ok ss"
    using assms by (auto simp: state_ok_def)
  show ?thesis
  proof (rule wp_conseq [OF wp_socket_del [OF t]], elim exE conjE, intro conjI)
    fix r u ss'
    assume "tables u ms ss'" and "set (sock_view ss') \<subseteq> set (sock_view ss)"
    then show "state_ok u" using socks_ok_sub [OF _ fds] by (blast intro: state_okI)
  next
    fix r u ss'
    assume "sock_frame s u"
    then show "pheap u = pheap s" by (simp add: sock_frame_fields)
  qed
qed

text \<open>\<open>socket_find\<close> under the invariant: \<open>NULL\<close>, or a socket that can be read.\<close>

lemma state_ok_socket_find:
  assumes "state_ok s"
  obtains "socket_find fd s = Some 0"
    | a n where "socket_find fd s = Some a" "a \<noteq> 0" "sheap s a = Some n" "s_fd n = fd"
proof -
  obtain ms ss where "tables s ms ss" using assms by (auto simp: state_ok_def)
  then show thesis by (cases rule: socket_find_cases [where fd = fd]) (auto intro: that)
qed

section \<open>Every packet keeps the invariant\<close>

lemma state_ok_only_hist: "only_hist s t \<Longrightarrow> state_ok t = state_ok s"
  by (auto simp: only_hist_def)

text \<open>A UDP packet needs no new socket.\<close>

lemma query_socket_get_udp:
  "pheap s pkt = Some p \<Longrightarrow> p_proto p = IPPROTO_UDP \<Longrightarrow>
     query_socket_get e pkt s = Some (Ret (shared_udp_sock_fd s), s)"
  by (simp add: query_socket_get_def run_simps)

text \<open>A new mapping, from the state after the socket was chosen.\<close>

lemma wp_map_query:
  assumes t: "tables s ms ss" and fds: "socks_ok ss"
    and p: "pheap s pkt = Some p" "pkt_ok p"
  shows "wp (bindM (mapping_create e pkt fd) (\<lambda>m.
       thenM (mapping_add e m)
       (thenM (show_mapping e m)
       (bindM (query_send e m pkt) (\<lambda>r. if r < 0 then returnM (-1) else returnM 0)))))
     (\<lambda>r t. state_ok t \<and> (r = 0 \<or> r = -1)) s"
proof -
  let ?n = "new_mapping s p fd (local_port e (hist s) fd)"
  let ?s1 = "s\<lparr>hist := (Sys_getsockname fd, e_ret e (hist s) (Sys_getsockname fd)) # hist s,
    brk := Suc (brk s), mheap := (mheap s)(brk s \<mapsto> ?n)\<rparr>"
  have fresh: "brk s \<notin> fst ` set ms" "brk s \<noteq> 0"
    using tables_brk_fresh [OF t] heap_okD(4) [OF tables_ok [OF t]] by simp_all
  have t1: "tables ?s1 ms ss"
    using t fresh by (auto simp: tables_def heap_ok_def)
  have m1: "mheap ?s1 (brk s) = Some ?n" by simp
  note add = mapping_add_run [OF t1 m1 fresh(2) fresh(1), of e]
  have "state_ok (s\<lparr>brk := Suc (brk s), mheap := (mheap s)(brk s \<mapsto> ?n\<lparr>m_next := mappings ?s1,
      m_timeout := word_of_int (e_ret e (hist ?s1) Sys_time + timeout ?s1)\<rparr>), mappings := brk s\<rparr>)"
    by (rule state_ok_cong [THEN iffD2, OF _ _ _ _ _ _ state_okI [OF add(2) fds]]) simp_all
  then show ?thesis
    using p(1) by (simp add: wp_bindM wp_run [of "mapping_create e pkt fd" s, OF mapping_create_run [OF p(1)]] wp_run [of "mapping_add e (brk s)", OF add(1)])
      (simp add: wp_simps  query_send_def
        wp_run [OF sock_send_run [OF p(2)]])
qed

lemma wp_handle_mapped:
  assumes "state_ok s" and p: "pheap s pkt = Some p" "pkt_ok p" "p_proto p = IPPROTO_UDP"
  shows "wp (handle_mapped e pkt) (\<lambda>r t. state_ok t \<and> (r = 0 \<or> r = -1)) s"
proof -
  obtain ms ss where t: "tables s ms ss" and fds: "socks_ok ss"
    using assms(1) by (auto simp: state_ok_def)
  have c: "chain_at m_next (mheap s) (mappings s) ms" using t by (simp add: tables_def)
  show ?thesis
  proof (cases rule: first_addr_cases [OF c, of "mapping_match (mcast s) p"])
    case 1
    then have "mapping_find pkt s = Some (Ret 0, s)"
      using mapping_find_run [OF t p(1)] by simp
    then show ?thesis
      using wp_map_query [OF t fds p(1,2), of e "shared_udp_sock_fd s"]
      by (simp add: handle_mapped_def wp_bindM [of _ "mapping_find pkt"]
          wp_bindM [of _ "query_socket_get e pkt"]
          wp_run [of "query_socket_get e pkt", OF query_socket_get_udp [OF p(1,3)]] wp_run
          packet_valid_def)
  next
    case (2 ys a m zs)
    then have "tables s (ys @ (a, m) # zs) ss" using t by simp
    then obtain u ms' where "handle_mapped e pkt s = Some (Ret 0, u)" "tables u ms' ss"
      by (rule handle_mapped_response [where e = e, OF _ p(1,2) 2(5,6)]) blast
    then show ?thesis using state_okI [OF _ fds] by (simp add: wp_run)
  qed
qed

lemma wp_handle_tcp:
  assumes "state_ok s" and p: "pheap s pkt = Some p" "pkt_ok p"
  shows "wp (handle_tcp_packet e pkt) (\<lambda>r t. state_ok t) s"
    and "wp (handle_tcp_close e pkt) (\<lambda>r t. state_ok t) s"
proof -
  have "pkt \<noteq> 0"
    using assms heap_okD(7) by (metis state_ok_def tables_ok option.distinct(1))
  show "wp (handle_tcp_packet e pkt) (\<lambda>r t. state_ok t) s"
  proof (cases rule: state_ok_socket_find [OF assms(1), of "p_sock p"])
    case 1
    then show ?thesis using assms by (simp add: handle_tcp_packet_def wp_simps)
  next
    case (2 a n)
    note a = this
    show ?thesis
    proof (cases rule: state_ok_socket_find [OF assms(1), of "s_peer n"])
      case 1
      then show ?thesis using assms a by (simp add: handle_tcp_packet_def wp_simps)
    next
      case (2 b m)
      then show ?thesis
        using handle_tcp_packet_run [OF p(1) \<open>pkt \<noteq> 0\<close> p(2) a(1-3) 2(1-3), of e] assms(1)
        by (simp add: wp_run state_ok_free_pkt [of "s\<lparr>hist := _\<rparr>", simplified])
    qed
  qed
  show "wp (handle_tcp_close e pkt) (\<lambda>r t. state_ok t) s"
  proof (cases rule: state_ok_socket_find [OF assms(1), of "p_sock p"])
    case 1
    then show ?thesis using assms by (simp add: handle_tcp_close_def wp_simps)
  next
    case (2 a n)
    have "wp (bindM (socket_del e (p_sock p)) (\<lambda>_. bindM (socket_del e (s_peer n))
        (\<lambda>_. returnM (0::int)))) (\<lambda>r t. state_ok t) s"
      by (rule wp_bindI [OF wp_socket_del_ok [OF assms(1)]], rule wp_bindI, rule wp_socket_del_ok)
         (auto simp: wp_simps)
    then show ?thesis using 2 assms by (simp add: handle_tcp_close_def wp_simps)
  qed
qed

lemma wp_handle_nat_pmp_ext:
  assumes "state_ok s" and p: "pheap s pkt = Some p" "pkt_ok p"
  shows "wp (handle_nat_pmp_ext_fromclient e pkt) (\<lambda>r t. state_ok t) s"
    and "wp (handle_nat_pmp_ext_fromserver e pkt) (\<lambda>r t. state_ok t) s"
proof -
  show "wp (handle_nat_pmp_ext_fromclient e pkt) (\<lambda>r t. state_ok t) s"
    using assms
    by (cases "p_datalen p \<le> 100")
       (simp_all add: wp_run fromclient_run [OF p] fromclient_too_long [OF p(1)] not_le)
  have "\<exists>w. load16 (big_endian e) (drop 2 (p_data p)) = Some w"
    "\<exists>w. load32 (big_endian e) (drop 8 (p_data p)) = Some w" if "12 \<le> p_datalen p"
    using shim_reads_defined [of "p_data p"] that p(2) by (simp_all add: pkt_ok_def)
  then show "wp (handle_nat_pmp_ext_fromserver e pkt) (\<lambda>r t. state_ok t) s"
    using assms
    by (cases "12 \<le> p_datalen p")
       (auto simp: handle_nat_pmp_ext_fromserver_def wp_simps pkt_ok_bytes)
qed

lemma wp_handle_packet:
  assumes "state_ok s" and p: "pheap s pkt = Some p" "pkt_ok p" "relay_proto (p_proto p)"
  shows "wp (handle_packet e pkt) (\<lambda>r t. state_ok t) s"
proof -
  have "wp (handle_mapped e pkt) (\<lambda>r t. state_ok t) s" if "p_proto p \<noteq> IPPROTO_TCP"
    by (rule wp_conseq [OF wp_handle_mapped [OF assms(1) p(1,2)]])
       (use that p(3) in \<open>auto simp: relay_proto_def\<close>)
  then show ?thesis
    using assms wp_handle_tcp [OF assms(1) p(1,2)] wp_handle_nat_pmp_ext [OF assms(1) p(1,2)]
    by (simp add: handle_packet_def wp_simps packet_wan_mcast_def wp_run [OF sock_send_run [OF p(2)]])
qed

lemma sample_state_ok: "state_ok (sample_state p)"
  by (rule state_okI [OF sample_tables])
     (simp add: sock_ok_def fd_in_range_def FD_SETSIZE_def relay_proto_def sample_n1_def sample_n2_def)

end
