(* ===== verification/Relay.thy ===== *)
theory Relay
  imports Invariant
begin

text \<open>
  The main loop of \<^verbatim>\<open>src/framework.c\<close> and its signal handler: what one iteration does, the states
  the loop passes through, and when it ends.
\<close>

section \<open>Operations\<close>

definition signal_handler :: "state \<Rightarrow> state" where
  "signal_handler s = s\<lparr>Shutdown := 1\<rparr>"

text \<open>A termination signal that has arrived is delivered before the flag is read.\<close>

definition poll_signal :: "env \<Rightarrow> unit M" where
  "poll_signal e = modifyM (\<lambda>s. if e_signal e (hist s) then signal_handler s else s)"

text \<open>
  One iteration of the loop of \<open>run\<close>. The counter of packets is an \<open>int\<close> that nothing but a message
  reads; it goes round as the machine's addition does (the C standard leaves that undefined).
\<close>

definition run_body :: "env \<Rightarrow> unit M" where
  "run_body e =
     bindM (wait_for_traffic e) (\<lambda>pkt.
     thenM (if pkt \<noteq> 0
            then thenM (modifyM (\<lambda>s. s\<lparr>pktCnt := pktCnt s + 1\<rparr>))
                   (thenM (handle_packet e pkt) (returnM ()))
            else returnM ())
     (thenM (ctx_mappings_remove_expired e) (returnM ())))"

partial_function (option) run :: "env \<Rightarrow> state \<Rightarrow> (int outcome \<times> state) option" where
  "run e s =
     thenM (poll_signal e)
     (bindM (getM Shutdown) (\<lambda>sd t.
      if sd \<noteq> 0 then returnM 0 t else bindM (run_body e) (\<lambda>_. run e) t)) s"

section \<open>The record of calls only grows\<close>

text \<open>And the list of interfaces stays as it is.\<close>

definition hist_grows :: "state \<Rightarrow> state \<Rightarrow> bool" where
  "hist_grows s t \<longleftrightarrow> length (hist s) \<le> length (hist t) \<and> iheap t = iheap s \<and> ifaces t = ifaces s"

interpretation hist_grows: frame hist_grows
  by unfold_locales (simp_all add: hist_grows_def)

lemma only_hist_grows: "framed only_hist m \<Longrightarrow> framed hist_grows m"
  by (force simp: framed_def only_hist_def hist_grows_def)

lemma hist_grows_basic:
  "(\<And>s. hist (f s) = hist s \<and> iheap (f s) = iheap s \<and> ifaces (f s) = ifaces s) \<Longrightarrow>
     framed hist_grows (modifyM f)"
  "framed hist_grows (sys e c)"
  "framed hist_grows (malloc_mapping mp)" "framed hist_grows (malloc_socket sk)"
  "framed hist_grows (malloc_pkt pk)"
  "framed hist_grows (free_mapping a)" "framed hist_grows (free_socket a)"
  "framed hist_grows (free_pkt a)"
  "framed hist_grows (put_mapping a fm)" "framed hist_grows (put_socket a fs)"
  "framed hist_grows (put_pkt a fp)"
  by (auto simp: framed_def hist_grows_def run_simps split: option.splits)

lemmas grows_intros =
  hist_grows.framed_intros hist_grows_basic
  only_hist_sock_add [THEN only_hist_grows] only_hist_sock_get_port [THEN only_hist_grows]
  only_hist_sock_del [THEN only_hist_grows] only_hist_sock_send [THEN only_hist_grows]
  only_hist_sock_recv [THEN only_hist_grows] only_hist_sock6_recv [THEN only_hist_grows]

lemma hist_grows_receive: "framed hist_grows (receive_from e sock)"
proof -
  have cases: "framed hist_grows (case k of SOCKET_TYPE_UDP \<Rightarrow> m1 | SOCKET_TYPE_UDP6 \<Rightarrow> m2
      | SOCKET_TYPE_TCP_LISTENING \<Rightarrow> m3 | SOCKET_TYPE_TCP_CONNECTED \<Rightarrow> m4)"
    if "framed hist_grows m1" "framed hist_grows m2" "framed hist_grows m3" "framed hist_grows m4"
    for k m1 m2 m3 m4 using that by (cases k) simp_all
  have udp: "framed hist_grows (sock_udp_receive e sock)"
    unfolding sock_udp_receive_def by (intro grows_intros)
  have udp6: "framed hist_grows (sock_udp6_receive e sock)"
    unfolding sock_udp6_receive_def by (intro grows_intros)
  have tcp: "framed hist_grows (sock_tcp_receive e sock)"
    unfolding sock_tcp_receive_def by (intro grows_intros)
  have acc: "framed hist_grows (sock_tcp_accept e sock)"
    unfolding sock_tcp_accept_def socket_add2_def by (intro grows_intros) simp_all
  show ?thesis
    unfolding receive_from_def
    by (intro grows_intros cases udp udp6 tcp acc)
qed

lemma hist_grows_wait: "framed hist_grows (wait_for_traffic e)"
  unfolding wait_for_traffic_def ctx_timeout_get_def
  by (intro grows_intros hist_grows_receive)

lemma hist_grows_handle: "framed hist_grows (handle_packet e pkt)"
proof -
  have add: "framed hist_grows (socket_add e ifn a p q b r)" for ifn a p q b r
    unfolding socket_add_def by (intro grows_intros) simp_all
  have del: "framed hist_grows (socket_del e fd)" for fd
    unfolding socket_del_def by (intro grows_intros) simp_all
  have mdel: "framed hist_grows (mapping_delete m)" for m
    unfolding mapping_delete_def by (intro grows_intros) simp_all
  have tcp: "framed hist_grows (handle_tcp_packet e pkt)"
    unfolding handle_tcp_packet_def packet_delete_def by (intro grows_intros)
  have close: "framed hist_grows (handle_tcp_close e pkt)"
    unfolding handle_tcp_close_def by (intro grows_intros del)
  have mapped: "framed hist_grows (handle_mapped e pkt)"
    unfolding handle_mapped_def mapping_find_def response_send_def show_mapping_def
      query_socket_get_def mapping_create_def mapping_add_def query_send_def
    by (intro grows_intros add mdel; simp)
  show ?thesis
    unfolding handle_packet_def packet_wan_mcast_def handle_nat_pmp_ext_fromclient_def
      handle_nat_pmp_ext_fromserver_def
    by (intro grows_intros tcp close mapped)
qed

section \<open>One iteration\<close>

text \<open>No mapping is left that is past its time at \<open>now\<close>.\<close>

definition all_alive :: "int \<Rightarrow> state \<Rightarrow> bool" where
  "all_alive now t \<longleftrightarrow> (\<exists>ms ss. tables t ms ss \<and> (\<forall>(a, m) \<in> set ms. alive now m))"

lemma map_view_alive: "(\<forall>(a, m) \<in> set (map_view ms). alive now m) = (\<forall>(a, m) \<in> set ms. alive now m)"
  by (induction ms) auto

lemma wp_remove_expired:
  assumes "state_ok s"
  shows "wp (ctx_mappings_remove_expired e) (\<lambda>_ t. state_ok t \<and> hist_grows s t \<and>
           (\<exists>now. hist t = (Sys_time, now) # hist s \<and> all_alive now t)) s"
proof -
  obtain ms ss where t: "tables s ms ss" and fds: "socks_ok ss"
    using assms by (auto simp: state_ok_def)
  obtain u ms' k where u: "ctx_mappings_remove_expired e s = Some (Ret k, u)" "tables u ms' ss"
    "map_view ms' = live_part (e_ret e (hist s) Sys_time) (map_view ms)" "map_frame s u"
    "hist u = (Sys_time, e_ret e (hist s) Sys_time) # hist s"
    using remove_expired_run [OF t, of e] by blast
  have "\<forall>(a, m) \<in> set (map_view ms'). alive (e_ret e (hist s) Sys_time) m"
    by (simp only: u(3)) auto
  moreover have "hist_grows s u"
    using u(4) by (auto simp: map_frame_def hist_grows_def)
  ultimately show ?thesis
    using u fds unfolding map_view_alive
    by (auto simp: wp_run all_alive_def intro: state_okI)
qed

lemma wp_run_body:
  assumes "state_ok s" and e: "fds_bounded e"
  shows "wp (run_body e) (\<lambda>_ t. state_ok t \<and> length (hist s) < length (hist t) \<and> hist_grows s t \<and>
           (\<exists>now. fst (hd (hist t)) = Sys_time \<and> snd (hd (hist t)) = now \<and> all_alive now t)) s"
  unfolding run_body_def
proof (rule wp_bindI [OF wp_framed [OF hist_grows_wait wp_wait_for_traffic [OF assms]]],
       elim conjE)
  fix pkt t
  assume t: "state_ok t" "pkt_ready pkt t" "hist_grows s t"
  let ?t = "t\<lparr>pktCnt := pktCnt t + 1\<rparr>"
  have t': "state_ok ?t" using t(1) by (rule state_ok_cong [THEN iffD2, rotated -1]) simp_all
  have h: "wp (if pkt \<noteq> 0 then thenM (modifyM (\<lambda>s. s\<lparr>pktCnt := pktCnt s + 1\<rparr>))
         (thenM (handle_packet e pkt) (returnM ())) else returnM ())
      (\<lambda>_ u. state_ok u \<and> hist_grows s u) t"
  proof (cases "pkt = 0")
    case True
    then show ?thesis using t by (simp add: wp_simps)
  next
    case False
    then obtain p where "pheap ?t pkt = Some p" "pkt_ok p" "relay_proto (p_proto p)"
      using t(2) by (auto simp: pkt_ready_def)
    note wp_framed [OF hist_grows_handle wp_handle_packet [OF t' this]]
    then have "wp (handle_packet e pkt) (\<lambda>_ u. state_ok u \<and> hist_grows s u) ?t"
      by (rule wp_conseq) (use t(3) in \<open>simp add: hist_grows_def\<close>)
    then show ?thesis using False by (simp add: wp_simps)
  qed
  show "wp (thenM (if pkt \<noteq> 0 then thenM (modifyM (\<lambda>s. s\<lparr>pktCnt := pktCnt s + 1\<rparr>))
         (thenM (handle_packet e pkt) (returnM ())) else returnM ())
      (thenM (ctx_mappings_remove_expired e) (returnM ())))
     (\<lambda>_ t. state_ok t \<and> length (hist s) < length (hist t) \<and> hist_grows s t \<and>
           (\<exists>now. fst (hd (hist t)) = Sys_time \<and> snd (hd (hist t)) = now \<and> all_alive now t)) t"
    by (rule wp_bindI [OF h], rule wp_bindI [OF wp_remove_expired])
       (auto simp: wp_simps hist_grows_def)
qed

section \<open>The states of the loop\<close>

text \<open>The state in which the loop tests its flag.\<close>

abbreviation polled :: "env \<Rightarrow> state \<Rightarrow> state" where
  "polled e s \<equiv> (if e_signal e (hist s) then signal_handler s else s)"

text \<open>One turn: the flag is still clear and the body ran to its end; and the states after turns.\<close>

inductive turn :: "env \<Rightarrow> state \<Rightarrow> state \<Rightarrow> bool" where
  "Shutdown (polled e s) = 0 \<Longrightarrow> run_body e (polled e s) = Some (Ret (), t) \<Longrightarrow> turn e s t"

inductive turns :: "env \<Rightarrow> state \<Rightarrow> state \<Rightarrow> bool" for e s where
  none: "turns e s s"
| more: "turns e s t \<Longrightarrow> turn e t u \<Longrightarrow> turns e s u"

inductive_cases turnE: "turn e s t"
inductive_simps turn_iff: "turn e s t"

lemma polled_ok: "state_ok (polled e s) = state_ok s"
  by (simp add: signal_handler_def state_ok_cong [of "s\<lparr>Shutdown := 1\<rparr>" s])

lemma polled_hist [simp]: "hist (polled e s) = hist s"
  by (simp add: signal_handler_def)

lemma turn_ok:
  assumes "turn e s t" and "state_ok s" and "fds_bounded e"
  shows "state_ok t" and "length (hist s) < length (hist t)" and "hist_grows s t"
proof -
  have "run_body e (polled e s) = Some (Ret (), t)"
    using assms(1) by (rule turnE)
  then have "state_ok t \<and> length (hist (polled e s)) < length (hist t) \<and> hist_grows (polled e s) t"
    using wpD [OF wp_run_body [OF _ assms(3), of "polled e s"]] assms(2) polled_ok by blast
  then show "state_ok t" "length (hist s) < length (hist t)" "hist_grows s t"
    by (simp_all add: hist_grows_def signal_handler_def split: if_splits)
qed

lemma turns_ok:
  assumes "turns e s t" and "state_ok s" and "fds_bounded e"
  shows "state_ok t" and "hist_grows s t"
proof -
  show ok: "state_ok t"
    using assms(1,2) by (induction) (auto intro: turn_ok(1) [OF _ _ assms(3)])
  have "state_ok t \<and> hist_grows s t"
    using assms(1,2)
  proof induction
    case none
    then show ?case using hist_grows.R_refl by simp
  next
    case (more t u)
    then show ?case using turn_ok [OF _ _ assms(3)] hist_grows.R_trans by blast
  qed
  then show "hist_grows s t" ..
qed

lemma turns_front:
  assumes "turns e t u" and "turn e s t"
  shows "turns e s u"
  using assms(1,2) by (induction) (auto intro: turns.intros)

lemma run_unfold:
  "run e s =
     (if Shutdown (polled e s) \<noteq> 0 then Some (Ret 0, polled e s)
      else case run_body e (polled e s) of
             None \<Rightarrow> None
           | Some (Exit c, t) \<Rightarrow> Some (Exit c, t)
           | Some (Ret _, t) \<Rightarrow> run e t)"
  by (subst run.simps) (simp add: poll_signal_def run_simps signal_handler_def)

text \<open>A run that returns: 0, from a state of the loop in which the flag was set.\<close>

lemma run_result:
  assumes "run e s = Some r"
  shows "case r of (Exit c, t) \<Rightarrow> True
         | (Ret x, t) \<Rightarrow> x = 0 \<and> Shutdown t \<noteq> 0 \<and> (\<exists>u. turns e s u \<and> t = polled e u)"
proof (rule run.raw_induct [of "\<lambda>e s r. case r of (Exit c, t) \<Rightarrow> True
    | (Ret x, t) \<Rightarrow> x = 0 \<and> Shutdown t \<noteq> 0 \<and> (\<exists>u. turns e s u \<and> t = polled e u)", OF _ assms])
  fix run e s r
  assume step: "\<And>e s r. run e s = Some r \<Longrightarrow> (case r of (Exit c, t) \<Rightarrow> True
      | (Ret x, t) \<Rightarrow> x = 0 \<and> Shutdown t \<noteq> 0 \<and> (\<exists>u. turns e s u \<and> t = polled e u))"
    "thenM (poll_signal e) (bindM (getM Shutdown) (\<lambda>sd t.
      if sd \<noteq> 0 then returnM 0 t else bindM (run_body e) (\<lambda>_. run e) t)) s = Some r"
  show "case r of (Exit c, t) \<Rightarrow> True
    | (Ret x, t) \<Rightarrow> x = 0 \<and> Shutdown t \<noteq> 0 \<and> (\<exists>u. turns e s u \<and> t = polled e u)"
  proof (cases "Shutdown (polled e s) \<noteq> 0")
    case True
    then have "r = (Ret 0, polled e s)"
      using step(2) by (auto simp: poll_signal_def run_simps)
    then show ?thesis using True by (auto intro: turns.none)
  next
    case False
    then have b: "(case run_body e (polled e s) of
             None \<Rightarrow> None
           | Some (Exit c, t) \<Rightarrow> Some (Exit c, t)
           | Some (Ret _, t) \<Rightarrow> run e t) = Some r"
      using step(2) by (simp add: poll_signal_def run_simps split: if_splits)
    then obtain o1 t where t: "run_body e (polled e s) = Some (o1, t)"
      by (auto split: option.splits)
    show ?thesis
    proof (cases o1)
      case (Exit c)
      then show ?thesis using b t by (auto)
    next
      case (Ret x)
      then have "run e t = Some r" using b t by simp
      from step(1) [OF this] have "case r of (Exit c, t') \<Rightarrow> True
         | (Ret x, t') \<Rightarrow> x = 0 \<and> Shutdown t' \<noteq> 0 \<and> (\<exists>u. turns e t u \<and> t' = polled e u)" .
      moreover have "turn e s t" using False t Ret by (simp add: turn_iff)
      ultimately show ?thesis
        by (auto split: prod.splits outcome.splits dest: turns_front)
    qed
  qed
qed

text \<open>
  If a signal has arrived once \<open>n\<close> calls are made, the loop ends: every turn makes at least one
  call. It returns, the process does not exit.
\<close>

lemma run_ends:
  assumes ok: "state_ok s" and e: "fds_bounded e"
    and sig: "\<And>h. n \<le> length h \<Longrightarrow> e_signal e h"
  shows "\<exists>r t. run e s = Some (Ret r, t)"
  using ok
proof (induction "n - length (hist s)" arbitrary: s rule: less_induct)
  case less
  show ?case
  proof (cases "Shutdown (polled e s) \<noteq> 0")
    case True
    then show ?thesis by (subst run_unfold) simp
  next
    case False
    then have "\<not> e_signal e (hist s)"
      by (auto simp: signal_handler_def)
    then have n: "length (hist s) < n" using sig not_le by blast
    have "state_ok (polled e s)" using less.prems polled_ok by blast
    from wp_result [OF wp_run_body [OF this e]] obtain x t
      where t: "run_body e (polled e s) = Some (Ret x, t)" "state_ok t"
        "length (hist (polled e s)) < length (hist t)"
      by blast
    then have t3: "length (hist s) < length (hist t)" by (simp only: polled_hist)
    then have "\<exists>r u. run e t = Some (Ret r, u)"
      using n t3 t(2) by (intro less.hyps) auto
    then show ?thesis using t(1) False by (subst run_unfold) simp
  qed
qed

section \<open>UDP packets stay allocated\<close>

definition keeps_pkts :: "state \<Rightarrow> state \<Rightarrow> bool" where
  "keeps_pkts s t \<longleftrightarrow> pheap t = pheap s"

interpretation keeps_pkts: frame keeps_pkts
  by unfold_locales (simp_all add: keeps_pkts_def)

lemma only_hist_keeps: "framed only_hist m \<Longrightarrow> framed keeps_pkts m"
  by (force simp: framed_def only_hist_def keeps_pkts_def)

lemma keeps_pkts_basic:
  "(\<And>s. pheap (f s) = pheap s) \<Longrightarrow> framed keeps_pkts (modifyM f)"
  "framed keeps_pkts (sys e c)"
  "framed keeps_pkts (malloc_mapping mp)" "framed keeps_pkts (malloc_socket sk)"
  "framed keeps_pkts (free_mapping a)" "framed keeps_pkts (put_mapping a fm)"
  by (auto simp: framed_def keeps_pkts_def run_simps split: option.splits)

lemmas keeps_intros =
  keeps_pkts.framed_intros keeps_pkts_basic
  only_hist_sock_add [THEN only_hist_keeps] only_hist_sock_get_port [THEN only_hist_keeps]
  only_hist_sock_send [THEN only_hist_keeps]

lemma keeps_pkts_mapped: "framed keeps_pkts (handle_mapped e pkt)"
proof -
  have add: "framed keeps_pkts (socket_add e ifn a p q b r)" for ifn a p q b r
    unfolding socket_add_def by (intro keeps_intros) simp_all
  have mdel: "framed keeps_pkts (mapping_delete m)" for m
    unfolding mapping_delete_def by (intro keeps_intros) simp_all
  show ?thesis
    unfolding handle_mapped_def mapping_find_def response_send_def show_mapping_def
      query_socket_get_def mapping_create_def mapping_add_def query_send_def
    by (intro keeps_intros add mdel; simp)
qed

lemma keeps_pkts_ext:
  "framed keeps_pkts (handle_nat_pmp_ext_fromclient e pkt)"
  "framed keeps_pkts (handle_nat_pmp_ext_fromserver e pkt)"
  unfolding handle_nat_pmp_ext_fromclient_def handle_nat_pmp_ext_fromserver_def
  by (intro keeps_intros)+

section \<open>Properties\<close>

text \<open>
  C1: on a well-formed state, handling any received packet of a TCP or UDP
  socket has a defined result (no null or dangling pointer is followed, no byte outside a buffer is
  read or written, the array of 128 bytes for the extended mode included, every loop ends), does not
  exit, and leaves a well-formed state, whatever the kernel answers.
\<close>

theorem packet_handled_safely:
  assumes "state_ok s" and "pheap s pkt = Some p" and "pkt_ok p" and "relay_proto (p_proto p)"
  shows "\<exists>r t. handle_packet e pkt s = Some (Ret r, t) \<and> state_ok t"
  using wp_result [OF wp_handle_packet [OF assms, of e]] .

theorem packet_handled_safely_witness:
  "\<exists>r t. handle_packet sample_env 5 (sample_state (sample_pkt 17 [1])) = Some (Ret r, t) \<and> state_ok t"
  by (rule packet_handled_safely [OF sample_state_ok, where p = "sample_pkt 17 [1]"])
     (simp_all add: sample_pkt_def pkt_ok_def RECV_LEN_def relay_proto_def ipproto_defs)

text \<open>
  C4: in every state the main loop reaches, the next turn of its body has a defined
  result and does not exit; afterwards the state is well-formed and every mapping left is one whose
  time had not come when the turn last asked.
\<close>

theorem loop_safe:
  assumes "turns e s t" and "state_ok s" and "fds_bounded e"
  shows "\<exists>u. run_body e (polled e t) = Some (Ret (), u) \<and> state_ok u \<and>
    fst (hd (hist u)) = Sys_time \<and> all_alive (snd (hd (hist u))) u"
proof -
  have "state_ok (polled e t)"
    using turns_ok(1) [OF assms] polled_ok by blast
  from wp_result [OF wp_run_body [OF this assms(3)]] show ?thesis by auto
qed

theorem loop_safe_witness:
  "\<exists>u. run_body sample_env (polled sample_env sample0) = Some (Ret (), u) \<and> state_ok u \<and>
    fst (hd (hist u)) = Sys_time \<and> all_alive (snd (hd (hist u))) u"
  by (rule loop_safe [OF turns.none sample_state_ok sample_fds_bounded])

text \<open>
  C5: from a well-formed state, if a termination signal arrives within some number of
  system calls, the main loop returns; it returns 0, from a well-formed state in which the flag is
  set, and the process does not exit inside it.
\<close>

theorem run_returns:
  assumes "state_ok s" and "fds_bounded e" and "\<And>h. n \<le> length h \<Longrightarrow> e_signal e h"
  shows "\<exists>t. run e s = Some (Ret 0, t) \<and> Shutdown t \<noteq> 0 \<and> state_ok t"
proof -
  obtain r t where run: "run e s = Some (Ret r, t)"
    using run_ends [OF assms] by blast
  then obtain u where "r = 0" "Shutdown t \<noteq> 0" "turns e s u" "t = polled e u"
    using run_result [OF run] by auto
  then show ?thesis
    using run turns_ok(1) [OF _ assms(1,2)] polled_ok by blast
qed

theorem run_returns_witness:
  "\<exists>t. run sample_env sample0 = Some (Ret 0, t) \<and> Shutdown t \<noteq> 0 \<and> state_ok t"
  by (rule run_returns [OF sample_state_ok sample_fds_bounded, of 4]) simp

text \<open>
  C21: handling a UDP packet never frees it, on any branch: its buffer stays
  allocated after the main loop has dropped the pointer to it.
\<close>

theorem udp_packets_leak:
  assumes run: "handle_packet e pkt s = Some (r, t)" and p: "pheap s pkt = Some p"
    "p_proto p \<noteq> IPPROTO_TCP"
  shows "pheap t = pheap s"
proof -
  define rest where "rest =
    bindM (packet_wan_mcast pkt) (\<lambda>w.
     if w \<noteq> 0 then
       bindM (getM (\<lambda>s. (lan_ssdp_sock s, mcast s))) (\<lambda>(fd, mc).
       thenM (sock_send e fd mc (p_data p) (p_datalen p) (p_dstPort p)) (returnM 0))
     else
       bindM (getM (\<lambda>s. (enable_nat_pmp_ext s, nat_pmp_ext_sock s))) (\<lambda>(ext, fd).
       if ext \<noteq> 0 then
         (if p_sock p = fd then handle_nat_pmp_ext_fromserver e pkt
          else handle_nat_pmp_ext_fromclient e pkt)
       else handle_mapped e pkt))"
  have "framed keeps_pkts rest"
    unfolding rest_def packet_wan_mcast_def
    by (intro keeps_intros keeps_pkts_mapped keeps_pkts_ext)
  moreover have "rest s = Some (r, t)"
    using run p by (simp add: handle_packet_def rest_def run_simps)
  ultimately show ?thesis
    using framedD unfolding keeps_pkts_def by blast
qed

theorem udp_packets_leak_witness:
  "\<exists>r t. handle_packet sample_env 5 (sample_state (sample_pkt 17 [1])) = Some (r, t) \<and>
     pheap t 5 = Some (sample_pkt 17 [1])"
proof -
  have p: "p_proto (sample_pkt 17 [1]) \<noteq> IPPROTO_TCP" by (simp add: sample_pkt_def ipproto_defs)
  have "wp (handle_packet sample_env 5) (\<lambda>_ _. True) (sample_state (sample_pkt 17 [1]))"
    by (rule wp_conseq [OF wp_handle_packet [OF sample_state_ok, where p = "sample_pkt 17 [1]"]])
       (simp_all add: sample_pkt_def pkt_ok_def RECV_LEN_def relay_proto_def ipproto_defs)
  then obtain r t where "handle_packet sample_env 5 (sample_state (sample_pkt 17 [1])) = Some (Ret r, t)"
    using wp_result by blast
  with udp_packets_leak [OF this _ p] show ?thesis by auto
qed

end
