(* ===== verification/Startup.thy ===== *)
theory Startup
  imports Options Relay
begin

text \<open>
  The start and the end of the program: \<open>main\<close>, \<open>sockets_bind\<close> and \<open>sanity_check\<close> of
  \<^verbatim>\<open>src/portproxy.c\<close>, \<open>framework_init\<close>, \<open>ctx_create\<close> and \<open>ctx_release\<close> of \<^verbatim>\<open>src/framework.c\<close>.
\<close>

section \<open>Operations\<close>

definition framework_init :: "env \<Rightarrow> state \<Rightarrow> state" where
  "framework_init e s = s\<lparr>mcast := htonl (big_endian e) 4211081199\<rparr>"

definition ctx_create :: "state \<Rightarrow> state" where
  "ctx_create s = s
     \<lparr>ifaces := 0, lan := replicate MAX_IFNAME_LENGTH NUL, wan := replicate MAX_IFNAME_LENGTH NUL,
      persistent := 0, lanIP := 0, wanIP := 0, aftrIPv4 := 0, wanIPv6 := replicate 16 0,
      aftrIPv6 := replicate 16 0, sockets := 0, mappings := 0, natpmp_udp_port := 0,
      upnp_udp_port := 0, upnp_tcp_port1 := 0, upnp_tcp_port2 := 0, fwd_tcp_port1 := 0,
      fwd_tcp_port2 := 0, bind_ext_nat_pmp_to_natpmp_port := 0, shared_udp_sock := 0,
      shared_udp_sock_fd := 0, wan_ssdp_sock := 0, lan_ssdp_sock := 0, nat_pmp_ext_sock := 0,
      nat_pmp_lan_sock := 0, enable_nat_pmp := 0, enable_nat_pmp_ext := 0, enable_upnp_tcp := 0,
      enable_upnp_udp := 0, loglevel := 0, timeout := 0, daemon := 0, pktCnt := 0, ssdpCnt := 0,
      natpmpCnt := 0\<rparr>"

definition ctx_release :: "unit M" where
  "ctx_release = bindM (getM ifaces) if_list_release"

text \<open>
  \<open>sockets_bind\<close> by its five parts; each is negative when the code returns -1. A UDP socket for SSDP:
  created, its port read, entered in the multicast group.
\<close>

definition ssdp_socket :: "env \<Rightarrow> (state \<Rightarrow> string) \<Rightarrow> (state \<Rightarrow> u32) \<Rightarrow> int M" where
  "ssdp_socket e name ip =
     bindM (readM (\<lambda>s. c_str (name s))) (\<lambda>ifname.
     bindM (getM (\<lambda>s. sint (upnp_udp_port s))) (\<lambda>port.
     bindM (socket_add e ifname (htonl (big_endian e) 0) port IPPROTO_UDP 1 1) (\<lambda>fd.
     thenM (sock_get_port e fd)
     (if fd < 0 then returnM (-1)
      else bindM (readM (socket_find fd)) (\<lambda>sock.
        bindM (getM (\<lambda>s. (mcast s, ip s))) (\<lambda>(mc, addr).
        bindM (socket_mcast_join e sock mc addr) (\<lambda>result.
        if result < 0 then returnM (-1) else returnM fd)))))))"

definition bind_upnp_udp :: "env \<Rightarrow> int M" where
  "bind_upnp_udp e =
     bindM (ssdp_socket e lan lanIP) (\<lambda>lan_sock.
     if lan_sock < 0 then returnM (-1)
     else thenM (modifyM (\<lambda>s. s\<lparr>lan_ssdp_sock := lan_sock\<rparr>))
       (bindM (ssdp_socket e wan wanIP) (\<lambda>wan_sock.
        if wan_sock < 0 then returnM (-1)
        else thenM (modifyM (\<lambda>s. s\<lparr>wan_ssdp_sock := wan_sock\<rparr>))
          (bindM (readM (socket_find lan_sock)) (\<lambda>lans.
           bindM (readM (socket_find wan_sock)) (\<lambda>wans.
           bindM (socket_at wans) (\<lambda>w.
           thenM (put_socket lans (s_peer_update (\<lambda>_. s_fd w)))
           (bindM (socket_at lans) (\<lambda>l.
            thenM (put_socket wans (s_peer_update (\<lambda>_. s_fd l))) (returnM 0))))))))))"

text \<open>A socket whose port is read before the result is looked at.\<close>

definition socket_add_port :: "env \<Rightarrow> string \<Rightarrow> u32 \<Rightarrow> int \<Rightarrow> int \<Rightarrow> int M" where
  "socket_add_port e ifname addr port proto =
     bindM (socket_add e ifname addr port proto 0 0) (\<lambda>result.
     thenM (sock_get_port e result) (returnM result))"

definition bind_nat_pmp_ext :: "env \<Rightarrow> int M" where
  "bind_nat_pmp_ext e =
     bindM (getM (\<lambda>s. (lan s, lanIP s, sint (natpmp_udp_port s)))) (\<lambda>(ifname, addr, port).
     bindM (socket_add_port e ifname addr port IPPROTO_UDP) (\<lambda>result.
     if result < 0 then returnM (-1)
     else thenM (modifyM (\<lambda>s. s\<lparr>nat_pmp_lan_sock := result\<rparr>))
       (bindM (getM wanIPv6) (\<lambda>bindme.
        bindM (if bindme \<noteq> replicate 16 0 then returnM (Some bindme)
               else bindM (readM (\<lambda>s. c_str (wan s))) (iface_ip6_get e)) (\<lambda>bindme.
        case bindme of
          None \<Rightarrow> returnM (-1)
        | Some addr6 \<Rightarrow>
            bindM (getM (\<lambda>s. (wan s, sint (natpmp_udp_port s)))) (\<lambda>(ifname, port).
            bindM (socket6_add e ifname addr6 port IPPROTO_UDP 0 0) (\<lambda>result.
            thenM (sock_get_port e result)
            (thenM (modifyM (\<lambda>s. s\<lparr>nat_pmp_ext_sock := result\<rparr>))
            (if result < 0 then returnM (-1) else returnM 0)))))))))"

definition bind_nat_pmp :: "env \<Rightarrow> int M" where
  "bind_nat_pmp e =
     bindM (getM (\<lambda>s. (lan s, lanIP s, sint (natpmp_udp_port s)))) (\<lambda>(ifname, addr, port).
     bindM (socket_add_port e ifname addr port IPPROTO_UDP) (\<lambda>result.
     if result < 0 then returnM (-1) else returnM 0))"

definition bind_upnp_tcp :: "env \<Rightarrow> int M" where
  "bind_upnp_tcp e =
     bindM (getM (\<lambda>s. (lan s, lanIP s, sint (upnp_tcp_port1 s), sint (upnp_tcp_port2 s))))
       (\<lambda>(ifname, addr, port1, port2).
     bindM (socket_add_port e ifname addr port1 IPPROTO_TCP) (\<lambda>result.
     if result < 0 then returnM (-1)
     else bindM (socket_add_port e ifname addr port2 IPPROTO_TCP) (\<lambda>result.
       if result < 0 then returnM (-1) else returnM 0)))"

definition bind_shared :: "env \<Rightarrow> int M" where
  "bind_shared e =
     bindM (getM (\<lambda>s. (wan s, wanIP s))) (\<lambda>(ifname, addr).
     bindM (socket_add_port e ifname addr 0 IPPROTO_UDP) (\<lambda>result.
     thenM (modifyM (\<lambda>s. s\<lparr>shared_udp_sock_fd := result\<rparr>))
     (if result < 0 then returnM (-1) else returnM 0)))"

text \<open>A part that is run when its protocol is enabled, and whose error ends \<open>sockets_bind\<close>.\<close>

definition bind_part :: "(state \<Rightarrow> bool) \<Rightarrow> int M \<Rightarrow> int M \<Rightarrow> int M" where
  "bind_part enabled part next =
     bindM (getM enabled) (\<lambda>on.
     bindM (if on then part else returnM 0) (\<lambda>r. if r < 0 then returnM (-1) else next))"

definition sockets_bind :: "env \<Rightarrow> int M" where
  "sockets_bind e =
     bind_part (\<lambda>s. enable_upnp_udp s \<noteq> 0) (bind_upnp_udp e)
     (bind_part (\<lambda>s. enable_nat_pmp_ext s \<noteq> 0) (bind_nat_pmp_ext e)
     (bind_part (\<lambda>s. enable_nat_pmp s \<noteq> 0) (bind_nat_pmp e)
     (bind_part (\<lambda>s. enable_upnp_tcp s \<noteq> 0) (bind_upnp_tcp e)
     (bind_part (\<lambda>s. shared_udp_sock s \<noteq> 0 \<and> (enable_upnp_udp s \<noteq> 0 \<or> enable_nat_pmp s \<noteq> 0))
        (bind_shared e)
     (returnM 1)))))"

definition sanity_check :: "state \<Rightarrow> int" where
  "sanity_check s =
     (if enable_nat_pmp s = 0 \<and> enable_upnp_tcp s = 0 \<and> enable_upnp_udp s = 0 \<and>
         enable_nat_pmp_ext s = 0 then 0
      else if enable_nat_pmp s \<noteq> 0 \<and> enable_nat_pmp_ext s \<noteq> 0 then -1
      else 1)"

text \<open>The loop of persistent mode.\<close>

partial_function (option) persist_loop :: "env \<Rightarrow> state \<Rightarrow> (unit outcome \<times> state) option" where
  "persist_loop e s =
     bindM (sockets_bind e) (\<lambda>status t.
       if status < 0
       then bindM (sockets_close e) (\<lambda>_. bindM (sys e (Sys_sleep 10)) (\<lambda>_.
            bindM (poll_signal e) (\<lambda>_. bindM (getM Shutdown) (\<lambda>sd t.
              if sd \<noteq> 1 then persist_loop e t else returnM () t)))) t
       else returnM () t) s"

text \<open>\<open>main\<close> from the binding of the sockets on; from the check on; and whole.\<close>

definition main_serve :: "env \<Rightarrow> int M" where
  "main_serve e =
     bindM (getM persistent) (\<lambda>p.
     bindM (if p = 0 then sockets_bind e else thenM (persist_loop e) (returnM 0)) (\<lambda>r.
     if r < 0 then returnM (-1)
     else thenM (run e) (thenM (sockets_close e) (thenM ctx_release (returnM 0)))))"

definition main_checked :: "env \<Rightarrow> int M" where
  "main_checked e =
     bindM (getM sanity_check) (\<lambda>ok. if ok = 0 then returnM (-1) else main_serve e)"

definition main_prog :: "env \<Rightarrow> string list \<Rightarrow> int M" where
  "main_prog e args =
     thenM (modifyM (\<lambda>s. ctx_create (framework_init e s)))
     (bindM (if_list_get e) (\<lambda>ifcs.
      thenM (modifyM (\<lambda>s. s\<lparr>ifaces := ifcs\<rparr>))
      (bindM (cmd_line_parse e args) (\<lambda>r.
       if r < 0 then returnM (-1) else main_checked e))))"

end
