(* ===== verification/Lifecycle.thy ===== *)
theory Lifecycle
  imports Startup
begin

text \<open>
  The life of the program, from \<open>sockets_bind\<close> to the release of what it holds: each part of
  \<open>sockets_bind\<close> keeps the state well-formed, the loop of persistent mode ends when a signal comes,
  and \<open>main\<close> returns (\<^verbatim>\<open>src/portproxy.c\<close>). \<open>state_ok\<close> is the invariant of the main loop, so its
  theorems apply from the first turn on.
\<close>

section \<open>Creating the sockets\<close>

text \<open>A socket with a descriptor is in the list.\<close>

definition has_sock :: "int \<Rightarrow> state \<Rightarrow> bool" where
  "has_sock fd s \<longleftrightarrow> (\<exists>ms ss. tables s ms ss \<and> fd \<in> set (sock_fds ss))"

text \<open>
  What a part of \<open>sockets_bind\<close> leaves: a well-formed state in which no socket has gone.
\<close>

definition socks_grow :: "state \<Rightarrow> state \<Rightarrow> bool" where
  "socks_grow s t \<longleftrightarrow> state_ok t \<and> (\<forall>fd. has_sock fd s \<longrightarrow> has_sock fd t)"

lemma socks_grow_refl: "state_ok s \<Longrightarrow> socks_grow s s"
  by (simp add: socks_grow_def)

lemma socks_grow_trans: "socks_grow s t \<Longrightarrow> socks_grow t u \<Longrightarrow> socks_grow s u"
  by (auto simp: socks_grow_def)

lemma socks_grow_ok: "socks_grow s t \<Longrightarrow> state_ok t"
  by (simp add: socks_grow_def)

lemma tables_same: "tables s ms ss \<Longrightarrow> tables s ms' ss' \<Longrightarrow> ms' = ms \<and> ss' = ss"
  unfolding tables_def by (blast dest: chain_at_det)

lemma socks_growI:
  assumes "tables s ms ss" and "tables t ms' ss'" and "socks_ok ss'" and "set (sock_fds ss) \<subseteq> set (sock_fds ss')"
  shows "socks_grow s t"
proof -
  have "has_sock fd t" if "has_sock fd s" for fd
    using that assms tables_same [OF assms(1)] unfolding has_sock_def by blast
  then show ?thesis using assms(2,3) by (auto simp: socks_grow_def intro: state_okI)
qed

text \<open>Steps that touch none of the tables.\<close>

lemma socks_grow_cong:
  assumes "mheap t = mheap s" "sheap t = sheap s" "pheap t = pheap s" "brk t = brk s"
    and "mappings t = mappings s" "sockets t = sockets s" and "state_ok s"
  shows "socks_grow s t"
  using assms tables_cong [OF assms(1-6)] state_ok_cong [OF assms(1-6)]
  by (auto simp: socks_grow_def has_sock_def)

lemma heap_ok_put:
  assumes "heap_ok s" and "a \<noteq> 0" and "sheap s a = Some n"
  shows "heap_ok (s\<lparr>sheap := (sheap s)(a \<mapsto> n')\<rparr>)"
proof -
  have "\<not> brk s \<le> a" using assms(1,3) unfolding heap_ok_def by (metis option.distinct(1))
  then show ?thesis using assms(1,2) by (simp add: heap_ok_def)
qed

text \<open>Changing a socket of the list, its descriptor, protocol and link kept.\<close>

lemma tables_put_socket:
  assumes t: "tables s ms ss" and ok: "socks_ok ss" and mem: "(a, n) \<in> set ss"
    and n': "s_fd n' = s_fd n" "s_ipproto n' = s_ipproto n" "s_next n' = s_next n"
  obtains ss' where "tables (s\<lparr>sheap := (sheap s)(a \<mapsto> n')\<rparr>) ms ss'" "socks_ok ss'"
    "sock_fds ss' = sock_fds ss" "fst ` set ss' = fst ` set ss"
proof -
  obtain ys zs where ss: "ss = ys @ (a, n) # zs" using mem by (auto simp: in_set_conv_decomp)
  have c: "chain_at s_next (sheap s) (sockets s) (ys @ (a, n) # zs)" using t ss by (simp add: tables_def)
  have a: "a \<noteq> 0" "sheap s a = Some n" using chain_at_mem [OF c, of a n] by auto
  have "tables (s\<lparr>sheap := (sheap s)(a \<mapsto> n')\<rparr>) ms (ys @ (a, n') # zs)"
    using t sc.chain_put [OF c n'(3)] heap_ok_put [OF tables_ok [OF t] a]
    by (simp add: tables_def del: fun_upd_apply)
  then show thesis
    using ok n' ss by (intro that) (auto simp: sock_ok_def)
qed

lemma socks_grow_put:
  assumes t: "tables s ms ss" "socks_ok ss" "(a, n) \<in> set ss"
    and n': "s_fd n' = s_fd n" "s_ipproto n' = s_ipproto n" "s_next n' = s_next n"
  shows "socks_grow s (s\<lparr>sheap := (sheap s)(a \<mapsto> n')\<rparr>)"
  by (rule tables_put_socket [OF assms]) (auto intro: socks_growI [OF t(1)])

lemma socket_find_has:
  assumes "state_ok s" and "has_sock fd s"
  obtains ms ss a n where "tables s ms ss" "socks_ok ss" "socket_find fd s = Some a" "(a, n) \<in> set ss"
    "sheap s a = Some n" "s_fd n = fd"
proof -
  obtain ms ss where t: "tables s ms ss" "socks_ok ss" using assms(1) by (auto simp: state_ok_def)
  then have fd: "fd \<in> set (sock_fds ss)"
    using assms(2) tables_same [OF t(1)] unfolding has_sock_def by blast
  from t(1) show thesis
  proof (cases rule: socket_find_cases [where fd = fd])
    case none
    then show ?thesis using fd by (auto simp: sock_fds_def)
  next
    case (hit ys a n zs)
    then show ?thesis using t by (intro that [of ms ss a n]) auto
  qed
qed

lemma sock_frame_socks:
  assumes "sock_frame s t"
  shows "hist_grows s t"
  using assms by (auto simp: sock_frame_def hist_grows_def)

lemma wp_socket_add_grow:
  assumes "state_ok s" and "port_char_fits port" and "fds_bounded e" and "relay_proto q"
  shows "wp_exit (socket_add e ifn a port q b r)
    (\<lambda>fd t. socks_grow s t \<and> (0 \<le> fd \<longrightarrow> has_sock fd t)) s"
proof -
  obtain ms ss where t: "tables s ms ss" "socks_ok ss" using assms(1) by (auto simp: state_ok_def)
  show ?thesis
  proof (rule wp_conseq [OF wp_socket_add [OF t(1) assms(2,3)]], elim conjE disjE exE)
    fix fd :: int and u
    assume "fd = -1" "tables u ms ss"
    then show "socks_grow s u \<and> (0 \<le> fd \<longrightarrow> has_sock fd u)"
      using socks_growI [OF t(1) _ t(2)] by simp
  next
    fix fd u p st
    let ?n = "(blank_socket st)\<lparr>s_fd := fd, s_ipproto := q, s_next := sockets s\<rparr>"
    assume u: "fd < FD_SETSIZE" "0 \<le> fd" "tables u ms ((p, ?n) # ss)"
    have "socks_ok ((p, ?n) # ss)"
      using u t(2) assms(4) by (simp add: sock_ok_def fd_in_range_def blank_socket_def)
    then have "socks_grow s u" by (intro socks_growI [OF t(1) u(3)]) auto
    moreover have "has_sock fd u" unfolding has_sock_def using u(3) by fastforce
    ultimately show "socks_grow s u \<and> (0 \<le> fd \<longrightarrow> has_sock fd u)" by simp
  qed
qed

lemma wp_socket6_add_grow:
  assumes "state_ok s" and "fds_bounded e"
  shows "wp_exit (socket6_add e ifn a port IPPROTO_UDP b r) (\<lambda>fd t. socks_grow s t) s"
proof -
  obtain ms ss where t: "tables s ms ss" "socks_ok ss" using assms(1) by (auto simp: state_ok_def)
  let ?c = "Sys_socket AF_INET6 SOCK_DGRAM IPPROTO_UDP"
  let ?fd = "e_ret e (hist s) ?c"
  let ?n = "(blank_socket SOCKET_TYPE_UDP6)\<lparr>s_fd := ?fd, s_ipproto := IPPROTO_UDP, s_next := sockets s\<rparr>"
  let ?u = "s\<lparr>hist := (?c, ?fd) # hist s, brk := Suc (brk s), sheap := (sheap s)(brk s \<mapsto> ?n), sockets := brk s\<rparr>"
  have k: "socket_kind SOCKET_TYPE_UDP6 IPPROTO_UDP = Some SOCKET_TYPE_UDP6" by (simp add: socket_kind_def)
  have stay: "socks_grow s (s\<lparr>hist := h\<rparr>)" for h
    using assms(1) by (intro socks_grow_cong) simp_all
  show ?thesis
  proof (cases "?fd < 0")
    case True
    then show ?thesis using stay by (simp add: socket6_add_def wp_simps)
  next
    case False
    have "tables (s\<lparr>hist := (?c, ?fd) # hist s\<rparr>) ms ss" using t(1) by simp
    then have push: "tables ?u ms ((brk s, ?n) # ss)"
      using tables_push_socket [of "s\<lparr>hist := (?c, ?fd) # hist s\<rparr>" ms ss ?n] by simp
    have "?fd < FD_SETSIZE" using assms(2) by (simp add: fds_bounded_def)
    then have "socks_ok ((brk s, ?n) # ss)"
      using False t(2) by (simp add: sock_ok_def fd_in_range_def blank_socket_def relay_proto_def)
    then have "socks_grow s ?u" by (intro socks_growI [OF t(1) push]) auto
    then have "socks_grow s (?u\<lparr>hist := h\<rparr>)" for h
      using socks_grow_cong [of "?u\<lparr>hist := h\<rparr>" ?u] by (auto dest: socks_grow_ok intro: socks_grow_trans)
    then show ?thesis using False by (simp add: socket6_add_def wp_simps k)
  qed
qed

text \<open>Calls, and the fields of the context that are not the tables.\<close>

lemma has_sock_cong:
  assumes "mheap t = mheap s" "sheap t = sheap s" "pheap t = pheap s" "brk t = brk s"
    and "mappings t = mappings s" "sockets t = sockets s"
  shows "has_sock fd t = has_sock fd s"
  using tables_cong [OF assms] by (simp add: has_sock_def)

lemma has_sock_fields [simp]:
  "has_sock fd (t\<lparr>hist := h\<rparr>) = has_sock fd t"
  "has_sock fd (t\<lparr>lan_ssdp_sock := x\<rparr>) = has_sock fd t"
  "has_sock fd (t\<lparr>wan_ssdp_sock := x\<rparr>) = has_sock fd t"
  "has_sock fd (t\<lparr>nat_pmp_lan_sock := x\<rparr>) = has_sock fd t"
  "has_sock fd (t\<lparr>nat_pmp_ext_sock := x\<rparr>) = has_sock fd t"
  "has_sock fd (t\<lparr>shared_udp_sock_fd := x\<rparr>) = has_sock fd t"
  by (rule has_sock_cong; simp)+

lemma state_ok_fields [simp]:
  "state_ok (t\<lparr>lan_ssdp_sock := x\<rparr>) = state_ok t"
  "state_ok (t\<lparr>wan_ssdp_sock := x\<rparr>) = state_ok t"
  "state_ok (t\<lparr>nat_pmp_lan_sock := x\<rparr>) = state_ok t"
  "state_ok (t\<lparr>nat_pmp_ext_sock := x\<rparr>) = state_ok t"
  "state_ok (t\<lparr>shared_udp_sock_fd := x\<rparr>) = state_ok t"
  by (rule state_ok_cong; simp)+

lemma socks_grow_fields [simp]:
  "socks_grow s (t\<lparr>hist := h\<rparr>) = socks_grow s t"
  "socks_grow s (t\<lparr>lan_ssdp_sock := x\<rparr>) = socks_grow s t"
  "socks_grow s (t\<lparr>wan_ssdp_sock := x\<rparr>) = socks_grow s t"
  "socks_grow s (t\<lparr>nat_pmp_lan_sock := x\<rparr>) = socks_grow s t"
  "socks_grow s (t\<lparr>nat_pmp_ext_sock := x\<rparr>) = socks_grow s t"
  "socks_grow s (t\<lparr>shared_udp_sock_fd := x\<rparr>) = socks_grow s t"
  by (simp_all add: socks_grow_def)

lemma has_sock_grow: "socks_grow s t \<Longrightarrow> has_sock fd s \<Longrightarrow> has_sock fd t"
  by (simp add: socks_grow_def)

section \<open>The parts of \<open>sockets_bind\<close>\<close>

lemma wp_mcast_join:
  assumes "tables s ms ss" "socks_ok ss" "(a, n) \<in> set ss" "sheap s a = Some n"
  shows "wp (socket_mcast_join e a mc addr) (\<lambda>_ t. socks_grow s t) s"
proof -
  have ok: "state_ok s" using assms(1,2) by (rule state_okI)
  let ?n = "n\<lparr>s_mcast := 1\<rparr>"
  have put: "socks_grow s (s\<lparr>hist := h, sheap := (sheap s)(a \<mapsto> ?n)\<rparr>)" for h
  proof -
    have "socks_grow s ((s\<lparr>sheap := (sheap s)(a \<mapsto> ?n)\<rparr>)\<lparr>hist := h\<rparr>)"
      unfolding socks_grow_fields using assms(1-3) by (rule socks_grow_put) simp_all
    moreover have eq: "s\<lparr>hist := h, sheap := x\<rparr> = s\<lparr>sheap := x, hist := h\<rparr>" for x by simp
    ultimately show ?thesis unfolding eq by simp
  qed
  show ?thesis
    using assms(4) ok put by (simp add: socket_mcast_join_def wp_simps socks_grow_refl)
qed

lemma only_hist_grow:
  "only_hist t u \<Longrightarrow> socks_grow s u = socks_grow s t"
  "only_hist t u \<Longrightarrow> has_sock fd u = has_sock fd t"
  by (auto simp: only_hist_def)

lemma wp_ssdp_socket:
  assumes "state_ok s" and "c_str (name s) \<noteq> None" and "port_char_fits (sint (upnp_udp_port s))" and "fds_bounded e"
  shows "wp_exit (ssdp_socket e name ip) (\<lambda>fd t. socks_grow s t \<and> (0 \<le> fd \<longrightarrow> has_sock fd t)) s"
proof -
  obtain n where n: "c_str (name s) = Some n" using assms(2) by blast
  have rp: "relay_proto IPPROTO_UDP" by (simp add: relay_proto_def)
  have join: "wp_exit (bindM (readM (socket_find fd)) (\<lambda>sock.
        bindM (getM (\<lambda>s. (mcast s, ip s))) (\<lambda>(mc, addr).
        bindM (socket_mcast_join e sock mc addr) (\<lambda>result.
        if result < 0 then returnM (-1) else returnM fd))))
      (\<lambda>fd t. socks_grow s t \<and> (0 \<le> fd \<longrightarrow> has_sock fd t)) t"
    if t: "socks_grow s t" "has_sock fd t" for fd t
  proof (rule socket_find_has [OF socks_grow_ok [OF t(1)] t(2)])
    fix ms ss a m
    assume a: "tables t ms ss" "socks_ok ss" "socket_find fd t = Some a" "(a, m) \<in> set ss"
      "sheap t a = Some m" "s_fd m = fd"
    show ?thesis
      using a(3) wp_conseq [OF wp_weaken [OF wp_mcast_join [OF a(1,2,4,5)]]] t
      by (auto simp: wp_simps intro!: wp_conseq [OF wp_weaken [OF wp_mcast_join [OF a(1,2,4,5)]]]
          intro: socks_grow_trans has_sock_grow)
  qed
  have rest: "wp_exit (thenM (sock_get_port e fd) (if fd < 0 then returnM (-1)
      else bindM (readM (socket_find fd)) (\<lambda>sock.
        bindM (getM (\<lambda>s. (mcast s, ip s))) (\<lambda>(mc, addr).
        bindM (socket_mcast_join e sock mc addr) (\<lambda>result.
        if result < 0 then returnM (-1) else returnM fd)))))
      (\<lambda>fd t. socks_grow s t \<and> (0 \<le> fd \<longrightarrow> has_sock fd t)) t"
    if "socks_grow s t \<and> (0 \<le> fd \<longrightarrow> has_sock fd t)" for fd t
    by (rule wp_bindI [OF wp_weaken [OF wp_sock_get_port]], elim conjE, cases "fd < 0")
       (use that in \<open>auto simp: only_hist_grow wp_basic(1) intro!: join\<close>)
  note wp_bindI [OF wp_socket_add_grow [OF assms(1,3,4) rp] rest]
  then show ?thesis
    by (simp add: ssdp_socket_def wp_bindM [of _ "readM (\<lambda>s. c_str (name s))"]
        wp_bindM [of _ "getM (\<lambda>s. sint (upnp_udp_port s))"] wp_readM wp_basic(4) n)
qed

text \<open>What \<open>sockets_bind\<close> reads of the configuration, and that it changes none of it.\<close>

definition conf_kept :: "state \<Rightarrow> state \<Rightarrow> bool" where
  "conf_kept s t \<longleftrightarrow> hist_grows s t \<and> mcast t = mcast s \<and> lan t = lan s \<and> wan t = wan s \<and> wanIPv6 t = wanIPv6 s \<and>
     natpmp_udp_port t = natpmp_udp_port s \<and> upnp_udp_port t = upnp_udp_port s \<and>
     upnp_tcp_port1 t = upnp_tcp_port1 s \<and> upnp_tcp_port2 t = upnp_tcp_port2 s \<and>
     enable_nat_pmp_ext t = enable_nat_pmp_ext s \<and> enable_nat_pmp t = enable_nat_pmp s \<and>
     enable_upnp_udp t = enable_upnp_udp s \<and> enable_upnp_tcp t = enable_upnp_tcp s"

interpretation conf_kept: frame conf_kept
  by unfold_locales (auto simp: conf_kept_def hist_grows_def)

text \<open>
  The configuration \<open>sockets_bind\<close> can work with: ports of at most five characters, interface names
  that are strings, and an IPv6 address that is set, or that detecting gives a result for.
\<close>

definition bind_ok :: "env \<Rightarrow> state \<Rightarrow> bool" where
  "bind_ok e s \<longleftrightarrow>
     port_char_fits (sint (natpmp_udp_port s)) \<and> port_char_fits (sint (upnp_udp_port s)) \<and>
     port_char_fits (sint (upnp_tcp_port1 s)) \<and> port_char_fits (sint (upnp_tcp_port2 s)) \<and>
     c_str (lan s) \<noteq> None \<and> c_str (wan s) \<noteq> None \<and>
     (enable_nat_pmp_ext s \<noteq> 0 \<longrightarrow> wanIPv6 s \<noteq> replicate 16 0 \<or>
       (\<forall>n t. NUL \<notin> set n \<longrightarrow> iface_ip6_get e n t \<noteq> None))"

lemma bind_ok_kept: "conf_kept s t \<Longrightarrow> bind_ok e s \<Longrightarrow> bind_ok e t"
  by (simp add: conf_kept_def bind_ok_def)

lemma only_hist_conf: "framed only_hist m \<Longrightarrow> framed conf_kept m"
  by (force simp: framed_def only_hist_def conf_kept_def hist_grows_def)

lemma conf_kept_basic:
  "framed conf_kept (sys e c)" "framed conf_kept (malloc_socket sk)" "framed conf_kept (put_socket a f)"
  "framed conf_kept (modifyM (\<lambda>s. s\<lparr>sockets := p\<rparr>))"
  "framed conf_kept (modifyM (\<lambda>s. s\<lparr>lan_ssdp_sock := x\<rparr>))"
  "framed conf_kept (modifyM (\<lambda>s. s\<lparr>wan_ssdp_sock := x\<rparr>))"
  "framed conf_kept (modifyM (\<lambda>s. s\<lparr>nat_pmp_lan_sock := x\<rparr>))"
  "framed conf_kept (modifyM (\<lambda>s. s\<lparr>nat_pmp_ext_sock := x\<rparr>))"
  "framed conf_kept (modifyM (\<lambda>s. s\<lparr>shared_udp_sock_fd := x\<rparr>))"
  by (auto simp: framed_def conf_kept_def hist_grows_def run_simps split: option.splits)

lemmas conf_intros =
  conf_kept.framed_intros conf_kept_basic
  only_hist_sock_add [THEN only_hist_conf] only_hist_sock_get_port [THEN only_hist_conf]
  only_hist_iface_ip6_get [THEN only_hist_conf]

lemma conf_kept_add:
  "framed conf_kept (socket_add e ifn a p q b r)" "framed conf_kept (socket6_add e ifn a6 p q b r)"
  "framed conf_kept (socket_mcast_join e sock mc addr)"
  unfolding socket_add_def socket6_add_def socket_mcast_join_def by (intro conf_intros)+

lemma conf_kept_parts:
  "framed conf_kept (bind_upnp_udp e)" "framed conf_kept (bind_nat_pmp_ext e)"
  "framed conf_kept (bind_nat_pmp e)" "framed conf_kept (bind_upnp_tcp e)" "framed conf_kept (bind_shared e)"
  unfolding bind_upnp_udp_def ssdp_socket_def bind_nat_pmp_ext_def bind_nat_pmp_def bind_upnp_tcp_def
    bind_shared_def socket_add_port_def
  by (intro conf_intros conf_kept_add)+

lemma conf_kept_bind: "framed conf_kept (sockets_bind e)"
  unfolding sockets_bind_def bind_part_def by (intro conf_intros conf_kept_parts)

text \<open>Every part keeps the state well-formed.\<close>

abbreviation binds :: "env \<Rightarrow> int M \<Rightarrow> bool" where
  "binds e m \<equiv> (\<forall>s. state_ok s \<longrightarrow> bind_ok e s \<longrightarrow> wp_exit m (\<lambda>_ t. state_ok t) s)"

lemma wp_socket_add_port:
  assumes "state_ok s" and "port_char_fits port" and "fds_bounded e" and "relay_proto q"
  shows "wp_exit (socket_add_port e ifn a port q) (\<lambda>_ t. state_ok t) s"
  unfolding socket_add_port_def
  by (rule wp_bindI [OF wp_socket_add_grow [OF assms]])
     (auto simp: wp_bindM wp_basic(1) wp_run [OF sock_get_port_run] dest: socks_grow_ok)

lemma relay_protos: "relay_proto IPPROTO_UDP" "relay_proto IPPROTO_TCP"
  by (simp_all add: relay_proto_def)

lemma bind_simple_ok:
  assumes e: "fds_bounded e"
  shows "binds e (bind_nat_pmp e)" and "binds e (bind_upnp_tcp e)" and "binds e (bind_shared e)"
proof -
  have add: "wp_exit (socket_add_port e ifn a port q) (\<lambda>_ t. state_ok t) s"
    if "state_ok s" "port_char_fits port" "q = IPPROTO_UDP \<or> q = IPPROTO_TCP" for s ifn a port q
    using that relay_protos by (intro wp_socket_add_port [OF _ _ e]) auto
  have zero: "port_char_fits 0" by (simp add: port_char_fits_def)
  show "binds e (bind_nat_pmp e)"
    by (auto simp: bind_nat_pmp_def wp_bindM [of _ "getM _"] wp_basic bind_ok_def
        intro!: wp_bindI [OF add])
  show "binds e (bind_upnp_tcp e)"
    by (auto simp: bind_upnp_tcp_def wp_bindM [of _ "getM _"] wp_basic bind_ok_def
        intro!: wp_bindI [OF add])
  show "binds e (bind_shared e)"
    using zero by (auto simp: bind_shared_def wp_bindM [of _ "getM _"] wp_bindM [of _ "modifyM _"] wp_basic
        intro!: wp_bindI [OF add])
qed

lemma wp_exit_framed: "framed R m \<Longrightarrow> m s \<noteq> None \<Longrightarrow> wp_exit m (\<lambda>_ t. R s t) s"
  by (auto simp: wpx_def framed_def split: outcome.splits)

lemma bind_nat_pmp_ext_ok:
  assumes e: "fds_bounded e" and ok: "state_ok s" and b: "bind_ok e s" and on: "enable_nat_pmp_ext s \<noteq> 0"
  shows "wp_exit (bind_nat_pmp_ext e) (\<lambda>_ t. state_ok t) s"
proof -
  define detect where "detect = (\<lambda>bindme. if bindme \<noteq> replicate 16 0 then returnM (Some bindme)
    else bindM (readM (\<lambda>s. c_str (wan s))) (iface_ip6_get e))"
  define rest where "rest = (\<lambda>bindme. case bindme of
          None \<Rightarrow> returnM (-1 :: int)
        | Some addr6 \<Rightarrow>
            bindM (getM (\<lambda>s. (wan s, sint (natpmp_udp_port s)))) (\<lambda>(ifname, port).
            bindM (socket6_add e ifname addr6 port IPPROTO_UDP 0 0) (\<lambda>result.
            thenM (sock_get_port e result)
            (thenM (modifyM (\<lambda>s. s\<lparr>nat_pmp_ext_sock := result\<rparr>))
            (if result < 0 then returnM (-1) else returnM 0)))))"
  have rest: "wp_exit (rest bindme) (\<lambda>_ t. state_ok t) t" if "state_ok t" for bindme t
    unfolding rest_def using that
    by (auto simp: wp_bindM [of _ "getM _"] wp_bindM [of _ "modifyM _"] wp_bindM [of _ "sock_get_port e _"]
        wp_basic wp_run [OF sock_get_port_run] split: option.split dest: socks_grow_ok
        intro!: wp_bindI [OF wp_socket6_add_grow [OF _ e]])
  have detect: "wp_exit (bindM (detect (wanIPv6 t)) rest) (\<lambda>_ t. state_ok t) t"
    if t: "state_ok t" "bind_ok e t" "enable_nat_pmp_ext t \<noteq> 0" for t
  proof -
    have "wp_exit (detect (wanIPv6 t)) (\<lambda>_ u. only_hist t u) t"
    proof (cases "wanIPv6 t = replicate 16 0")
      case True
      obtain n where n: "c_str (wan t) = Some n" using t(2) by (auto simp: bind_ok_def)
      then have "NUL \<notin> set n" by (auto simp: c_str_def split: if_splits dest: set_takeWhileD)
      then have "iface_ip6_get e n t \<noteq> None" using t(2,3) True by (auto simp: bind_ok_def)
      from wp_exit_framed [OF only_hist_iface_ip6_get this] show ?thesis
        using True n by (simp add: detect_def wp_bindM wp_readM)
    next
      case False
      then show ?thesis using only_hist.R_refl by (simp add: detect_def wp_basic)
    qed
    then show ?thesis
      by (rule wp_bindI) (use t(1) in \<open>auto intro!: rest simp: state_ok_only_hist\<close>)
  qed
  let ?add = "socket_add_port e (lan s) (lanIP s) (sint (natpmp_udp_port s)) IPPROTO_UDP"
  have add: "wp_exit ?add (\<lambda>_ t. state_ok t \<and> conf_kept s t) s"
  proof (rule wp_framed)
    show "framed conf_kept ?add"
      unfolding socket_add_port_def by (intro conf_intros conf_kept_add)
    show "wp_exit ?add (\<lambda>_ t. state_ok t) s"
      using ok b by (intro wp_socket_add_port [OF _ _ e relay_protos(1)]) (simp_all add: bind_ok_def)
  qed
  have "wp_exit (if r < 0 then returnM (-1)
     else thenM (modifyM (\<lambda>s. s\<lparr>nat_pmp_lan_sock := r\<rparr>))
       (bindM (getM wanIPv6) (\<lambda>bindme. bindM (detect bindme) rest))) (\<lambda>_ t. state_ok t) t"
    if t: "state_ok t" "conf_kept s t" for r t
  proof -
    let ?t = "t\<lparr>nat_pmp_lan_sock := r\<rparr>"
    have "bind_ok e ?t" "enable_nat_pmp_ext ?t \<noteq> 0"
      using bind_ok_kept [OF t(2) b] t(2) on by (simp_all add: bind_ok_def conf_kept_def)
    then have "wp_exit (bindM (detect (wanIPv6 ?t)) rest) (\<lambda>_ t. state_ok t) ?t"
      using t(1) by (intro detect) simp_all
    then show ?thesis
      using t(1) by (simp add: wp_bindM [of _ "getM _"] wp_bindM [of _ "modifyM _"] wp_basic)
  qed
  then have "wp_exit (bindM ?add (\<lambda>r. if r < 0 then returnM (-1)
     else thenM (modifyM (\<lambda>s. s\<lparr>nat_pmp_lan_sock := r\<rparr>))
       (bindM (getM wanIPv6) (\<lambda>bindme. bindM (detect bindme) rest)))) (\<lambda>_ t. state_ok t) s"
    by (intro wp_bindI [OF add]) blast
  then show ?thesis
    unfolding detect_def rest_def bind_nat_pmp_ext_def
    by (simp add: wp_bindM [of _ "getM (\<lambda>s. (lan s, lanIP s, sint (natpmp_udp_port s)))"] wp_basic(4))
qed

text \<open>Pairing the two SSDP sockets: the end of \<open>bind_upnp_udp\<close>.\<close>

abbreviation pair_ssdp :: "int \<Rightarrow> int \<Rightarrow> int M" where
  "pair_ssdp l w \<equiv>
     bindM (readM (socket_find l)) (\<lambda>lans.
     bindM (readM (socket_find w)) (\<lambda>wans.
     bindM (socket_at wans) (\<lambda>w.
     thenM (put_socket lans (s_peer_update (\<lambda>_. s_fd w)))
     (bindM (socket_at lans) (\<lambda>l.
      thenM (put_socket wans (s_peer_update (\<lambda>_. s_fd l))) (returnM 0))))))"

lemma wp_pair:
  assumes "state_ok s" and "has_sock l s" and "has_sock w s"
  shows "wp (pair_ssdp l w) (\<lambda>_ t. state_ok t) s"
proof -
  obtain ms ss a n where l: "tables s ms ss" "socks_ok ss" "socket_find l s = Some a" "(a, n) \<in> set ss"
    "sheap s a = Some n" by (rule socket_find_has [OF assms(1,2)])
  obtain ms' ss' b m where w: "tables s ms' ss'" "socket_find w s = Some b" "(b, m) \<in> set ss'"
    "sheap s b = Some m" by (rule socket_find_has [OF assms(1,3)])
  have b: "b \<in> fst ` set ss" using w(3) tables_same [OF l(1) w(1)] by force
  let ?n = "n\<lparr>s_peer := s_fd m\<rparr>"
  let ?s = "s\<lparr>sheap := (sheap s)(a \<mapsto> ?n)\<rparr>"
  obtain ts where ts: "tables ?s ms ts" "socks_ok ts" "sock_fds ts = sock_fds ss" "fst ` set ts = fst ` set ss"
    by (rule tables_put_socket [OF l(1,2,4), of ?n]) simp_all
  then obtain k where k: "(b, k) \<in> set ts" using b by force
  have kb: "sheap ?s b = Some k" using chain_at_mem [OF _ k] ts(1) unfolding tables_def by blast
  have "state_ok (?s\<lparr>sheap := (sheap ?s)(b \<mapsto> k\<lparr>s_peer := s_fd ?n\<rparr>)\<rparr>)"
    by (rule tables_put_socket [OF ts(1,2) k, of "k\<lparr>s_peer := s_fd ?n\<rparr>"]) (auto intro: state_okI)
  then show ?thesis
    using l(3,5) w(2,4) kb by (simp add: wp_simps)
qed

lemma bind_upnp_udp_ok:
  assumes e: "fds_bounded e"
  shows "binds e (bind_upnp_udp e)"
proof (intro allI impI)
  fix s
  assume ok: "state_ok s" and b: "bind_ok e s"
  have ssdp: "wp_exit (ssdp_socket e name ip)
      (\<lambda>fd u. (socks_grow t u \<and> (0 \<le> fd \<longrightarrow> has_sock fd u)) \<and> conf_kept t u) t"
    if "state_ok t" "bind_ok e t" "name = lan \<or> name = wan" for name ip t
  proof (rule wp_framed)
    show "framed conf_kept (ssdp_socket e name ip)"
      unfolding ssdp_socket_def by (intro conf_intros conf_kept_add)
    show "wp_exit (ssdp_socket e name ip) (\<lambda>fd u. socks_grow t u \<and> (0 \<le> fd \<longrightarrow> has_sock fd u)) t"
      using that by (intro wp_ssdp_socket [OF _ _ _ e]) (auto simp: bind_ok_def)
  qed
  show "wp_exit (bind_upnp_udp e) (\<lambda>_ t. state_ok t) s"
    unfolding bind_upnp_udp_def
  proof (rule wp_bindI [OF ssdp [OF ok b disjI1 [OF refl]]], elim conjE)
    fix l t
    assume t: "socks_grow s t" "0 \<le> l \<longrightarrow> has_sock l t" "conf_kept s t"
    let ?t = "t\<lparr>lan_ssdp_sock := l\<rparr>"
    have t': "state_ok ?t" "bind_ok e ?t"
      using socks_grow_ok [OF t(1)] bind_ok_kept [OF t(3) b] by (simp_all add: bind_ok_def)
    have rest: "wp_exit (if w < 0 then returnM (-1)
        else thenM (modifyM (\<lambda>s. s\<lparr>wan_ssdp_sock := w\<rparr>))
          (pair_ssdp l w)) (\<lambda>_ t. state_ok t) u"
      if u: "(socks_grow ?t u \<and> (0 \<le> w \<longrightarrow> has_sock w u)) \<and> conf_kept ?t u" and l: "\<not> l < 0" for w u
    proof (cases "w < 0")
      case True
      then show ?thesis using socks_grow_ok [OF conjunct1 [OF conjunct1 [OF u(1)]]] by (simp add: wp_basic)
    next
      case False
      have "state_ok (u\<lparr>wan_ssdp_sock := w\<rparr>)"
        using socks_grow_ok [OF conjunct1 [OF conjunct1 [OF u(1)]]] by simp
      moreover have "has_sock l (u\<lparr>wan_ssdp_sock := w\<rparr>)"
        using u t(2) l has_sock_grow [of ?t u l] by simp
      moreover have "has_sock w (u\<lparr>wan_ssdp_sock := w\<rparr>)" using u False by simp
      ultimately have "wp (pair_ssdp l w)
          (\<lambda>_ t. state_ok t) (u\<lparr>wan_ssdp_sock := w\<rparr>)" by (rule wp_pair)
      from wp_weaken [OF this, of True] show ?thesis
        using False by (simp only: wp_bindM [of _ "modifyM _"] wp_basic if_False)
    qed
    show "wp_exit (if l < 0 then returnM (-1)
     else thenM (modifyM (\<lambda>s. s\<lparr>lan_ssdp_sock := l\<rparr>))
       (bindM (ssdp_socket e wan wanIP) (\<lambda>w.
        if w < 0 then returnM (-1)
        else thenM (modifyM (\<lambda>s. s\<lparr>wan_ssdp_sock := w\<rparr>)) (pair_ssdp l w))))
      (\<lambda>_ t. state_ok t) t"
      using wp_bindI [OF ssdp [OF t' disjI2 [OF refl]] rest] socks_grow_ok [OF t(1)]
      by (simp add: wp_bindM [of _ "modifyM _"] wp_basic)
  qed
qed

lemma sockets_bind_ok:
  assumes e: "fds_bounded e"
  shows "binds e (sockets_bind e)"
proof -
  have part: "binds e (bind_part en m next)"
    if "framed conf_kept m"
      "\<And>s. state_ok s \<Longrightarrow> bind_ok e s \<Longrightarrow> en s \<Longrightarrow> wp_exit m (\<lambda>_ t. state_ok t) s" "binds e next"
    for en m "next"
  proof (intro allI impI)
    fix s
    assume s: "state_ok s" "bind_ok e s"
    have "wp_exit (if en s then m else returnM 0) (\<lambda>_ t. state_ok t \<and> conf_kept s t) s"
      using wp_framed [OF that(1) that(2) [OF s]] s conf_kept.R_refl by (simp add: wp_basic)
    then have "wp_exit (bindM (if en s then m else returnM 0)
        (\<lambda>r. if r < 0 then returnM (-1) else next)) (\<lambda>_ t. state_ok t) s"
      by (rule wp_bindI) (use s that(3) bind_ok_kept in \<open>auto simp: wp_basic\<close>)
    then show "wp_exit (bind_part en m next) (\<lambda>_ t. state_ok t) s"
      by (simp add: bind_part_def wp_bindM [of _ "getM en"] wp_basic)
  qed
  have fin: "binds e (returnM 1)" by (simp add: wp_basic)
  show ?thesis
    unfolding sockets_bind_def
    using bind_upnp_udp_ok [OF e] bind_simple_ok [OF e]
    by (intro part conf_kept_parts bind_nat_pmp_ext_ok [OF e] fin) blast+
qed

section \<open>The life of the program\<close>

lemma sock_frame_conf: "sock_frame s t \<Longrightarrow> conf_kept s t \<and> Shutdown t = Shutdown s"
  by (auto simp: sock_frame_def conf_kept_def hist_grows_def)

lemma wp_sockets_close:
  assumes "state_ok s"
  shows "wp (sockets_close e) (\<lambda>_ t. state_ok t \<and> sock_frame s t \<and> sockets t = 0) s"
proof -
  obtain ms ss where t: "tables s ms ss" using assms by (auto simp: state_ok_def)
  obtain u where "sockets_close e s = Some (Ret (), u)" "tables u ms []" "sock_frame s u"
    using sockets_close_run [OF t, of e] by blast
  then show ?thesis by (auto simp: wp_run tables_def intro: state_okI [of _ ms "[]"])
qed

lemma persist_unfold:
  "persist_loop e s =
     bindM (sockets_bind e) (\<lambda>status.
       if status < 0
       then bindM (sockets_close e) (\<lambda>_. bindM (sys e (Sys_sleep 10)) (\<lambda>_.
            bindM (poll_signal e) (\<lambda>_. bindM (getM Shutdown) (\<lambda>sd.
              if sd \<noteq> 1 then persist_loop e else returnM ()))))
       else returnM ()) s"
  by (subst persist_loop.simps) (simp add: bindM_def if_distribR split: option.split outcome.split prod.split)

lemma polled_conf: "conf_kept s (polled e t) = conf_kept s t"
  by (simp add: conf_kept_def hist_grows_def signal_handler_def)

lemma wp_poll: "wpx b (poll_signal e) Q s = Q () (polled e s)"
  by (simp add: poll_signal_def wp_basic)

lemma wp_persist:
  assumes e: "fds_bounded e" and sig: "\<forall>h. n \<le> length h \<longrightarrow> e_signal e h"
  shows "state_ok s \<Longrightarrow> bind_ok e s \<Longrightarrow> wp_exit (persist_loop e) (\<lambda>_ t. state_ok t \<and> conf_kept s t) s"
proof (induction "n - length (hist s)" arbitrary: s rule: less_induct)
  case less
  have again: "wp_exit (bindM (sockets_close e) (\<lambda>_. bindM (sys e (Sys_sleep 10)) (\<lambda>_.
            bindM (poll_signal e) (\<lambda>_. bindM (getM Shutdown) (\<lambda>sd.
              if sd \<noteq> 1 then persist_loop e else returnM ())))))
      (\<lambda>_ t. state_ok t \<and> conf_kept s t) t"
    if t: "state_ok t" "conf_kept s t" for t
  proof (rule wp_bindI [OF wp_weaken [OF wp_sockets_close [OF t(1)]]], elim conjE)
    fix u
    assume u: "state_ok u" "sock_frame t u"
    let ?u = "u\<lparr>hist := (Sys_sleep 10, e_ret e (hist u) (Sys_sleep 10)) # hist u\<rparr>"
    have c: "conf_kept s ?u"
      using sock_frame_conf [OF u(2)] t(2) conf_kept.R_trans [of s t u]
      by (auto simp: conf_kept_def hist_grows_def)
    have ok: "state_ok (polled e ?u)" "conf_kept s (polled e ?u)"
      using u(1) c by (simp_all only: polled_ok polled_conf state_ok_hist)
    have "wp_exit (if Shutdown (polled e ?u) \<noteq> 1 then persist_loop e else returnM ())
        (\<lambda>_ t. state_ok t \<and> conf_kept s t) (polled e ?u)"
    proof (cases "Shutdown (polled e ?u) = 1")
      case True
      then show ?thesis using ok by (simp add: wp_basic)
    next
      case False
      then have "\<not> e_signal e (hist ?u)" by (auto simp: signal_handler_def)
      then have "\<not> n \<le> length (hist ?u)" using sig by blast
      moreover have "length (hist s) < length (hist ?u)"
        using sock_frame_conf [OF u(2)] t(2) by (simp add: conf_kept_def hist_grows_def)
      ultimately have "n - length (hist (polled e ?u)) < n - length (hist s)"
        unfolding polled_hist by linarith
      from less.hyps [OF this ok(1) bind_ok_kept [OF ok(2) less.prems(2)]]
      show ?thesis
        using False ok(2) by (auto elim!: wp_conseq intro: conf_kept.R_trans)
    qed
    then show "wp_exit (bindM (sys e (Sys_sleep 10)) (\<lambda>_. bindM (poll_signal e) (\<lambda>_.
        bindM (getM Shutdown) (\<lambda>sd. if sd \<noteq> 1 then persist_loop e else returnM ()))))
      (\<lambda>_ t. state_ok t \<and> conf_kept s t) u"
      unfolding wp_bindM [of _ "sys e _"] wp_bindM [of _ "poll_signal e"] wp_bindM [of _ "getM _"]
        wp_basic wp_poll .
  qed
  have "wp_exit (sockets_bind e) (\<lambda>_ t. state_ok t \<and> conf_kept s t) s"
    using wp_framed [OF conf_kept_bind] sockets_bind_ok [OF e] less.prems by blast
  then have "wp_exit (bindM (sockets_bind e) (\<lambda>status. if status < 0
       then bindM (sockets_close e) (\<lambda>_. bindM (sys e (Sys_sleep 10)) (\<lambda>_.
            bindM (poll_signal e) (\<lambda>_. bindM (getM Shutdown) (\<lambda>sd.
              if sd \<noteq> 1 then persist_loop e else returnM ()))))
       else returnM ())) (\<lambda>_ t. state_ok t \<and> conf_kept s t) s"
    by (rule wp_bindI) (use again in \<open>auto simp: wp_basic\<close>)
  then show ?case by (simp add: wpx_def persist_unfold)
qed

text \<open>The main loop, given that a signal comes.\<close>

lemma wp_run_loop:
  assumes "state_ok s" and e: "fds_bounded e" and "\<forall>h. n \<le> length h \<longrightarrow> e_signal e h"
  shows "wp (run e) (\<lambda>r t. r = 0 \<and> Shutdown t \<noteq> 0 \<and> state_ok t \<and> hist_grows s t) s"
proof -
  obtain r t where run: "run e s = Some (Ret r, t)" using run_ends [OF assms(1,2), of n] assms(3) by blast
  then obtain u where u: "r = 0" "Shutdown t \<noteq> 0" "turns e s u" "t = polled e u"
    using run_result [OF run] by auto
  have "state_ok t" unfolding u(4) polled_ok by (rule turns_ok(1) [OF u(3) assms(1) e])
  moreover have "hist_grows s t"
    using turns_ok(2) [OF u(3) assms(1) e] u(4) by (auto simp: hist_grows_def signal_handler_def)
  ultimately show ?thesis using run u by (simp add: wp_run)
qed

lemma ctx_release_run:
  assumes "chain_at if_next (iheap s) (ifaces s) xs"
  shows "ctx_release s = Some (Ret (), s\<lparr>iheap := iheap s |` (- fst ` set xs)\<rparr>)"
  using release_chain [OF assms] by (simp add: ctx_release_def run_simps)

text \<open>The end of a session: the loop, then the release of the sockets and interfaces.\<close>

lemma wp_session:
  assumes "state_ok s" and e: "fds_bounded e" and sig: "\<forall>h. n \<le> length h \<longrightarrow> e_signal e h"
    and "chain_at if_next (iheap s) (ifaces s) xs"
  shows "wp (thenM (run e) (thenM (sockets_close e) (thenM ctx_release (returnM 0))))
    (\<lambda>r t. r = 0 \<and> Shutdown t \<noteq> 0 \<and> state_ok t \<and> sockets t = 0 \<and>
       iheap t = iheap s |` (- fst ` set xs)) s"
proof (rule wp_bindI [OF wp_run_loop [OF assms(1) e sig]], elim conjE)
  fix t
  assume t: "Shutdown t \<noteq> 0" "state_ok t" "hist_grows s t"
  show "wp (thenM (sockets_close e) (thenM ctx_release (returnM 0)))
    (\<lambda>r t. r = 0 \<and> Shutdown t \<noteq> 0 \<and> state_ok t \<and> sockets t = 0 \<and>
       iheap t = iheap s |` (- fst ` set xs)) t"
  proof (rule wp_bindI [OF wp_sockets_close [OF t(2)]], elim conjE)
    fix u
    assume u: "state_ok u" "sock_frame t u" "sockets u = 0"
    have same: "iheap u = iheap s" "ifaces u = ifaces s" "Shutdown u \<noteq> 0"
      using sock_frame_conf [OF u(2)] t(1,3) by (auto simp: conf_kept_def hist_grows_def)
    let ?u = "u\<lparr>iheap := iheap u |` (- fst ` set xs)\<rparr>"
    have "state_ok ?u" using u(1) by (simp cong: state_ok_cong)
    then show "wp (thenM ctx_release (returnM 0))
      (\<lambda>r t. r = 0 \<and> Shutdown t \<noteq> 0 \<and> state_ok t \<and> sockets t = 0 \<and>
         iheap t = iheap s |` (- fst ` set xs)) u"
      using ctx_release_run [of u xs] assms(4) same u(3)
      by (simp add: wp_bindM [of _ ctx_release] wp_run wp_basic)
  qed
qed

text \<open>
  The program ends: after the set-up, on a configuration the sockets can be bound
  for, \<open>main\<close> has a defined result once a termination signal arrives, in persistent mode too, where
  the binding is retried until it works or the signal is seen. When it returns, either binding failed
  outside persistent mode and the result is -1, or it is 0, the list of sockets is empty and exactly
  the nodes of the interface list are freed.
\<close>

lemma main_serve_ends:
  assumes "state_ok s" and "fds_bounded e" and "bind_ok e s"
    and "\<forall>h. n \<le> length h \<longrightarrow> e_signal e h" and "chain_at if_next (iheap s) (ifaces s) xs"
  shows "\<exists>out t. main_serve e s = Some (out, t) \<and>
    (\<forall>r. out = Ret r \<longrightarrow> state_ok t \<and>
       (r = -1 \<and> persistent s = 0 \<or>
        r = 0 \<and> Shutdown t \<noteq> 0 \<and> sockets t = 0 \<and> iheap t = iheap s |` (- fst ` set xs)))"
proof -
  let ?serve = "\<lambda>r :: int. if r < 0 then returnM (-1)
     else thenM (run e) (thenM (sockets_close e) (thenM ctx_release (returnM 0)))"
  let ?Q = "\<lambda>r t. state_ok t \<and> (r = (-1 :: int) \<and> persistent s = 0 \<or>
      r = 0 \<and> Shutdown t \<noteq> 0 \<and> sockets t = 0 \<and> iheap t = iheap s |` (- fst ` set xs))"
  have bind: "wp_exit (sockets_bind e) (\<lambda>_ t. state_ok t \<and> conf_kept s t) s"
    using wp_framed [OF conf_kept_bind] sockets_bind_ok [OF assms(2)] assms(1,3) by blast
  have persist: "wp_exit (thenM (persist_loop e) (returnM (0 :: int)))
      (\<lambda>r t. r = 0 \<and> state_ok t \<and> conf_kept s t) s"
    by (rule wp_bindI [OF wp_persist [OF assms(2) assms(4) assms(1,3)]]) (simp_all add: wp_basic)
  have serve: "wp_exit (?serve r) ?Q t"
    if "state_ok t" "conf_kept s t" "persistent s = 0 \<or> r = 0" for r t
  proof (cases "r < 0")
    case True
    then show ?thesis using that by (simp add: wp_basic)
  next
    case False
    have same: "iheap t = iheap s" "ifaces t = ifaces s"
      using that(2) by (simp_all add: conf_kept_def hist_grows_def)
    then have "chain_at if_next (iheap t) (ifaces t) xs" using assms(5) by simp
    from wp_session [where n = n, OF that(1) assms(2) assms(4) this]
    have "wp_exit (?serve r) (\<lambda>r u. r = 0 \<and> Shutdown u \<noteq> 0 \<and> state_ok u \<and> sockets u = 0 \<and>
        iheap u = iheap t |` (- fst ` set xs)) t"
      using False by (simp only: if_False) (rule wp_weaken)
    then show ?thesis by (rule wp_conseq) (simp add: same)
  qed
  have "wp_exit (main_serve e) ?Q s"
  proof (cases "persistent s = 0")
    case True
    have "wp_exit (bindM (sockets_bind e) ?serve) ?Q s"
      by (rule wp_bindI [OF bind]) (use True serve in blast)
    then show ?thesis using True by (simp add: main_serve_def wp_bindM [of _ "getM _"] wp_basic)
  next
    case False
    have "wp_exit (bindM (thenM (persist_loop e) (returnM 0)) ?serve) ?Q s"
      by (rule wp_bindI [OF persist]) (use serve in blast)
    then show ?thesis using False by (simp add: main_serve_def wp_bindM [of _ "getM _"] wp_basic)
  qed
  then show ?thesis
    by (auto simp: wpx_def split: option.splits outcome.splits prod.splits)
qed

section \<open>The shared socket\<close>

text \<open>Without the shared socket its descriptor stays as it was.\<close>

definition unshared_kept :: "state \<Rightarrow> state \<Rightarrow> bool" where
  "unshared_kept s t \<longleftrightarrow> (shared_udp_sock s = 0 \<longrightarrow>
     shared_udp_sock t = 0 \<and> shared_udp_sock_fd t = shared_udp_sock_fd s)"

interpretation unshared_kept: frame unshared_kept
  by unfold_locales (auto simp: unshared_kept_def)

lemma only_hist_unshared: "framed only_hist m \<Longrightarrow> framed unshared_kept m"
  by (force simp: framed_def only_hist_def unshared_kept_def)

lemma unshared_basic:
  "framed unshared_kept (sys e c)" "framed unshared_kept (malloc_socket sk)" "framed unshared_kept (put_socket a f)"
  "framed unshared_kept (modifyM (\<lambda>s. s\<lparr>sockets := p\<rparr>))"
  "framed unshared_kept (modifyM (\<lambda>s. s\<lparr>lan_ssdp_sock := x\<rparr>))"
  "framed unshared_kept (modifyM (\<lambda>s. s\<lparr>wan_ssdp_sock := x\<rparr>))"
  "framed unshared_kept (modifyM (\<lambda>s. s\<lparr>nat_pmp_lan_sock := x\<rparr>))"
  "framed unshared_kept (modifyM (\<lambda>s. s\<lparr>nat_pmp_ext_sock := x\<rparr>))"
  by (auto simp: framed_def unshared_kept_def run_simps split: option.splits)

lemmas unshared_intros =
  unshared_kept.framed_intros unshared_basic
  only_hist_sock_add [THEN only_hist_unshared] only_hist_sock_get_port [THEN only_hist_unshared]
  only_hist_iface_ip6_get [THEN only_hist_unshared]

lemma unshared_bind: "framed unshared_kept (sockets_bind e)"
proof -
  have add: "framed unshared_kept (socket_add e ifn a p q b r)" "framed unshared_kept (socket6_add e ifn a6 p q b r)"
    "framed unshared_kept (socket_mcast_join e sock mc addr)" for ifn a p q b r a6 sock mc addr
    unfolding socket_add_def socket6_add_def socket_mcast_join_def by (intro unshared_intros)+
  have parts: "framed unshared_kept (bind_upnp_udp e)" "framed unshared_kept (bind_nat_pmp_ext e)"
    "framed unshared_kept (bind_nat_pmp e)" "framed unshared_kept (bind_upnp_tcp e)"
    unfolding bind_upnp_udp_def ssdp_socket_def bind_nat_pmp_ext_def bind_nat_pmp_def bind_upnp_tcp_def
      socket_add_port_def
    by (intro unshared_intros add)+
  have next_part: "framed unshared_kept (bind_part en m n)"
    if "framed unshared_kept m" "framed unshared_kept n" for en m n
    unfolding bind_part_def using that by (intro unshared_intros)
  have last: "framed unshared_kept
      (bind_part (\<lambda>s. shared_udp_sock s \<noteq> 0 \<and> on s) (bind_shared e) (returnM 1))" for on
    by (auto simp: framed_def unshared_kept_def bind_part_def run_simps)
  show ?thesis unfolding sockets_bind_def by (intro next_part parts last)
qed

section \<open>The SSDP group\<close>

text \<open>An address in network order that is of class D, that is, multicast.\<close>

definition class_d :: "bool \<Rightarrow> u32 \<Rightarrow> bool" where
  "class_d be a \<longleftrightarrow> 224 \<le> mem32 be a ! 0 \<and> mem32 be a ! 0 < 240"

lemma group_bytes: "mem32 (big_endian e) (mcast (framework_init e s)) = [250, 255, 255, 239]"
  by (cases "big_endian e") (simp_all add: framework_init_def htonl_def bswap32_def mem32_def)

lemma wp_join_refused:
  assumes "sheap s a = Some n" and "e_ret e (hist s) (Sys_setsockopt (s_fd n) (IP_ADD_MEMBERSHIP mc addr)) < 0"
  shows "wp (socket_mcast_join e a mc addr) (\<lambda>r _. r < 0) s"
  using assms by (simp add: socket_mcast_join_def wp_simps)

lemma ssdp_socket_refused:
  assumes "state_ok s" and "c_str (name s) \<noteq> None" and "port_char_fits (sint (upnp_udp_port s))" and "fds_bounded e"
    and ref: "\<And>h fd addr. e_ret e h (Sys_setsockopt fd (IP_ADD_MEMBERSHIP (mcast s) addr)) < 0"
  shows "wp_exit (ssdp_socket e name ip) (\<lambda>fd t. fd < 0) s"
proof -
  obtain n where n: "c_str (name s) = Some n" using assms(2) by blast
  let ?P = "\<lambda>fd t. (socks_grow s t \<and> (0 \<le> fd \<longrightarrow> has_sock fd t)) \<and> mcast t = mcast s"
  have add: "wp_exit (socket_add e n (htonl (big_endian e) 0) (sint (upnp_udp_port s)) IPPROTO_UDP 1 1) ?P s"
    using wp_framed [OF conf_kept_add(1) wp_socket_add_grow [OF assms(1,3,4) relay_protos(1)]]
    by (rule wp_conseq) (simp add: conf_kept_def)
  have join: "wp_exit (bindM (readM (socket_find fd)) (\<lambda>sock.
        bindM (getM (\<lambda>s. (mcast s, ip s))) (\<lambda>(mc, addr).
        bindM (socket_mcast_join e sock mc addr) (\<lambda>result.
        if result < 0 then returnM (-1) else returnM fd)))) (\<lambda>fd t. fd < 0) t"
    if t: "?P fd t" "0 \<le> fd" for fd t
  proof -
    have "state_ok t" "has_sock fd t" using t socks_grow_ok by blast+
    then obtain ms ss a m where a: "socket_find fd t = Some a" "sheap t a = Some m"
      by (rule socket_find_has)
    have "wp_exit (socket_mcast_join e a (mcast t) (ip t)) (\<lambda>r _. r < 0) t"
      using t(1) ref by (intro wp_weaken [OF wp_join_refused [OF a(2)]]) simp
    then have "wp_exit (bindM (socket_mcast_join e a (mcast t) (ip t)) (\<lambda>result.
        if result < 0 then returnM (-1) else returnM fd)) (\<lambda>fd t. fd < 0) t"
      by (rule wp_bindI) (simp add: wp_basic)
    then show ?thesis
      using a(1) by (simp add: wp_bindM [of _ "readM _"] wp_bindM [of _ "getM _"] wp_readM wp_basic)
  qed
  have rest: "wp_exit (thenM (sock_get_port e fd) (if fd < 0 then returnM (-1)
      else bindM (readM (socket_find fd)) (\<lambda>sock.
        bindM (getM (\<lambda>s. (mcast s, ip s))) (\<lambda>(mc, addr).
        bindM (socket_mcast_join e sock mc addr) (\<lambda>result.
        if result < 0 then returnM (-1) else returnM fd))))) (\<lambda>fd t. fd < 0) t"
    if "?P fd t" for fd t
  proof (rule wp_bindI [OF wp_weaken [OF wp_sock_get_port]], elim conjE)
    fix u
    assume u: "only_hist t u"
    then have "?P fd u" using that by (auto simp: only_hist_grow) (auto simp: only_hist_def)
    then show "wp_exit (if fd < 0 then returnM (-1)
      else bindM (readM (socket_find fd)) (\<lambda>sock.
        bindM (getM (\<lambda>s. (mcast s, ip s))) (\<lambda>(mc, addr).
        bindM (socket_mcast_join e sock mc addr) (\<lambda>result.
        if result < 0 then returnM (-1) else returnM fd)))) (\<lambda>fd t. fd < 0) u"
      using join [of u fd] by (cases "fd < 0") (simp_all only: wp_basic if_True if_False not_less, simp)
  qed
  from wp_bindI [OF add rest] show ?thesis
    by (simp add: ssdp_socket_def wp_bindM [of _ "readM (\<lambda>s. c_str (name s))"]
        wp_bindM [of _ "getM (\<lambda>s. sint (upnp_udp_port s))"] wp_readM wp_basic(4) n)
qed

section \<open>The check of the configuration\<close>

text \<open>
  \<open>main\<close> only stops at 0: -1, which \<open>sanity_check\<close> returns when both NAT-PMP modes are enabled, is
  taken for success, so the two are served together.
\<close>

lemma both_nat_pmp_modes_served:
  assumes "enable_nat_pmp s \<noteq> 0" and "enable_nat_pmp_ext s \<noteq> 0"
  shows "sanity_check s = -1" and "main_checked e s = main_serve e s"
  using assms by (simp_all add: sanity_check_def main_checked_def run_simps)

section \<open>Properties\<close>

text \<open>
  C22: the group \<open>framework_init\<close> sets is 250.255.255.239 on machines of either byte
  order, the bytes of 239.255.255.250 reversed. A kernel refuses to enter a socket in a group that is
  not of class D, so with UPnP over UDP enabled \<open>sockets_bind\<close> never succeeds: it returns -1 (or a
  failure of another call has ended the process).
\<close>

theorem ssdp_group_refused:
  assumes "mcast s = mcast (framework_init e s0)" and "enable_upnp_udp s \<noteq> 0"
    and "state_ok s" and "fds_bounded e" and "bind_ok e s"
    and "\<forall>h fd mc addr. \<not> class_d (big_endian e) mc \<longrightarrow>
      e_ret e h (Sys_setsockopt fd (IP_ADD_MEMBERSHIP mc addr)) < 0"
  shows "mem32 (big_endian e) (mcast s) = [250, 255, 255, 239] \<and>
    (\<exists>out t. sockets_bind e s = Some (out, t) \<and> (out = Ret (-1) \<or> (\<exists>c. out = Exit c)))"
proof -
  have group: "mem32 (big_endian e) (mcast s) = [250, 255, 255, 239]"
    unfolding assms(1) by (rule group_bytes)
  then have "\<not> class_d (big_endian e) (mcast s)" by (simp add: class_d_def)
  then have "wp_exit (ssdp_socket e lan lanIP) (\<lambda>fd t. fd < 0) s"
    using assms by (intro ssdp_socket_refused) (simp_all add: bind_ok_def)
  then have "wp_exit (bind_upnp_udp e) (\<lambda>r _. r < 0) s"
    unfolding bind_upnp_udp_def by (rule wp_bindI) (simp add: wp_basic)
  then have "wp_exit (bindM (bind_upnp_udp e) (\<lambda>r. if r < 0 then returnM (-1) else m))
      (\<lambda>r _. r = -1) s" for m
    by (rule wp_bindI) (simp add: wp_basic)
  then have "wp_exit (sockets_bind e) (\<lambda>r _. r = -1) s"
    using assms(2) by (simp add: sockets_bind_def bind_part_def wp_bindM [of _ "getM _"] wp_basic)
  then show ?thesis
    using group by (auto simp: wpx_def split: option.splits outcome.splits prod.splits)
qed

definition sample_bind :: state where
  "sample_bind = framework_init sample_env (sample0\<lparr>lan := ''br-lan'' @ [NUL], wan := ''eth0'' @ [NUL],
     enable_upnp_udp := 1\<rparr>)"

definition refusing_env :: env where
  "refusing_env = sample_env\<lparr>e_ret := (\<lambda>h c. case c of
     Sys_setsockopt fd (IP_ADD_MEMBERSHIP mc addr) \<Rightarrow> (if class_d False mc then 0 else -1)
   | _ \<Rightarrow> e_ret sample_env h c)\<rparr>"

lemma sample_bind_ok: "state_ok sample_bind" "bind_ok e sample_bind"
proof -
  show "state_ok sample_bind"
    using sample_state_ok unfolding sample_bind_def framework_init_def by (simp cong: state_ok_cong)
  show "bind_ok e sample_bind"
    by (simp add: bind_ok_def sample_bind_def framework_init_def sample_state_def port_char_fits_def
        c_str_def)
qed

theorem ssdp_group_refused_witness:
  "\<exists>out t. sockets_bind refusing_env sample_bind = Some (out, t) \<and> (out = Ret (-1) \<or> (\<exists>c. out = Exit c))"
proof -
  have be: "big_endian refusing_env = False" by (simp add: refusing_env_def)
  have "fds_bounded refusing_env"
    using sample_fds_bounded by (simp add: fds_bounded_def refusing_env_def)
  moreover have "mcast sample_bind = mcast (framework_init refusing_env sample0)"
    by (simp add: sample_bind_def framework_init_def be)
  moreover have "enable_upnp_udp sample_bind \<noteq> 0"
    by (simp add: sample_bind_def framework_init_def)
  moreover have "\<forall>h fd mc addr. \<not> class_d (big_endian refusing_env) mc \<longrightarrow>
      e_ret refusing_env h (Sys_setsockopt fd (IP_ADD_MEMBERSHIP mc addr)) < 0"
    unfolding be by (simp add: refusing_env_def)
  ultimately show ?thesis
    using ssdp_group_refused sample_bind_ok by blast
qed

text \<open>The end of the program on this state, without interfaces.\<close>

lemma main_serve_ends_witness:
  "\<exists>out t. main_serve sample_env sample_bind = Some (out, t) \<and>
    (\<forall>r. out = Ret r \<longrightarrow> state_ok t \<and> (r = -1 \<and> persistent sample_bind = 0 \<or> r = 0 \<and> Shutdown t \<noteq> 0 \<and>
       sockets t = 0 \<and> iheap t = iheap sample_bind |` (- fst ` set ([] :: (ptr \<times> iface_t) list))))"
proof (rule main_serve_ends [OF sample_bind_ok(1) sample_fds_bounded sample_bind_ok(2)])
  show "\<forall>h. 4 \<le> length h \<longrightarrow> e_signal sample_env h" by simp
  show "chain_at if_next (iheap sample_bind) (ifaces sample_bind) []"
    by (simp add: sample_bind_def framework_init_def sample_state_def)
qed

text \<open>
  C10: with \<open>--shared-udp-sock 0\<close> no socket for the queries is bound, but
  \<open>query_socket_get\<close> does not look at the option: a UDP query is then sent on descriptor 0, the value
  \<open>ctx_create\<close> left in \<open>shared_udp_sock_fd\<close>.
\<close>

theorem unshared_uses_stdin:
  fixes e :: env
  assumes "shared_udp_sock s = 0" "shared_udp_sock_fd s = shared_udp_sock_fd (ctx_create s0)"
    and "sockets_bind e s = Some (Ret r, t)" and "tables t ms ss" and "enable_nat_pmp_ext t = 0"
    and "pheap t pkt = Some p" "pkt_ok p" "p_proto p = IPPROTO_UDP"
      "p_dstIP p \<noteq> mcast t \<or> p_sock p \<noteq> wan_ssdp_sock t"
    and "\<forall>(a, m) \<in> set ms. \<not> mapping_match (mcast t) p m"
  shows "\<exists>k u. handle_packet e pkt t = Some (Ret k, u) \<and>
    fst (hd (hist u)) = datagram e 0 (p_data p)
      (if p_dstIP p = mcast t then mcast t else aftrIPv4 t) (p_dstPort p)"
proof -
  have fd: "shared_udp_sock_fd t = 0"
    using framedD [OF unshared_bind assms(3)] assms(1,2) by (simp add: unshared_kept_def ctx_create_def)
  obtain k u where u: "handle_mapped e pkt t = Some (Ret k, u)"
    "fst (hd (hist u)) = datagram e (shared_udp_sock_fd t) (p_data p)
      (if p_dstIP p = mcast t then mcast t else aftrIPv4 t) (p_dstPort p)"
    by (rule handle_mapped_query [OF assms(4,6-8,10), where e = e]) (simp add: new_mapping_def)
  have "handle_packet e pkt t = handle_mapped e pkt t"
    using assms(5) by (simp add: handle_packet_udp [OF assms(6,8,9)])
  then show ?thesis using u fd by auto
qed

theorem unshared_uses_stdin_witness:
  "\<exists>s t k u. sockets_bind sample_env s = Some (Ret 1, t) \<and> enable_nat_pmp s = 1 \<and>
    handle_packet sample_env 5 t = Some (Ret k, u) \<and>
    fst (hd (hist u)) = datagram sample_env 0 [9] 23 1900"
proof -
  let ?p = "(sample_pkt 17 [9])\<lparr>p_dstPort := 1900\<rparr>"
  let ?s = "(sample_state ?p)\<lparr>shared_udp_sock := 0, shared_udp_sock_fd := 0, enable_nat_pmp_ext := 0,
    enable_nat_pmp := 1\<rparr>"
  let ?n = "(blank_socket SOCKET_TYPE_UDP)\<lparr>s_fd := 11, s_ipproto := IPPROTO_UDP, s_next := 3\<rparr>"
  have "tables ?s sample_ms sample_ss"
    using sample_tables by (subst tables_cong [of ?s "sample_state ?p"]) simp_all
  then have t: "tables (?s\<lparr>brk := Suc (brk ?s), sheap := (sheap ?s)(brk ?s \<mapsto> ?n), sockets := brk ?s\<rparr>)
      sample_ms ((brk ?s, ?n) # sample_ss)"
    by (rule tables_push_socket) simp
  have k: "socket_kind SOCKET_TYPE_UDP 17 = Some SOCKET_TYPE_UDP" "sock_stype 17 = Some SOCK_DGRAM"
    by (simp_all add: socket_kind_def sock_stype_def ipproto_defs)
  have "\<exists>h. sockets_bind sample_env ?s = Some (Ret 1,
      ?s\<lparr>hist := h, brk := 7, sheap := (sheap ?s)(6 \<mapsto> ?n), sockets := 6\<rparr>)"
    by (simp add: sockets_bind_def bind_part_def bind_nat_pmp_def socket_add_port_def socket_add_def
        sock_add_def sock_add_finish_def run_simps sock_get_port_run k sample_state_def
        port_char_fits_def sock_is_multicast_def ipproto_defs)
  then obtain h where h: "sockets_bind sample_env ?s = Some (Ret 1,
      ?s\<lparr>hist := h, brk := 7, sheap := (sheap ?s)(6 \<mapsto> ?n), sockets := 6\<rparr>)" ..
  let ?t = "?s\<lparr>hist := h, brk := 7, sheap := (sheap ?s)(6 \<mapsto> ?n), sockets := 6\<rparr>"
  have "tables ?t sample_ms ((6, ?n) # sample_ss)"
    using t by (subst tables_cong [of ?t "?s\<lparr>brk := Suc (brk ?s), sheap := (sheap ?s)(brk ?s \<mapsto> ?n),
      sockets := brk ?s\<rparr>"]) simp_all
  from unshared_uses_stdin [OF _ _ h this, of sample0 5 ?p]
  have "\<exists>k u. handle_packet sample_env 5 ?t = Some (Ret k, u) \<and>
    fst (hd (hist u)) = datagram sample_env 0 [9] 23 1900"
    by (simp add: ctx_create_def sample_pkt_def pkt_ok_def RECV_LEN_def ipproto_defs mapping_match_def
        addr_cmp_def sample_m1_def sample_m2_def)
  moreover have "enable_nat_pmp ?s = 1" by simp
  ultimately show ?thesis using h by blast
qed



end
