(* ===== verification/Kernel.thy ===== *)
theory Kernel
  imports Options
begin

text \<open>
  What a Linux kernel is documented to answer to the two netlink dumps of
  \<^verbatim>\<open>src/lowlevel-linux.c\<close> (rtnetlink(7)): the form of its messages, and that with such a kernel both
  dumps, the list of interfaces and the detection of an IPv6 address have a result.
\<close>

section \<open>The messages\<close>

text \<open>
  A message holds its own length. The attributes of a link message begin behind two headers of 16
  bytes and fill the message; its name is a string, its address has at most 255 bytes.
\<close>

definition sized :: "env \<Rightarrow> byte list \<Rightarrow> bool" where
  "sized e n \<longleftrightarrow> map_option uint (load32 (big_endian e) n) = Some (int (length n))"

definition attrs_of :: "env \<Rightarrow> nat \<Rightarrow> nat \<Rightarrow> byte list \<Rightarrow> (nat \<Rightarrow> nat option) \<Rightarrow> bool" where
  "attrs_of e mx off n tb \<longleftrightarrow>
     attrs_fill (big_endian e) mx n off (int (length n) - int off) Map.empty tb"

definition link_msg :: "env \<Rightarrow> byte list \<Rightarrow> bool" where
  "link_msg e n \<longleftrightarrow> (\<exists>tb. attrs_of e (IFLA_MAX e) 32 n tb \<and>
     (\<exists>a. tb IFLA_IFNAME = Some a \<and> 0 \<in> set (drop (a + 4) n)) \<and>
     (\<forall>a l. tb IFLA_ADDRESS = Some a \<longrightarrow> load16 (big_endian e) (drop a n) = Some l \<longrightarrow> uint l \<le> 259))"

text \<open>
  An address message for IPv4 or IPv6 has an address attribute, of 4 or 16 bytes at least. An interface
  has at most one IPv4 address: the program cannot take more (property of \<open>ipaddr_global_get\<close>).
\<close>

definition addr_len :: "byte \<Rightarrow> nat" where
  "addr_len fam = (if fam = AF_INET_nr then 4 else 16)"

definition addr_msg :: "env \<Rightarrow> byte list \<Rightarrow> bool" where
  "addr_msg e n \<longleftrightarrow> 24 \<le> length n \<and> (n ! 16 \<in> {AF_INET_nr, AF_INET6_nr} \<longrightarrow>
     (\<exists>tb. attrs_of e (IFA_MAX e) 24 n tb \<and> (tb IFA_LOCAL \<noteq> None \<or> tb IFA_ADDRESS \<noteq> None) \<and>
       (\<forall>a l. tb IFA_LOCAL = Some a \<or> tb IFA_ADDRESS = Some a \<longrightarrow>
          load16 (big_endian e) (drop a n) = Some l \<longrightarrow> int (4 + addr_len (n ! 16)) \<le> uint l)))"

definition one_ipv4 :: "env \<Rightarrow> byte list list \<Rightarrow> bool" where
  "one_ipv4 e ainfo \<longleftrightarrow> (\<forall>idx. length (filter
     (\<lambda>n. n ! 16 = AF_INET_nr \<and> load32 (big_endian e) (drop 20 n) = Some idx) ainfo) \<le> 1)"

section \<open>The answers\<close>

text \<open>
  The kernel answers a dump with datagrams of messages, each with the number of the request and the
  address of the asking socket, and ends it with \<open>NLMSG_DONE\<close>.
\<close>

definition answers_dump :: "env \<Rightarrow> u32 \<Rightarrow> int \<Rightarrow> u16 \<Rightarrow> byte \<Rightarrow> (byte list list \<Rightarrow> bool) \<Rightarrow> bool" where
  "answers_dump e pid fd ty fam P \<longleftrightarrow> (\<forall>h seq.
     let c = Sys_sendto fd (dump_req (big_endian e) ty seq fam) (Sockaddr_nl 0 0);
         rth = \<lparr>rth_fd = fd, rth_pid = pid, rth_seq = seq, rth_dump = seq\<rparr>
     in \<exists>nss ns d. dump_answers e fd ((c, e_ret e h c) # h) (map datagram nss @ [datagram ns @ d]) \<and>
          (\<forall>n \<in> set (concat nss) \<union> set ns. dump_item (big_endian e) rth n) \<and>
          dump_end (big_endian e) rth d \<and> P (concat nss @ ns))"

text \<open>A netlink socket can be opened; \<open>pid\<close> is the address the kernel gives it.\<close>

definition opens_netlink :: "env \<Rightarrow> (int \<Rightarrow> u32) \<Rightarrow> bool" where
  "opens_netlink e pid \<longleftrightarrow> (\<forall>h fd.
     0 \<le> e_ret e h (Sys_socket AF_NETLINK SOCK_RAW NETLINK_ROUTE) \<and>
     0 \<le> e_ret e h (Sys_setsockopt fd (SO_SNDBUF 32768)) \<and>
     0 \<le> e_ret e h (Sys_setsockopt fd (SO_RCVBUF 32768)) \<and>
     0 \<le> e_ret e h (Sys_bind fd (Sockaddr_nl 0 0)) \<and>
     0 \<le> e_ret e h (Sys_getsockname fd) \<and> e_nlname e h fd = (12, 16, pid fd))"

definition describes_links :: "env \<Rightarrow> bool" where
  "describes_links e \<longleftrightarrow> (\<exists>pid. opens_netlink e pid \<and> (\<forall>fd.
     answers_dump e (pid fd) fd RTM_GETLINK AF_PACKET_nr (list_all (link_msg e)) \<and>
     answers_dump e (pid fd) fd RTM_GETADDR AF_UNSPEC_nr (\<lambda>ns. list_all (addr_msg e) ns \<and> one_ipv4 e ns)))"

section \<open>Reading the messages\<close>

lemma dump_item_sized: "dump_item (big_endian e) rth n \<Longrightarrow> sized e n"
  by (auto simp: dump_item_def sized_def hdr_at_def split: option.splits)

lemma attrs_of_parse:
  assumes "attrs_of e mx off n tb"
  shows "parse_rtattr (big_endian e) mx n off (int (length n) - int off) = Some tb" and "off \<le> length n"
proof -
  show "parse_rtattr (big_endian e) mx n off (int (length n) - int off) = Some tb"
    using parse_fill [OF assms [unfolded attrs_of_def], of 0]
    by (simp add: parse_rtattr_def) (subst parse_loop.simps, simp)
  show "off \<le> length n" using attrs_fill_nonneg [OF assms [unfolded attrs_of_def]] by simp
qed

lemma attrs_of_bounds:
  assumes "attrs_of e mx off n tb" and "tb t = Some a"
  obtains l where "load16 (big_endian e) (drop a n) = Some l" "4 \<le> uint l" "int a + uint l \<le> int (length n)"
  using parse_loop_bounds [OF attrs_of_parse(1) [OF assms(1), unfolded parse_rtattr_def], of t a] assms(2)
  by auto

lemma sized_link_attrs:
  assumes "sized e n" and "attrs_of e (IFLA_MAX e) 32 n tb"
  shows "link_attrs e n = Some tb"
  using assms(1) attrs_of_parse(1) [OF assms(2)]
  by (auto simp: link_attrs_def sized_def NLMSG_LENGTH_def)

lemma c_str_chars: "0 \<in> set bs \<Longrightarrow> c_str (chars bs) \<noteq> None"
proof -
  assume "0 \<in> set bs"
  then have "char_of (unat (0 :: byte)) \<in> set (chars bs)" unfolding chars_def set_map by (rule imageI)
  moreover have "char_of (unat (0 :: byte)) = NUL" by code_simp
  ultimately show ?thesis by (simp add: c_str_def)
qed

lemma loads_within:
  "k + 2 \<le> length l \<Longrightarrow> \<exists>w. load16 be (drop k l) = Some w"
  "k + 4 \<le> length l \<Longrightarrow> \<exists>w. load32 be (drop k l) = Some w"
  using load16_defined [of "drop k l" be] load32_defined [of "drop k l" be] by simp_all

lemma addr_msg_bytes:
  assumes "sized e n" and "addr_msg e n" and fam: "n ! 16 \<in> {AF_INET_nr, AF_INET6_nr}"
  shows "addr_bytes e n (addr_len (n ! 16)) \<noteq> None"
proof -
  obtain tb where tb: "attrs_of e (IFA_MAX e) 24 n tb" "tb IFA_LOCAL \<noteq> None \<or> tb IFA_ADDRESS \<noteq> None"
    "\<And>a l. tb IFA_LOCAL = Some a \<or> tb IFA_ADDRESS = Some a \<Longrightarrow>
       load16 (big_endian e) (drop a n) = Some l \<Longrightarrow> int (4 + addr_len (n ! 16)) \<le> uint l"
    using assms(2) fam unfolding addr_msg_def by blast
  have p: "addr_attrs e n = Some (let tb = (if tb IFA_LOCAL = None then tb(IFA_LOCAL := tb IFA_ADDRESS) else tb)
      in if tb IFA_ADDRESS = None then tb(IFA_ADDRESS := tb IFA_LOCAL) else tb)"
    using assms(1) attrs_of_parse(1) [OF tb(1)]
    by (auto simp: addr_attrs_def sized_def NLMSG_LENGTH_def Let_def)
  obtain a where a: "tb IFA_LOCAL = Some a \<or> tb IFA_ADDRESS = Some a"
    "\<exists>tb'. addr_attrs e n = Some tb' \<and> tb' IFLA_ADDRESS = Some a"
    using tb(2) p by (cases "tb IFA_ADDRESS"; cases "tb IFA_LOCAL")
      (auto simp: Let_def IFA_LOCAL_def IFA_ADDRESS_def IFLA_ADDRESS_def)
  obtain l where "load16 (big_endian e) (drop a n) = Some l" "int a + uint l \<le> int (length n)"
    using a(1) attrs_of_bounds [OF tb(1)] by metis
  then have "a + 4 + addr_len (n ! 16) \<le> length n" using tb(3) [OF a(1)] by force
  then show ?thesis using a(2) by (auto simp: addr_bytes_def rta_data_def)
qed

lemma addr_msgs_ok:
  assumes "\<forall>n \<in> set ainfo. sized e n" and "list_all (addr_msg e) ainfo"
  shows "\<forall>n \<in> set ainfo. addr_msg_ok e AF_INET_nr idx 4 n"
    and "\<forall>n \<in> set ainfo. addr_msg_ok e AF_INET6_nr idx 16 n"
  using assms addr_msg_bytes [of e]
  by (force simp: list_all_iff addr_msg_ok_def addr_msg_def addr_len_def AF_INET_nr_def AF_INET6_nr_def)+

lemma one_address:
  assumes "one_ipv4 e ainfo"
  shows "length (List.map_filter (addr_in e AF_INET_nr idx 4) ainfo) \<le> 1"
proof -
  have "length (List.map_filter (addr_in e AF_INET_nr idx 4) ainfo) \<le>
    length (filter (\<lambda>n. n ! 16 = AF_INET_nr \<and> load32 (big_endian e) (drop 20 n) = Some idx) ainfo)"
    by (induction ainfo) (auto simp: List.map_filter_def addr_in_def)
  also have "\<dots> \<le> 1" using assms unfolding one_ipv4_def by blast
  finally show ?thesis .
qed

lemma link_msg_iface:
  assumes "sized e l" and "link_msg e l"
    and "\<forall>n \<in> set ainfo. sized e n" and "list_all (addr_msg e) ainfo" and "one_ipv4 e ainfo"
  shows "iface_of_link e ainfo g l \<noteq> None"
proof -
  obtain tb a where tb: "attrs_of e (IFLA_MAX e) 32 l tb" "tb IFLA_IFNAME = Some a" "0 \<in> set (drop (a + 4) l)"
    "\<And>a n. tb IFLA_ADDRESS = Some a \<Longrightarrow> load16 (big_endian e) (drop a l) = Some n \<Longrightarrow> uint n \<le> 259"
    using assms(2) unfolding link_msg_def by blast
  have len: "32 \<le> length l" using attrs_of_parse(2) [OF tb(1)] by simp
  have la: "link_attrs e l = Some tb" using assms(1) tb(1) by (rule sized_link_attrs)
  obtain name where nm: "Option.bind (link_name l tb) c_str = Some name"
    using c_str_chars [OF tb(3)] by (auto simp: link_name_def tb(2))
  obtain ty idx fl where r: "load16 (big_endian e) (drop 18 l) = Some ty"
    "load32 (big_endian e) (drop 20 l) = Some idx" "load32 (big_endian e) (drop 24 l) = Some fl"
    using len loads_within(1) [of 18 l "big_endian e"] loads_within(2) [of 20 l "big_endian e"]
      loads_within(2) [of 24 l "big_endian e"] by auto
  have "link_mac e l tb \<noteq> None"
  proof (cases "tb IFLA_ADDRESS")
    case None
    then show ?thesis by (simp add: link_mac_def)
  next
    case (Some b)
    obtain k where k: "load16 (big_endian e) (drop b l) = Some k" "4 \<le> uint k" "int b + uint k \<le> int (length l)"
      by (rule attrs_of_bounds [OF tb(1) Some])
    have "uint k \<le> 259" using tb(4) Some k(1) by blast
    then show ?thesis
      using k Some by (auto simp: link_mac_def rta_payload_def rta_data_def)
  qed
  then obtain mac maclen where mac: "link_mac e l tb = Some (mac, maclen)" by fastforce
  obtain cnt buf where "ipaddr_global_get e idx ainfo 0 [] = Some (cnt, buf)"
    using ipaddr_loop [OF addr_msgs_ok(1) [OF assms(3,4)], of "[]" 0 idx] one_address [OF assms(5), of idx]
    by (cases "List.map_filter (addr_in e AF_INET_nr idx 4) ainfo"
        rule: list.exhaust [case_product]) (auto split: list.splits)
  then show ?thesis by (simp add: iface_of_link_def la nm r mac)
qed

lemma link_msgs_ip6:
  assumes "\<forall>n \<in> set linfo. sized e n" and "list_all (link_msg e) linfo"
    and "\<forall>n \<in> set ainfo. sized e n" and "list_all (addr_msg e) ainfo" and "NUL \<notin> set name"
  shows "ip6_loop e name ainfo found linfo \<noteq> None"
  using assms(1,2)
proof (induction linfo arbitrary: found)
  case (Cons l linfo)
  then have l: "sized e l" "link_msg e l" by simp_all
  obtain tb a where tb: "attrs_of e (IFLA_MAX e) 32 l tb" "tb IFLA_IFNAME = Some a" "0 \<in> set (drop (a + 4) l)"
    using l(2) unfolding link_msg_def by blast
  have len: "32 \<le> length l" using attrs_of_parse(2) [OF tb(1)] by simp
  have la: "link_attrs e l = Some tb" using l(1) tb(1) by (rule sized_link_attrs)
  obtain n where "c_str (chars (drop (a + 4) l)) = Some n" using c_str_chars [OF tb(3)] by blast
  from strcmp_eq_c_str [OF this assms(5)]
  have nm: "Option.bind (link_name l tb) (strcmp_eq name) = Some (name = n)"
    by (simp add: link_name_def tb(2))
  obtain idx where r: "load32 (big_endian e) (drop 20 l) = Some idx"
    using len loads_within(2) [of 20 l "big_endian e"] by auto
  obtain v where v: "ipaddr6_global_get e idx ainfo = Some v"
    using ipaddr6_loop [OF addr_msgs_ok(2) [OF assms(3,4)]] by blast
  have IH: "ip6_loop e name ainfo found linfo \<noteq> None" for found
    using Cons.IH Cons.prems by simp
  show ?case using IH by (auto simp: la nm r v split: option.splits)
qed simp

section \<open>Both dumps\<close>

lemma link_dumps_described:
  assumes "describes_links e"
  obtains linfo ainfo h where "link_dumps e s = Some (Ret (linfo, ainfo), s\<lparr>hist := h\<rparr>)"
    "\<forall>n \<in> set linfo. sized e n" "list_all (link_msg e) linfo"
    "\<forall>n \<in> set ainfo. sized e n" "list_all (addr_msg e) ainfo" "one_ipv4 e ainfo"
proof -
  obtain pid where o: "opens_netlink e pid"
    and a: "\<And>fd. answers_dump e (pid fd) fd RTM_GETLINK AF_PACKET_nr (list_all (link_msg e))"
      "\<And>fd. answers_dump e (pid fd) fd RTM_GETADDR AF_UNSPEC_nr (\<lambda>ns. list_all (addr_msg e) ns \<and> one_ipv4 e ns)"
    using assms unfolding describes_links_def by blast
  have op: "0 \<le> e_ret e h (Sys_socket AF_NETLINK SOCK_RAW NETLINK_ROUTE)"
    "0 \<le> e_ret e h (Sys_setsockopt fd (SO_SNDBUF 32768))" "0 \<le> e_ret e h (Sys_setsockopt fd (SO_RCVBUF 32768))"
    "0 \<le> e_ret e h (Sys_bind fd (Sockaddr_nl 0 0))" "0 \<le> e_ret e h (Sys_getsockname fd)"
    "e_nlname e h fd = (12, 16, pid fd)" for h fd
    using o unfolding opens_netlink_def by blast+
  obtain fd sq h0 where rth: "rtnl_open e 0 \<lparr>rth_fd = 0, rth_pid = 0, rth_seq = 0, rth_dump = 0\<rparr> s =
      Some (Ret (0, \<lparr>rth_fd = fd, rth_pid = pid fd, rth_seq = sq, rth_dump = 0\<rparr>), s\<lparr>hist := h0\<rparr>)"
    using op by (simp add: rtnl_open_def rtnl_open_byproto_def run_simps Let_def not_less[symmetric])
  have dump: "\<exists>ns h'. (\<forall>n \<in> set ns. sized e n) \<and> P ns \<and>
      bindM (rtnl_wilddump_request e fam ty \<lparr>rth_fd = fd, rth_pid = pid fd, rth_seq = q, rth_dump = d\<rparr>) (\<lambda>(_, rth).
        bindM (rtnl_dump_filter e rth store_nlmsg None []) (\<lambda>(_, ms). f rth ms)) (s\<lparr>hist := h\<rparr>) =
      f \<lparr>rth_fd = fd, rth_pid = pid fd, rth_seq = q + 1, rth_dump = q + 1\<rparr> ns (s\<lparr>hist := h'\<rparr>)"
    if ans: "answers_dump e (pid fd) fd ty fam P" for ty fam P q d h and f :: "rtnl_handle \<Rightarrow> byte list list \<Rightarrow> 'a M"
  proof -
    let ?c = "Sys_sendto fd (dump_req (big_endian e) ty (q + 1) fam) (Sockaddr_nl 0 0)"
    let ?rth = "\<lparr>rth_fd = fd, rth_pid = pid fd, rth_seq = q + 1, rth_dump = q + 1\<rparr>"
    let ?h = "(?c, e_ret e h ?c) # h"
    obtain nss ns t where n: "dump_answers e fd ?h (map datagram nss @ [datagram ns @ t])"
      "\<forall>n \<in> set (concat nss) \<union> set ns. dump_item (big_endian e) ?rth n"
      "dump_end (big_endian e) ?rth t" "P (concat nss @ ns)"
      using ans unfolding answers_dump_def Let_def by blast
    have "rtnl_dump_filter e ?rth store_nlmsg None [] (s\<lparr>hist := ?h\<rparr>) = Some (Ret (0, [] @ concat nss @ ns),
        (s\<lparr>hist := ?h\<rparr>)\<lparr>hist := recv_events fd (map datagram nss @ [datagram ns @ t]) @ hist (s\<lparr>hist := ?h\<rparr>)\<rparr>)"
      using n by (intro dump_filter_run) simp_all
    moreover have "\<forall>n \<in> set (concat nss @ ns). sized e n" using n(2) dump_item_sized by auto
    ultimately show ?thesis
      using n(4) by (intro exI [of _ "concat nss @ ns"]
        exI [of _ "recv_events fd (map datagram nss @ [datagram ns @ t]) @ ?h"])
        (simp add: rtnl_wilddump_request_def Let_def run_simps)
  qed
  let ?r = "\<lambda>q d. \<lparr>rth_fd = fd, rth_pid = pid fd, rth_seq = q, rth_dump = d\<rparr>"
  define second where "second = (\<lambda>rth linfo.
      bindM (rtnl_wilddump_request e AF_UNSPEC_nr RTM_GETADDR rth) (\<lambda>(_, rth).
      bindM (rtnl_dump_filter e rth store_nlmsg None []) (\<lambda>(_, ainfo).
      returnM (linfo :: byte list list, ainfo))))"
  obtain linfo h1 where l: "\<forall>n \<in> set linfo. sized e n" "list_all (link_msg e) linfo"
    "bindM (rtnl_wilddump_request e AF_PACKET_nr RTM_GETLINK (?r sq 0)) (\<lambda>(_, rth).
      bindM (rtnl_dump_filter e rth store_nlmsg None []) (\<lambda>(_, ms). second rth ms)) (s\<lparr>hist := h0\<rparr>) =
      second (?r (sq + 1) (sq + 1)) linfo (s\<lparr>hist := h1\<rparr>)"
    using dump [OF a(1) [of fd], of sq 0 second h0] by blast
  obtain ainfo h2 where n: "\<forall>n \<in> set ainfo. sized e n" "list_all (addr_msg e) ainfo" "one_ipv4 e ainfo"
    "second (?r (sq + 1) (sq + 1)) linfo (s\<lparr>hist := h1\<rparr>) = returnM (linfo, ainfo) (s\<lparr>hist := h2\<rparr>)"
    using dump [OF a(2) [of fd], of "sq + 1" "sq + 1" "\<lambda>_ ainfo. returnM (linfo, ainfo)" h1]
    unfolding second_def by blast
  have "link_dumps e s = Some (Ret (linfo, ainfo), s\<lparr>hist := h2\<rparr>)"
    using rth l(3) n(4) unfolding second_def link_dumps_def Let_def by (simp add: run_simps)
  then show thesis using that l n by blast
qed

text \<open>The list of interfaces and the IPv6 address of one, from any state.\<close>

lemma described_ip6:
  assumes "describes_links e" and "NUL \<notin> set name"
  shows "iface_ip6_get e name s \<noteq> None"
proof -
  obtain linfo ainfo h where "link_dumps e s = Some (Ret (linfo, ainfo), s\<lparr>hist := h\<rparr>)"
    "\<forall>n \<in> set linfo. sized e n" "list_all (link_msg e) linfo"
    "\<forall>n \<in> set ainfo. sized e n" "list_all (addr_msg e) ainfo"
    by (rule link_dumps_described [OF assms(1), where s = s])
  moreover from link_msgs_ip6 [OF this(2-5) assms(2)] obtain v where "ip6_loop e name ainfo None linfo = Some v"
    by blast
  ultimately show ?thesis by (simp add: iface_ip6_get_def run_simps)
qed

section \<open>The routing table\<close>

definition prints_routes :: "env \<Rightarrow> bool" where
  "prints_routes e \<longleftrightarrow> (\<forall>h f. e_route e h = Some f \<longrightarrow> (\<exists>heading rs.
     f = text_of (heading # map route_text rs) \<and> text_line heading \<and> (\<forall>r \<in> set rs. route_entry_ok r)))"

lemma prints_routes_scan:
  assumes "prints_routes e" and "32 \<le> long_bits e"
  shows "\<forall>h f. e_route e h = Some f \<longrightarrow> route_scan e 0 f \<noteq> None"
  using assms route_scan_entries [of _ _ e] unfolding prints_routes_def by blast

section \<open>A sample kernel\<close>

text \<open>
  The link \<open>br-lan\<close> and its address 10.0.0.1 as answers to a request with the number in the bytes
  \<open>a b c d\<close>, and a table with one default route.
\<close>

abbreviation link_reply :: "byte \<Rightarrow> byte \<Rightarrow> byte \<Rightarrow> byte \<Rightarrow> byte list" where
  "link_reply a b c d \<equiv>
     [56, 0, 0, 0, 16, 0, 2, 0, a, b, c, d, 77, 0, 0, 0,
      0, 0, 1, 0, 2, 0, 0, 0, 0x43, 0x10, 0, 0, 0xFF, 0xFF, 0xFF, 0xFF,
      11, 0, 3, 0, 0x62, 0x72, 0x2D, 0x6C, 0x61, 0x6E, 0, 0,
      10, 0, 1, 0, 2, 4, 6, 8, 10, 12, 0, 0]"

abbreviation addr_reply :: "byte \<Rightarrow> byte \<Rightarrow> byte \<Rightarrow> byte \<Rightarrow> byte list" where
  "addr_reply a b c d \<equiv>
     [32, 0, 0, 0, 20, 0, 2, 0, a, b, c, d, 77, 0, 0, 0,
      2, 24, 128, 0, 2, 0, 0, 0, 8, 0, 1, 0, 10, 0, 0, 1]"

abbreviation done_reply :: "byte \<Rightarrow> byte \<Rightarrow> byte \<Rightarrow> byte \<Rightarrow> byte list" where
  "done_reply a b c d \<equiv> [16, 0, 0, 0, 3, 0, 2, 0, a, b, c, d, 77, 0, 0, 0]"

definition kernel_reply :: "byte list \<Rightarrow> byte list" where
  "kernel_reply q = (case take 4 (drop 8 q) of
     [a, b, c, d] \<Rightarrow> (if q ! 4 = 18 then link_reply a b c d else addr_reply a b c d) @ done_reply a b c d
   | _ \<Rightarrow> [])"

abbreviation sample_route :: route_entry where
  "sample_route \<equiv> \<lparr>rt_iface = ''eth0'', rt_dest = 0, rt_gateway = 0x010000C0, rt_rest = ''0003''\<rparr>"

definition kernel_env :: env where
  "kernel_env = (nl_env 0)\<lparr>e_recv := (\<lambda>h _.
     \<lparr>r_bytes = kernel_reply (last_request h), r_peer = 0, r_port = 0, r_pktinfo = [], r_pktinfo6 = [],
      r_nlpid = 0, r_trunc = False, r_namelen = 12\<rparr>),
     e_route := (\<lambda>_. Some (text_of (''Iface'' # map route_text [sample_route])))\<rparr>"

lemma kernel_env_simps [simp]:
  "big_endian kernel_env = False" "e_ret kernel_env = e_ret sample_env"
  "e_nlname kernel_env h fd = (12, 16, 77)" "e_heap kernel_env h = 0" "IFLA_MAX kernel_env = 20"
  "IFA_MAX kernel_env = 7" "e_signal kernel_env = e_signal sample_env" "long_bits kernel_env = 32"
  by (simp_all add: kernel_env_def nl_env_def sample_env_def)

lemma kernel_routes: "prints_routes kernel_env"
proof -
  have "list_all (\<lambda>c. \<not> isspace c \<and> c \<noteq> NUL) ''eth0''" by code_simp
  then have "route_entry_ok sample_route" by (simp add: route_entry_ok_def route_text_def)
  moreover have "text_line ''Iface''" by (simp add: text_line_def)
  moreover have "e_route kernel_env h = Some (text_of (''Iface'' # map route_text [sample_route]))" for h
    by (simp add: kernel_env_def)
  ultimately have "\<exists>heading rs. f = text_of (heading # map route_text rs) \<and> text_line heading \<and>
      (\<forall>r \<in> set rs. route_entry_ok r)" if "e_route kernel_env h = Some f" for h f
    using that by (intro exI [of _ "''Iface''"] exI [of _ "[sample_route]"]) (simp del: list.map)
  then show ?thesis unfolding prints_routes_def by blast
qed

lemma sample_msgs: "link_msg kernel_env (link_reply a b c d)" "addr_msg kernel_env (addr_reply a b c d)"
proof -
  let ?l = "link_reply a b c d" and ?n = "addr_reply a b c d"
  have "attrs_fill False 20 ?l 32 24 Map.empty [3 \<mapsto> 32, 1 \<mapsto> 44]"
    by (rule fill_attr, simp, simp, simp, simp add: RTA_ALIGN_def, simp add: RTA_ALIGN_def,
        rule fill_attr, simp, simp, simp, simp add: RTA_ALIGN_def, simp add: RTA_ALIGN_def fill_none)
  then show "link_msg kernel_env ?l"
    unfolding link_msg_def by (intro exI [of _ "[3 \<mapsto> 32, 1 \<mapsto> 44]"])
      (simp add: attrs_of_def IFLA_IFNAME_def IFLA_ADDRESS_def)
  have "attrs_fill False 7 ?n 24 8 Map.empty [1 \<mapsto> 24]"
    by (rule fill_attr, simp, simp, simp, simp add: RTA_ALIGN_def, simp add: RTA_ALIGN_def fill_none)
  then show "addr_msg kernel_env ?n"
    unfolding addr_msg_def by (intro conjI impI exI [of _ "[1 \<mapsto> 24]"])
      (simp_all add: attrs_of_def IFA_LOCAL_def IFA_ADDRESS_def addr_len_def AF_INET_nr_def)
qed

lemma mem32_False: "\<exists>a b c d. mem32 False w = [a, b, c, d]"
  by (simp add: mem32_def)

lemma kernel_answers:
  assumes "ty = RTM_GETLINK \<and> r = link_reply \<or> ty = RTM_GETADDR \<and> r = addr_reply" and "\<forall>a b c d. P [r a b c d]"
  shows "answers_dump kernel_env 77 fd ty fam P"
  unfolding answers_dump_def Let_def
proof (intro allI)
  fix h and seq :: u32
  let ?q = "dump_req (big_endian kernel_env) ty seq fam"
  let ?ev = "(Sys_sendto fd ?q (Sockaddr_nl 0 0), e_ret kernel_env h (Sys_sendto fd ?q (Sockaddr_nl 0 0))) # h"
  let ?rth = "\<lparr>rth_fd = fd, rth_pid = 77, rth_seq = seq, rth_dump = seq\<rparr>"
  obtain a b c d where m: "mem32 False seq = [a, b, c, d]" using mem32_False by blast
  have sq: "load32 False [a, b, c, d] = Some seq" using load32_mem32 [of False seq "[]"] m by simp
  have q: "take 4 (drop 8 (dump_req False ty seq fam)) = [a, b, c, d]"
    "dump_req False ty seq fam ! 4 = ucast ty"
    by (simp_all add: dump_req_def hdr_bytes_def m mem16_def, simp add: mem32_def)
  have d: "datagram [r a b c d] = r a b c d"
    using assms(1) by (auto simp: datagram_def padded_def)
  have "dump_item False ?rth (r a b c d)" "dump_end False ?rth (done_reply a b c d)"
    using assms(1) sq by (auto simp: dump_item_def dump_end_def hdr_at_def NLMSG_DONE_def NLMSG_ERROR_def)
  moreover have "kernel_reply ?q = r a b c d @ done_reply a b c d"
    using assms(1) by (auto simp: kernel_reply_def q RTM_GETLINK_def RTM_GETADDR_def)
  then have "dump_answers kernel_env fd ?ev [datagram [r a b c d] @ done_reply a b c d]"
    using assms(1) unfolding d by (auto simp: kernel_env_def sample_env_def)
  ultimately show "\<exists>nss ns t. dump_answers kernel_env fd ?ev (map datagram nss @ [datagram ns @ t]) \<and>
      (\<forall>n \<in> set (concat nss) \<union> set ns. dump_item (big_endian kernel_env) ?rth n) \<and>
      dump_end (big_endian kernel_env) ?rth t \<and> P (concat nss @ ns)"
    using assms(2) by (intro exI [of _ "[]"] exI [of _ "[r a b c d]"] exI [of _ "done_reply a b c d"]) simp
qed

lemma kernel_describes: "describes_links kernel_env"
proof -
  have "opens_netlink kernel_env (\<lambda>_. 77)" by (simp add: opens_netlink_def)
  moreover have "answers_dump kernel_env 77 fd RTM_GETLINK AF_PACKET_nr (list_all (link_msg kernel_env))" for fd
    using sample_msgs(1) by (intro kernel_answers [of _ link_reply]) simp_all
  moreover have "answers_dump kernel_env 77 fd RTM_GETADDR AF_UNSPEC_nr
      (\<lambda>ns. list_all (addr_msg kernel_env) ns \<and> one_ipv4 kernel_env ns)" for fd
    using sample_msgs(2) by (intro kernel_answers [of _ addr_reply]) (simp_all add: one_ipv4_def)
  ultimately show ?thesis unfolding describes_links_def by blast
qed

end
