(* ===== verification/Program.thy ===== *)
theory Program
  imports Lifecycle Kernel
begin

text \<open>
  The program as a whole, from its first statement: the interfaces the kernel describes, the parsing of
  the command line and its report are defined, and what they leave is a configuration the sockets can be
  bound for, so \<^verbatim>\<open>Lifecycle\<close> applies to the rest of \<open>main\<close>.
\<close>

section \<open>The interfaces at the start\<close>

text \<open>A program that has not run yet: nothing is allocated, no call was made, no signal seen.\<close>

definition program_start :: "state \<Rightarrow> bool" where
  "program_start s \<longleftrightarrow> mheap s = Map.empty \<and> sheap s = Map.empty \<and> pheap s = Map.empty \<and>
     iheap s = Map.empty \<and> 0 < brk s \<and> hist s = [] \<and> log_level s = 1 \<and> Shutdown s = 0"

lemma iface_of_link_ok: "iface_of_link e ainfo g l = Some i \<Longrightarrow> iface_ok i"
  by (auto simp: iface_of_link_def iface_ok_def c_str_def dest!: in_set_takeD set_takeWhileD ipaddr_count
      split: option.splits prod.splits if_splits bind_splits)

lemma iface_ok_next [simp]: "iface_ok (i\<lparr>if_next := p\<rparr>) = iface_ok i"
  by (simp add: iface_ok_def)

text \<open>Nothing but the list is in the heap of interfaces.\<close>

definition ifaces_ok :: "(ptr \<times> iface_t) list \<Rightarrow> state \<Rightarrow> bool" where
  "ifaces_ok xs s \<longleftrightarrow> chain_at if_next (iheap s) (ifaces s) xs \<and> (\<forall>(a, i) \<in> set xs. iface_ok i) \<and>
     dom (iheap s) = fst ` set xs"

text \<open>What \<open>if_list_get\<close> leaves alone.\<close>

definition tables_kept :: "state \<Rightarrow> state \<Rightarrow> bool" where
  "tables_kept s t \<longleftrightarrow> mheap t = mheap s \<and> sheap t = sheap s \<and> pheap t = pheap s \<and> brk s \<le> brk t \<and>
     mappings t = mappings s \<and> sockets t = sockets s \<and> lan t = lan s \<and> wan t = wan s"

interpretation tables_kept: frame tables_kept
  by unfold_locales (auto simp: tables_kept_def)

lemma only_hist_tables: "only_hist s t \<Longrightarrow> tables_kept s t"
  by (auto simp: only_hist_def tables_kept_def)

lemma framed_if_list_get: "framed tables_kept (if_list_get e)"
proof -
  have mem: "framed tables_kept (malloc_iface i)" "framed tables_kept (put_iface q f)" for i q f
    by (auto simp: framed_def tables_kept_def run_simps split: option.splits)
  have build: "framed tables_kept (build_ifaces e ainfo p b linfo)" for ainfo p b linfo
    by (induction e ainfo p b linfo rule: build_ifaces.induct)
       (auto intro!: tables_kept.framed_intros mem)
  have dumps: "framed tables_kept (link_dumps e)"
    using only_hist_link_dumps only_hist_tables by (fastforce simp: framed_def)
  show ?thesis
    unfolding if_list_get_def by (intro tables_kept.framed_intros dumps build)
qed

lemma tables_empty_kept:
  assumes "tables s [] []" and "tables_kept s t"
  shows "tables t [] []"
  using assms by (auto simp: tables_def heap_ok_def tables_kept_def)

text \<open>The list of interfaces of a program that has just started.\<close>

lemma if_list_get_start:
  assumes d: "describes_links e" and g: "\<forall>h. e_heap e h = 0"
    and s: "iheap s = Map.empty" "0 < brk s"
  obtains p t xs where "if_list_get e s = Some (Ret p, t)" "tables_kept s t" "ifaces_ok xs (t\<lparr>ifaces := p\<rparr>)"
proof -
  obtain linfo ainfo h where dumps: "link_dumps e s = Some (Ret (linfo, ainfo), s\<lparr>hist := h\<rparr>)"
    "\<forall>n \<in> set linfo. sized e n" "list_all (link_msg e) linfo"
    "\<forall>n \<in> set ainfo. sized e n" "list_all (addr_msg e) ainfo" "one_ipv4 e ainfo"
    by (rule link_dumps_described [OF d, where s = s])
  let ?u = "s\<lparr>hist := h\<rparr>"
  have u: "iheap ?u = Map.empty" "brk ?u = brk s" "e_heap e (hist ?u) = 0"
    using s(1) g by simp_all
  have ok: "list_all (\<lambda>l. iface_of_link e ainfo 0 l \<noteq> None) linfo"
    using dumps link_msg_iface by (auto simp: list_all_iff)
  show thesis
  proof (cases "linfo = []")
    case True
    then have run: "if_list_get e s = Some (Ret 0, ?u)" using dumps(1) by (simp add: if_list_get_def run_simps)
    show ?thesis
      using that [OF run framedD [OF framed_if_list_get run], of "[]"] u(1) by (simp add: ifaces_ok_def)
  next
    case False
    have "0 < brk ?u" using s(2) u(2) by simp
    from build_ifaces_run [OF ok False this]
    obtain p t xs where t: "build_ifaces e ainfo 0 0 linfo ?u = Some (Ret p, t)" "seg (iheap t) p xs 0"
      and xs: "contents xs = map (the \<circ> iface_of_link e ainfo 0) linfo" "distinct (map fst xs)"
      and fresh: "\<forall>a. a \<notin> {brk ?u..<brk ?u + length linfo} \<longrightarrow> iheap ?u a = None \<longrightarrow> iheap t a = None"
      unfolding u(3) by blast
    have run: "if_list_get e s = Some (Ret p, t)" using dumps(1) t(1) by (simp add: if_list_get_def run_simps)
    have c: "chain_at if_next (iheap t) p xs" using t(2) by (simp add: seg_chain)
    have "\<forall>j \<in> set (contents xs). iface_ok j"
      unfolding xs(1) using ok by (auto simp: list_all_iff intro: iface_of_link_ok)
    then have ifc: "\<forall>(a, i) \<in> set xs. iface_ok i" by fastforce
    have sub: "fst ` set xs \<subseteq> dom (iheap t)" using chain_at_mem [OF c] by fastforce
    have dom: "dom (iheap t) \<subseteq> {brk ?u..<brk ?u + length linfo}" using fresh u(1) by fastforce
    have "card (fst ` set xs) = length linfo"
      using distinct_card [OF xs(2)] arg_cong [OF xs(1), of length] by simp
    then have "fst ` set xs = {brk ?u..<brk ?u + length linfo}"
      using sub dom by (intro card_subset_eq) auto
    then have "fst ` set xs = dom (iheap t)" using sub dom by blast
    then show ?thesis
      using that [OF run framedD [OF framed_if_list_get run], of xs] c ifc by (simp add: ifaces_ok_def)
  qed
qed

section \<open>The command line\<close>

text \<open>
  What the parsing keeps: the tables and the interfaces, names that are strings and ports that fit
  their buffer. The interfaces and their heap are those it started with.
\<close>

lemma port_word [simp]: "port_char_fits n \<Longrightarrow> port_char_fits (sint (word_of_int n :: u32))"
  by (simp add: port_char_fits_def signed_of_int signed_take_bit_int_eq_self)

definition ports_fit :: "state \<Rightarrow> bool" where
  "ports_fit s \<longleftrightarrow> port_char_fits (sint (natpmp_udp_port s)) \<and> port_char_fits (sint (upnp_udp_port s)) \<and>
     port_char_fits (sint (upnp_tcp_port1 s)) \<and> port_char_fits (sint (upnp_tcp_port2 s))"

definition cmd_ok :: "(ptr \<times> iface_t) list \<Rightarrow> state \<Rightarrow> bool" where
  "cmd_ok xs s \<longleftrightarrow> tables s [] [] \<and> ifaces_ok xs s \<and> c_str (lan s) \<noteq> None \<and> c_str (wan s) \<noteq> None \<and>
     ports_fit s"

text \<open>An argument that is a string shorter than a name, and if it is a number, one of a port.\<close>

definition arg_ok :: "string \<Rightarrow> bool" where
  "arg_ok a \<longleftrightarrow> NUL \<notin> set a \<and> length a < MAX_IFNAME_LENGTH \<and>
     (case atoi a of None \<Rightarrow> False | Some n \<Rightarrow> port_char_fits n)"

lemma ifaces_ok_ip:
  "ifaces_ok xs s \<Longrightarrow> c_str arr = Some n \<Longrightarrow> iface_ip arr s = Some (addr_of_name n xs)"
  by (rule iface_ip_chain) (auto simp: ifaces_ok_def)

text \<open>What \<open>cmd_ok\<close> reads besides the ports and the names.\<close>

definition core_kept :: "state \<Rightarrow> state \<Rightarrow> bool" where
  "core_kept s t \<longleftrightarrow> mheap t = mheap s \<and> sheap t = sheap s \<and> pheap t = pheap s \<and> brk t = brk s \<and>
     mappings t = mappings s \<and> sockets t = sockets s \<and> iheap t = iheap s \<and> ifaces t = ifaces s"

lemma core_keptD:
  assumes "core_kept s t"
  shows "tables t ms ss = tables s ms ss" and "ifaces_ok xs t = ifaces_ok xs s"
proof -
  show "tables t ms ss = tables s ms ss"
    using assms unfolding core_kept_def by (intro tables_cong) simp_all
  show "ifaces_ok xs t = ifaces_ok xs s" using assms by (simp add: core_kept_def ifaces_ok_def)
qed

lemma cmd_okI:
  assumes "cmd_ok xs s" and "core_kept s t" and "lan t = lan s \<or> c_str (lan t) \<noteq> None"
    and "wan t = wan s \<or> c_str (wan t) \<noteq> None" and "ports_fit s \<longrightarrow> ports_fit t"
  shows "cmd_ok xs t"
  using assms core_keptD [OF assms(2)] by (auto simp: cmd_ok_def)

lemma cmd_ok_fields:
  assumes "cmd_ok xs s"
  shows "cmd_ok xs (s\<lparr>lanIP := a\<rparr>)" "cmd_ok xs (s\<lparr>wanIP := a\<rparr>)" "cmd_ok xs (s\<lparr>aftrIPv4 := a\<rparr>)"
    "cmd_ok xs (s\<lparr>wanIPv6 := b\<rparr>)" "cmd_ok xs (s\<lparr>aftrIPv6 := b\<rparr>)" "cmd_ok xs (LogLevel n s)"
    "cmd_ok xs (s\<lparr>hist := h\<rparr>)" "c_str v \<noteq> None \<Longrightarrow> cmd_ok xs (s\<lparr>lan := v\<rparr>)"
    "c_str v \<noteq> None \<Longrightarrow> cmd_ok xs (s\<lparr>wan := v\<rparr>)"
  by (rule cmd_okI [OF assms]; simp add: core_kept_def ports_fit_def LogLevel_def)+

lemma flag_option_core:
  assumes "flag_option a = Some f"
  shows "core_kept s (f s)" and "lan (f s) = lan s \<and> wan (f s) = wan s \<and> (ports_fit s \<longrightarrow> ports_fit (f s))"
  using assms by (auto simp: flag_option_def core_kept_def ports_fit_def split: if_splits)

lemma int_option_core:
  assumes "int_option a = Some put"
  shows "core_kept s (put n s)" and "lan (put n s) = lan s \<and> wan (put n s) = wan s"
    and "port_char_fits n \<Longrightarrow> ports_fit s \<Longrightarrow> ports_fit (put n s)"
  using assms by (auto simp: int_option_def core_kept_def ports_fit_def split: if_splits)

lemma cmd_ok_flag: "flag_option a = Some f \<Longrightarrow> cmd_ok xs s \<Longrightarrow> cmd_ok xs (f s)"
  using flag_option_core cmd_okI by metis

lemma cmd_ok_int: "int_option a = Some put \<Longrightarrow> port_char_fits n \<Longrightarrow> cmd_ok xs s \<Longrightarrow> cmd_ok xs (put n s)"
  using int_option_core by (metis cmd_okI)

lemma wp_store_addr:
  assumes "\<And>x. cmd_ok xs (put x s)" and "\<And>b. cmd_ok xs (put6 b s)" and "cmd_ok xs s"
  shows "wp_exit (store_addr4 e v put) (\<lambda>_ t. cmd_ok xs t) s"
    and "wp_exit (store_addr6 e v put6) (\<lambda>_ t. cmd_ok xs t) s"
proof -
  have four: "load32 be bs \<noteq> None" if "inet_pton4 v = Some bs" for be bs
    using that by (auto simp: inet_pton4_def split: list.splits option.splits)
  show "wp_exit (store_addr4 e v put) (\<lambda>_ t. cmd_ok xs t) s"
    using assms four by (auto simp: store_addr4_def wp_simps split: option.splits)
  show "wp_exit (store_addr6 e v put6) (\<lambda>_ t. cmd_ok xs t) s"
    using assms by (auto simp: store_addr6_def wp_simps split: option.splits)
qed

lemma wp_value_option:
  assumes act: "value_option e a = Some act" and v: "arg_ok v" and s: "cmd_ok xs s"
  shows "wp_exit (act v) (\<lambda>_ t. cmd_ok xs t) s"
proof (cases "int_option a")
  case (Some put)
  then show ?thesis
    using act v s by (auto simp: value_option_def wp_simps arg_ok_def cmd_ok_int split: option.splits)
next
  case None
  then have a: "addr_option e a = Some act" using act by (simp add: value_option_def)
  have n: "c_str (strncpy v MAX_IFNAME_LENGTH) = Some v"
    using v c_str_strncpy by (simp add: arg_ok_def)
  have name: "cmd_ok xs (s\<lparr>lan := strncpy v MAX_IFNAME_LENGTH\<rparr>)"
    "cmd_ok xs (s\<lparr>wan := strncpy v MAX_IFNAME_LENGTH\<rparr>)"
    using cmd_ok_fields(8,9) [OF s] n by simp_all
  then have ip: "ifaces_ok xs (s\<lparr>lan := strncpy v MAX_IFNAME_LENGTH\<rparr>)"
    "ifaces_ok xs (s\<lparr>wan := strncpy v MAX_IFNAME_LENGTH\<rparr>)"
    by (simp_all add: cmd_ok_def)
  note iface = name [THEN cmd_ok_fields(1)] name [THEN cmd_ok_fields(2)] ifaces_ok_ip [OF ip(1)]
    ifaces_ok_ip [OF ip(2)]
  show ?thesis
    using a unfolding addr_option_def
    by (auto simp: wp_simps default_lan_ip_def default_wan_ip_def n iface split: if_splits
        intro!: wp_store_addr cmd_ok_fields s)
qed

lemma wp_args_loop:
  assumes "\<forall>a \<in> set args. arg_ok a" and "cmd_ok xs s"
  shows "wp_exit (args_loop e args) (\<lambda>_ t. cmd_ok xs t) s"
  using assms
proof (induction e args arbitrary: s rule: args_loop.induct)
  case (1 e)
  then show ?case by (simp add: wp_simps)
next
  case (2 e a args)
  show ?case
  proof (cases "strcaseeq a ''-h''")
    case True
    then show ?thesis by (simp add: wp_simps)
  next
    case h: False
    show ?thesis
    proof (cases "flag_option a")
      case (Some f)
      then show ?thesis
        using "2.IH"(2) [OF h Some, of "f s"] "2.prems" h by (simp add: wp_bindM wp_basic(5) cmd_ok_flag)
    next
      case f: None
      show ?thesis
      proof (cases "value_option e a")
        case None
        then show ?thesis using h f "2.prems"(2) by (simp add: wp_basic(1))
      next
        case act: (Some act)
        show ?thesis
        proof (cases args)
          case Nil
          then show ?thesis using h f act "2.prems"(2) by (simp add: wp_basic(1))
        next
          case (Cons v rest)
          have "wp_exit (bindM (act v) (\<lambda>r. if r < 0 then returnM r else args_loop e rest))
              (\<lambda>_ t. cmd_ok xs t) s"
          proof (rule wp_bindI [OF wp_value_option [OF act _ "2.prems"(2)]])
            show "arg_ok v" using "2.prems"(1) Cons by simp
            fix r :: int and t
            assume t: "cmd_ok xs t"
            show "wp_exit (if r < 0 then returnM r else args_loop e rest) (\<lambda>_ t. cmd_ok xs t) t"
              using "2.IH"(1) [OF h f act Cons, of r t] "2.prems"(1) Cons t by (simp add: wp_if wp_basic(1))
          qed
          then show ?thesis using h f act Cons by simp
        qed
      qed
    qed
  qed
qed

text \<open>The defaults, given a routing table that can be read.\<close>

lemma wp_ctx_defaults:
  assumes t: "tables s [] []" and i: "ifaces_ok xs s"
    and l: "length (lan s) = MAX_IFNAME_LENGTH" "length (wan s) = MAX_IFNAME_LENGTH"
    and r: "\<forall>h f. e_route e h = Some f \<longrightarrow> route_scan e 0 f \<noteq> None"
  shows "wp_exit (ctx_defaults e) (\<lambda>_ t. cmd_ok xs t) s"
proof -
  obtain x where x: "sprintf_str PORTPROXY_DEFAULT_LAN_IFACE (lan s) = Some x"
      "c_str x = Some PORTPROXY_DEFAULT_LAN_IFACE"
    using l(1) by (simp add: sprintf_str_def MAX_IFNAME_LENGTH_def PORTPROXY_DEFAULT_LAN_IFACE_def c_str_def)
  obtain y where y: "sprintf_str PORTPROXY_DEFAULT_WAN_IFACE (wan s) = Some y"
      "c_str y = Some PORTPROXY_DEFAULT_WAN_IFACE"
    using l(2) by (simp add: sprintf_str_def MAX_IFNAME_LENGTH_def PORTPROXY_DEFAULT_WAN_IFACE_def c_str_def)
  have rt: "default_router_ip e u \<noteq> None" for u
    using r by (auto simp: default_router_ip_def split: option.splits)
  have fit: "port_char_fits PORTPROXY_NATPMP_UDP_PORT" "port_char_fits PORTPROXY_UPNP_UDP_PORT"
    "port_char_fits PORTPROXY_UPNP_TCP_PORT1" "port_char_fits PORTPROXY_UPNP_TCP_PORT2"
    by (simp_all add: port_char_fits_def PORTPROXY_NATPMP_UDP_PORT_def PORTPROXY_UPNP_UDP_PORT_def
        PORTPROXY_UPNP_TCP_PORT1_def PORTPROXY_UPNP_TCP_PORT2_def)
  let ?u = "s\<lparr>lan := x, wan := y\<rparr>"
  let ?a = "addr_of_name PORTPROXY_DEFAULT_LAN_IFACE xs" and ?b = "addr_of_name PORTPROXY_DEFAULT_WAN_IFACE xs"
  have ok: "ifaces_ok xs ?u" "ifaces_ok xs (?u\<lparr>lanIP := ?a\<rparr>)"
    using i by (simp_all add: ifaces_ok_def)
  have ip: "default_lan_ip ?u = Some ?a" "default_wan_ip (?u\<lparr>lanIP := ?a\<rparr>) = Some ?b"
    using ifaces_ok_ip [OF ok(1) x(2)] ifaces_ok_ip [OF ok(2) y(2)]
    by (simp_all add: default_lan_ip_def default_wan_ip_def)
  obtain c where c: "default_router_ip e (?u\<lparr>lanIP := ?a, wanIP := ?b\<rparr>) = Some c" using rt by blast
  have fin: "cmd_ok xs v" if "core_kept s v" "lan v = x" "wan v = y" "ports_fit v" for v
    using that x(2) y(2) t i core_keptD [OF that(1)] by (simp add: cmd_ok_def)
  show ?thesis
    by (simp add: ctx_defaults_def wp_simps x(1) y(1) ip c)
       (rule fin; simp add: core_kept_def ports_fit_def fit)
qed

text \<open>The whole parsing, with its report.\<close>

lemma wp_cmd_line:
  assumes "tables s [] []" and "ifaces_ok xs s"
    and "length (lan s) = MAX_IFNAME_LENGTH" "length (wan s) = MAX_IFNAME_LENGTH"
    and "\<forall>h f. e_route e h = Some f \<longrightarrow> route_scan e 0 f \<noteq> None"
    and args: "\<forall>a \<in> set args. arg_ok a"
  shows "wp_exit (cmd_line_parse e args) (\<lambda>r t. r < 0 \<or> cmd_ok xs t) s"
  unfolding cmd_line_parse_def
proof (rule wp_bindI [OF wp_ctx_defaults [OF assms(1-5)]])
  fix t
  assume t: "cmd_ok xs t"
  have report: "parse_report be u \<noteq> None" if "cmd_ok xs u" for be u
    using that parse_report_defined [of u "[]" "[]" xs be]
    by (auto simp: cmd_ok_def ifaces_ok_def names_printable_def)
  have fin: "wp_exit (thenM (modifyM (\<lambda>s. LogLevel (loglevel s) s))
          (thenM (readM (parse_report (big_endian e)))
          (bindM (getM daemon) (\<lambda>d.
           thenM (if d \<noteq> 0 then thenM (sys e Sys_daemon) (returnM ()) else returnM ())
           (returnM 0))))) (\<lambda>r t. r < 0 \<or> cmd_ok xs t) u" if "cmd_ok xs u" for u
    using report [OF cmd_ok_fields(6) [OF that]] cmd_ok_fields(6) [OF that]
      cmd_ok_fields(7) [OF cmd_ok_fields(6) [OF that]]
    by (simp add: wp_simps)
  show "wp_exit (if args = [] then exitM 0
      else bindM (args_loop e args) (\<lambda>r.
        if r < 0 then returnM r
        else thenM (modifyM (\<lambda>s. LogLevel (loglevel s) s))
          (thenM (readM (parse_report (big_endian e)))
          (bindM (getM daemon) (\<lambda>d.
           thenM (if d \<noteq> 0 then thenM (sys e Sys_daemon) (returnM ()) else returnM ())
           (returnM 0)))))) (\<lambda>r t. r < 0 \<or> cmd_ok xs t) t"
  proof (cases "args = []")
    case True
    then show ?thesis by (simp add: wp_basic(2))
  next
    case False
    show ?thesis
      unfolding if_not_P [OF False]
    proof (rule wp_bindI [OF wp_args_loop [OF args t]])
      fix r :: int and u
      assume u: "cmd_ok xs u"
      show "wp_exit (if r < 0 then returnM r
        else thenM (modifyM (\<lambda>s. LogLevel (loglevel s) s))
          (thenM (readM (parse_report (big_endian e)))
          (bindM (getM daemon) (\<lambda>d.
           thenM (if d \<noteq> 0 then thenM (sys e Sys_daemon) (returnM ()) else returnM ())
           (returnM 0))))) (\<lambda>r t. r < 0 \<or> cmd_ok xs t) u"
      proof (cases "r < 0")
        case True
        then show ?thesis by (simp add: wp_basic(1))
      next
        case False
        then show ?thesis using fin [OF u] by (simp only: if_False)
      qed
    qed
  qed
qed

text \<open>The sockets can be bound for what the parsing leaves.\<close>

lemma cmd_ok_bind:
  assumes "cmd_ok xs s" and "\<forall>n t. NUL \<notin> set n \<longrightarrow> iface_ip6_get e n t \<noteq> None"
  shows "state_ok s" and "bind_ok e s" and "chain_at if_next (iheap s) (ifaces s) xs"
    and "iheap s |` (- fst ` set xs) = Map.empty"
proof -
  show "state_ok s" using assms(1) by (auto simp: cmd_ok_def intro: state_okI)
  show "bind_ok e s" using assms by (auto simp: cmd_ok_def ports_fit_def bind_ok_def)
  show "chain_at if_next (iheap s) (ifaces s) xs" using assms(1) by (simp add: cmd_ok_def ifaces_ok_def)
  have "dom (iheap s) = fst ` set xs" using assms(1) by (simp add: cmd_ok_def ifaces_ok_def)
  then show "iheap s |` (- fst ` set xs) = Map.empty"
    by (auto simp: restrict_map_def fun_eq_iff domIff)
qed

text \<open>\<open>main\<close> once the command line is read.\<close>

lemma wp_main_checked:
  assumes s: "cmd_ok xs s" and e: "fds_bounded e" and "\<forall>h. n \<le> length h \<longrightarrow> e_signal e h"
    and ip6: "\<forall>n t. NUL \<notin> set n \<longrightarrow> iface_ip6_get e n t \<noteq> None"
  shows "wp_exit (main_checked e)
    (\<lambda>r t. r = -1 \<and> (sanity_check s = 0 \<or> persistent s = 0) \<or>
       r = 0 \<and> Shutdown t \<noteq> 0 \<and> sockets t = 0 \<and> iheap t = Map.empty) s"
proof -
  note ok = cmd_ok_bind [OF s ip6]
  obtain out t where t: "main_serve e s = Some (out, t)"
    "\<forall>r. out = Ret r \<longrightarrow> r = -1 \<and> persistent s = 0 \<or>
       r = 0 \<and> Shutdown t \<noteq> 0 \<and> sockets t = 0 \<and> iheap t = Map.empty"
    using main_serve_ends [OF ok(1) e ok(2) assms(3) ok(3)] unfolding ok(4) by blast
  then show ?thesis
    by (cases out) (auto simp: wpx_def main_checked_def run_simps)
qed

section \<open>Properties\<close>

text \<open>
  The start the program refuses: the command line is rejected, no protocol is enabled, or it is not
  persistent.
\<close>

definition refused :: "env \<Rightarrow> string list \<Rightarrow> state \<Rightarrow> bool" where
  "refused e args s \<longleftrightarrow>
     (\<exists>p t k u. if_list_get e (ctx_create (framework_init e s)) = Some (Ret p, t) \<and>
        cmd_line_parse e args (t\<lparr>ifaces := p\<rparr>) = Some (Ret k, u) \<and>
        (k < 0 \<or> sanity_check u = 0 \<or> persistent u = 0))"

text \<open>
  C6: the whole program ends. It starts with nothing allocated, on a kernel that lets it
  open netlink sockets and answers its dumps with well-formed messages, with at most one IPv4 address
  for an interface, and that prints the routing table, where there is one, in its usual form (a \<open>long\<close> has 32 bits or more, as C demands); the memory
  \<open>malloc\<close> returns is cleared (otherwise releasing the list of interfaces is undefined); the arguments
  are strings shorter than an interface name whose numbers have at most five characters. Then \<open>main\<close> has
  a defined result once a termination signal arrives, whatever the arguments say. When it returns, it is
  0, with the signal seen, the list of sockets empty and every node of the list of interfaces freed; or
  -1, which a persistent program only returns when it refuses its command line.
\<close>

theorem program_ends:
  assumes "program_start s" and "fds_bounded e" and "\<forall>h. n \<le> length h \<longrightarrow> e_signal e h"
    and "describes_links e" and "prints_routes e" and "32 \<le> long_bits e" and "\<forall>h. e_heap e h = 0"
    and "\<forall>a \<in> set args. arg_ok a"
  shows "\<exists>out t. main_prog e args s = Some (out, t) \<and>
    (\<forall>r. out = Ret r \<longrightarrow>
       r = 0 \<and> Shutdown t \<noteq> 0 \<and> sockets t = 0 \<and> iheap t = Map.empty \<or>
       r = -1 \<and> refused e args s)"
proof -
  let ?s = "ctx_create (framework_init e s)"
  have ip6: "\<forall>n t. NUL \<notin> set n \<longrightarrow> iface_ip6_get e n t \<noteq> None"
    using described_ip6 [OF assms(4)] by blast
  let ?fin = "\<lambda>t. Shutdown t \<noteq> 0 \<and> sockets t = 0 \<and> iheap t = Map.empty"
  have s: "tables ?s [] []" "iheap ?s = Map.empty" "0 < brk ?s"
    "length (lan ?s) = MAX_IFNAME_LENGTH" "length (wan ?s) = MAX_IFNAME_LENGTH"
    using assms(1) by (simp_all add: program_start_def ctx_create_def framework_init_def tables_def heap_ok_def)
  obtain p t xs where t: "if_list_get e ?s = Some (Ret p, t)" "tables_kept ?s t" "ifaces_ok xs (t\<lparr>ifaces := p\<rparr>)"
    by (rule if_list_get_start [OF assms(4,7) s(2,3)])
  let ?t = "t\<lparr>ifaces := p\<rparr>"
  have "tables ?t [] []" by (rule tables_empty_kept [OF s(1)]) (use t(2) in \<open>simp add: tables_kept_def\<close>)
  then have parse: "wp_exit (cmd_line_parse e args) (\<lambda>r u. r < 0 \<or> cmd_ok xs u) ?t"
    using t(2) s(4,5) by (intro wp_cmd_line t(3) prints_routes_scan [OF assms(5,6)] assms(8)) (simp_all add: tables_kept_def)
  then obtain o1 u where u: "cmd_line_parse e args ?t = Some (o1, u)"
    by (auto dest: wp_defined)
  show ?thesis
  proof (cases o1)
    case (Exit c)
    then show ?thesis using t(1) u by (simp add: main_prog_def run_simps)
  next
    case (Ret k)
    note run = t(1) u [unfolded Ret]
    show ?thesis
    proof (cases "k < 0")
      case True
      then show ?thesis
        using run by (auto simp: main_prog_def run_simps refused_def)
    next
      case False
      then have "cmd_ok xs u" using wpD [OF parse] run(2) by auto
      from wp_main_checked [OF this assms(2,3) ip6] obtain out v where
        "main_checked e u = Some (out, v)"
        "\<forall>r. out = Ret r \<longrightarrow> r = -1 \<and> (sanity_check u = 0 \<or> persistent u = 0) \<or> r = 0 \<and> ?fin v"
        by (auto simp: wpx_def split: option.splits outcome.splits prod.splits)
      then show ?thesis
        using run False by (auto simp: main_prog_def run_simps refused_def)
    qed
  qed
qed

text \<open>The sample machine, its program just started. With \<open>--persistent\<close> it refuses nothing.\<close>

definition sample_start :: state where
  "sample_start = sample0\<lparr>mheap := Map.empty, sheap := Map.empty, pheap := Map.empty\<rparr>"

lemma persistent_not_refused: "\<not> refused e [''--persistent''] s"
proof -
  have flag: "flag_option ''--persistent'' = Some (\<lambda>s. s\<lparr>persistent := 1\<rparr>)" "\<not> strcaseeq ''--persistent'' ''-h''"
    unfolding flag_option_def strcaseeq_def lower_names by simp_all
  have parsed: "k = 0 \<and> persistent u = 1 \<and> enable_nat_pmp_ext u = 1"
    if run: "cmd_line_parse e [''--persistent''] v = Some (Ret k, u)" for k u v
  proof -
    obtain w where w: "ctx_defaults e v = Some (Ret (), w)"
      using run ctx_defaults_result(1)
      by (cases "ctx_defaults e v") (auto simp: cmd_line_parse_def bindM_def)
    then have "enable_nat_pmp_ext w = 1"
      by (auto simp: ctx_defaults_def run_simps split: option.splits)
    then show ?thesis
      using run w by (auto simp: cmd_line_parse_def run_simps flag LogLevel_def split: option.splits if_splits)
  qed
  show ?thesis unfolding refused_def sanity_check_def by (auto dest!: parsed)
qed

theorem program_ends_witness:
  "\<exists>out t. main_prog kernel_env [''--persistent''] sample_start = Some (out, t) \<and>
    (\<forall>r. out = Ret r \<longrightarrow> r = 0 \<and> Shutdown t \<noteq> 0 \<and> sockets t = 0 \<and> iheap t = Map.empty)"
proof -
  have s: "program_start sample_start"
    by (simp add: program_start_def sample_start_def sample_state_def)
  have e: "fds_bounded kernel_env" using sample_fds_bounded by (simp add: fds_bounded_def)
  have sig: "\<forall>h. 4 \<le> length h \<longrightarrow> e_signal kernel_env h" by simp
  have mem: "32 \<le> long_bits kernel_env" "\<forall>h. e_heap kernel_env h = 0" by simp_all
  have "atoi ''--persistent'' = Some 0" by code_simp
  then have args: "\<forall>a \<in> set [''--persistent'']. arg_ok a"
    by (simp add: arg_ok_def MAX_IFNAME_LENGTH_def port_char_fits_def)
  from program_ends [OF s e sig kernel_describes kernel_routes mem args] show ?thesis
    using persistent_not_refused by blast
qed

end
