(* ===== verification/Talk.thy ===== *)
theory Talk
  imports Links
begin

text \<open>
  The exchanges of \<^verbatim>\<open>src/libnetlink.c\<close> besides dumps: \<open>rtnl_talk\<close>, which sends a request and waits
  for its answer, \<open>rtnl_listen\<close>, which hands every message received to a handler, and
  \<open>rtnl_from_file\<close>, which reads messages stored in a file. A handler takes the sender's \<open>nl_pid\<close>, the
  memory from the message on and its argument. \<open>None\<close> is an access outside a buffer or a loop that
  never ends.
\<close>

section \<open>Messages in a buffer\<close>

text \<open>New bytes at the start of a buffer, what was behind them left as it was.\<close>

definition overlay :: "byte list \<Rightarrow> byte list \<Rightarrow> byte list" where
  "overlay xs buf = xs @ drop (length xs) buf"

text \<open>
  The head of the loops of \<open>rtnl_talk\<close> and \<open>rtnl_listen\<close>. The condition compares an \<open>int\<close> with a
  \<open>size_t\<close>, so it also holds of a negative status. The lengths are \<open>int\<close>s. A bad length ends the
  function with -1 after \<open>MSG_TRUNC\<close> and the process otherwise.
\<close>

definition more_msgs :: "int \<Rightarrow> bool" where
  "more_msgs status \<longleftrightarrow> status < 0 \<or> 16 \<le> status"

definition next_msg ::
  "bool \<Rightarrow> byte list \<Rightarrow> nat \<Rightarrow> int \<Rightarrow> bool \<Rightarrow> (int outcome + nlmsghdr \<times> int \<times> int) option" where
  "next_msg be buf off status trunc =
     (case hdr_at be (drop off buf) of
        None \<Rightarrow> None
      | Some h \<Rightarrow>
          let len = sint (nlmsg_len h); l = sint (nlmsg_len h - 16)
          in if l < 0 \<or> len > status then Some (Inl (if trunc then Ret (-1) else Exit 1))
             else Some (Inr (h, len, l)))"

lemma next_msg_Inr:
  assumes "next_msg be buf off status trunc = Some (Inr (h, len, l))"
  shows "hdr_at be (drop off buf) = Some h" and "len = sint (nlmsg_len h)" and "l = sint (nlmsg_len h - 16)"
    and "0 \<le> l" and "len \<le> status" and "len \<noteq> 0"
proof -
  show "hdr_at be (drop off buf) = Some h" and len: "len = sint (nlmsg_len h)"
    and l: "l = sint (nlmsg_len h - 16)" "0 \<le> l" and "len \<le> status"
    using assms by (auto simp: next_msg_def Let_def split: option.splits if_splits)
  show "len \<noteq> 0"
  proof
    assume "len = 0"
    then have "nlmsg_len h = 0" using len signed_word_eqI [of "nlmsg_len h" 0] by simp
    then show False using l by simp
  qed
qed

lemma next_msg_pos:
  "next_msg be buf off status trunc = Some (Inr (h, len, l)) \<Longrightarrow> \<not> len < 0 \<Longrightarrow> 0 < len \<and> len \<le> status"
  using next_msg_Inr(5,6) by fastforce

section \<open>A request and its answer\<close>

text \<open>\<open>memcpy(answer, h, h->nlmsg_len)\<close> into the caller's object.\<close>

definition copy_answer :: "byte list \<Rightarrow> nat \<Rightarrow> u32 \<Rightarrow> byte list \<Rightarrow> byte list option" where
  "copy_answer buf off len answer =
     Option.bind (buf_bytes (drop off buf) (uint len)) (\<lambda>xs. write_at 0 xs answer)"

text \<open>
  The inner loop, on the datagram in \<open>buf\<close>: it ends the function (\<open>Inl\<close>, with the caller's answer), or
  leaves a remnant (\<open>Inr\<close>). A message of another exchange is handed to \<open>junk\<close> and then looked at
  again, without moving on.
\<close>

partial_function (option) talk_msgs ::
  "bool \<Rightarrow> rtnl_handle \<Rightarrow> u32 \<Rightarrow> u32 \<Rightarrow> (u32 \<Rightarrow> byte list \<Rightarrow> 'a \<Rightarrow> int \<times> 'a) option \<Rightarrow> byte list option \<Rightarrow>
   u32 \<Rightarrow> bool \<Rightarrow> byte list \<Rightarrow> nat \<Rightarrow> int \<Rightarrow> 'a \<Rightarrow> ((int outcome \<times> byte list option + int) \<times> 'a) option"
where
  "talk_msgs be rth peer seq junk answer sender trunc buf off status arg =
     (if \<not> more_msgs status then Some (Inr status, arg)
      else case next_msg be buf off status trunc of
             None \<Rightarrow> None
           | Some (Inl out) \<Rightarrow> Some (Inl (out, answer), arg)
           | Some (Inr (h, len, l)) \<Rightarrow>
               if sender \<noteq> peer \<or> nlmsg_pid h \<noteq> rth_pid rth \<or> nlmsg_seq h \<noteq> seq
               then (case junk of
                       None \<Rightarrow> talk_msgs be rth peer seq junk answer sender trunc buf off status arg
                     | Some j \<Rightarrow>
                         (case j sender (drop off buf) arg of
                            (err, arg') \<Rightarrow>
                              if err < 0 then Some (Inl (Ret err, answer), arg')
                              else talk_msgs be rth peer seq junk answer sender trunc buf off status arg'))
               else if nlmsg_type h = NLMSG_ERROR
               then if l < 20 then Some (Inl (Ret (-1), answer), arg)
                    else (case load32 be (drop (off + 16) buf) of
                            None \<Rightarrow> None
                          | Some error \<Rightarrow>
                              if error \<noteq> 0 then Some (Inl (Ret (-1), answer), arg)
                              else case answer of
                                     None \<Rightarrow> Some (Inl (Ret 0, None), arg)
                                   | Some a \<Rightarrow>
                                       map_option (\<lambda>a. (Inl (Ret 0, Some a), arg))
                                         (copy_answer buf off (nlmsg_len h) a))
               else case answer of
                      Some a \<Rightarrow>
                        map_option (\<lambda>a. (Inl (Ret 0, Some a), arg)) (copy_answer buf off (nlmsg_len h) a)
                    | None \<Rightarrow>
                        if len < 0 then None
                        else talk_msgs be rth peer seq junk answer sender trunc buf
                               (off + nat (NLMSG_ALIGN len)) (status - NLMSG_ALIGN len) arg)"

text \<open>The outer loop, one datagram a turn; \<open>buf\<close> keeps what earlier datagrams left in it.\<close>

partial_function (option) talk_loop ::
  "env \<Rightarrow> rtnl_handle \<Rightarrow> u32 \<Rightarrow> u32 \<Rightarrow> (u32 \<Rightarrow> byte list \<Rightarrow> 'a \<Rightarrow> int \<times> 'a) option \<Rightarrow> byte list option \<Rightarrow>
   byte list \<Rightarrow> 'a \<Rightarrow> state \<Rightarrow> ((int \<times> byte list option \<times> 'a) outcome \<times> state) option"
where
  "talk_loop e rth peer seq junk answer buf arg s =
     bindM (recvmsg e (rth_fd rth) 16384) (\<lambda>(status, m) t.
       if status < 0 then talk_loop e rth peer seq junk answer buf arg t
       else if status = 0 then returnM (-1, answer, arg) t
       else if r_namelen m \<noteq> 12 then exitM 1 t
       else (case talk_msgs (big_endian e) rth peer seq junk answer (r_nlpid m) (r_trunc m)
                    (overlay (r_bytes m) buf) 0 status arg of
               None \<Rightarrow> None
             | Some (Inl (Ret r, answer), arg) \<Rightarrow> returnM (r, answer, arg) t
             | Some (Inl (Exit c, answer), arg) \<Rightarrow> exitM c t
             | Some (Inr rest, arg) \<Rightarrow>
                 if r_trunc m
                 then talk_loop e rth peer seq junk answer (overlay (r_bytes m) buf) arg t
                 else if rest \<noteq> 0 then exitM 1 t
                 else talk_loop e rth peer seq junk answer (overlay (r_bytes m) buf) arg t)) s"

text \<open>
  \<open>rtnl_talk\<close> on the request \<open>n\<close> as its bytes: the sequence number is stored in it, and \<open>NLM_F_ACK\<close>
  (4) when no answer is wanted. The request afterwards is part of the result.
\<close>

definition stamp :: "bool \<Rightarrow> bool \<Rightarrow> u32 \<Rightarrow> byte list \<Rightarrow> byte list option" where
  "stamp be ack seq n =
     (case hdr_at be n of
        None \<Rightarrow> None
      | Some h \<Rightarrow> write_at 0
          (hdr_bytes be (h\<lparr>nlmsg_seq := seq, nlmsg_flags := (if ack then nlmsg_flags h OR 4 else nlmsg_flags h)\<rparr>))
          n)"

definition rtnl_talk ::
  "env \<Rightarrow> rtnl_handle \<Rightarrow> byte list \<Rightarrow> u32 \<Rightarrow> u32 \<Rightarrow> byte list option \<Rightarrow>
   (u32 \<Rightarrow> byte list \<Rightarrow> 'a \<Rightarrow> int \<times> 'a) option \<Rightarrow> 'a \<Rightarrow> (int \<times> rtnl_handle \<times> byte list \<times> byte list option \<times> 'a) M"
where
  "rtnl_talk e rth n peer groups answer junk arg =
     (let be = big_endian e; seq = rth_seq rth + 1; rth = rth\<lparr>rth_seq := seq\<rparr> in
      bindM (readM (\<lambda>_. stamp be (answer = None) seq n)) (\<lambda>n.
      bindM (readM (\<lambda>_. Option.bind (load32 be n) (\<lambda>l. buf_bytes n (uint l)))) (\<lambda>xs.
      bindM (sys e (Sys_sendto (rth_fd rth) xs (Sockaddr_nl peer groups))) (\<lambda>status.
      if status < 0 then returnM (-1, rth, n, answer, arg)
      else bindM (talk_loop e rth peer seq junk answer (replicate 16384 0) arg)
             (\<lambda>(r, answer, arg). returnM (r, rth, n, answer, arg))))))"

section \<open>Listening\<close>

function listen_msgs ::
  "bool \<Rightarrow> (u32 \<Rightarrow> byte list \<Rightarrow> 'a \<Rightarrow> int \<times> 'a) \<Rightarrow> u32 \<Rightarrow> bool \<Rightarrow> byte list \<Rightarrow> nat \<Rightarrow> int \<Rightarrow> 'a \<Rightarrow>
   ((int outcome + int) \<times> 'a) option"
where
  "listen_msgs be handler sender trunc buf off status arg =
     (if \<not> more_msgs status then Some (Inr status, arg)
      else case next_msg be buf off status trunc of
             None \<Rightarrow> None
           | Some (Inl out) \<Rightarrow> Some (Inl out, arg)
           | Some (Inr (h, len, l)) \<Rightarrow>
               (case handler sender (drop off buf) arg of
                  (err, arg) \<Rightarrow>
                    if err < 0 then Some (Inl (Ret err), arg)
                    else if len < 0 then None
                    else listen_msgs be handler sender trunc buf (off + nat (NLMSG_ALIGN len))
                           (status - NLMSG_ALIGN len) arg))"
  by pat_completeness auto
termination
  by (relation "measure (\<lambda>(be, handler, sender, trunc, buf, off, status, arg). nat status)")
     (auto dest!: next_msg_pos simp: NLMSG_ALIGN_def)

declare listen_msgs.simps [simp del]

partial_function (option) listen_loop ::
  "env \<Rightarrow> rtnl_handle \<Rightarrow> (u32 \<Rightarrow> byte list \<Rightarrow> 'a \<Rightarrow> int \<times> 'a) \<Rightarrow> byte list \<Rightarrow> 'a \<Rightarrow> state \<Rightarrow>
   ((int \<times> 'a) outcome \<times> state) option"
where
  "listen_loop e rth handler buf arg s =
     bindM (recvmsg e (rth_fd rth) 8192) (\<lambda>(status, m) t.
       if status < 0 then listen_loop e rth handler buf arg t
       else if status = 0 then returnM (-1, arg) t
       else if r_namelen m \<noteq> 12 then exitM 1 t
       else (case listen_msgs (big_endian e) handler (r_nlpid m) (r_trunc m)
                    (overlay (r_bytes m) buf) 0 status arg of
               None \<Rightarrow> None
             | Some (Inl (Ret r), arg) \<Rightarrow> returnM (r, arg) t
             | Some (Inl (Exit c), arg) \<Rightarrow> exitM c t
             | Some (Inr rest, arg) \<Rightarrow>
                 if r_trunc m then listen_loop e rth handler (overlay (r_bytes m) buf) arg t
                 else if rest \<noteq> 0 then exitM 1 t
                 else listen_loop e rth handler (overlay (r_bytes m) buf) arg t)) s"

text \<open>The buffer holds at first whatever is on the stack.\<close>

definition rtnl_listen ::
  "env \<Rightarrow> byte list \<Rightarrow> rtnl_handle \<Rightarrow> (u32 \<Rightarrow> byte list \<Rightarrow> 'a \<Rightarrow> int \<times> 'a) \<Rightarrow> 'a \<Rightarrow> (int \<times> 'a) M" where
  "rtnl_listen e stack rth handler arg = listen_loop e rth handler stack arg"

section \<open>Messages in a file\<close>

text \<open>
  The file is the bytes it has left; \<open>fread\<close> takes what is there of the number asked for. The header
  is read over the start of the buffer, the data behind it.
\<close>

function rtnl_from_file ::
  "bool \<Rightarrow> (u32 \<Rightarrow> byte list \<Rightarrow> 'a \<Rightarrow> int \<times> 'a) \<Rightarrow> byte list \<Rightarrow> byte list \<Rightarrow> 'a \<Rightarrow> (int \<times> 'a) option"
where
  "rtnl_from_file be handler buf file arg =
     (if file = [] then Some (0, arg)
      else let buf = overlay (take 16 file) buf; file = drop 16 file in
        case hdr_at be buf of
          None \<Rightarrow> None
        | Some h \<Rightarrow>
            let len = sint (nlmsg_len h); l = sint (nlmsg_len h - 16) in
            if l < 0 \<or> len < 0 \<or> len > 8192 then Some (-1, arg)
            else let xs = take (nat (NLMSG_ALIGN l)) file; file = drop (nat (NLMSG_ALIGN l)) file in
              if int (length xs) < l then Some (-1, arg)
              else case write_at 16 xs buf of
                     None \<Rightarrow> None
                   | Some buf \<Rightarrow>
                       (case handler 0 buf arg of
                          (err, arg) \<Rightarrow>
                            if err < 0 then Some (err, arg)
                            else rtnl_from_file be handler buf file arg))"
  by pat_completeness auto
termination
  by (relation "measure (\<lambda>(be, handler, buf, file, arg). length file)") (auto simp: neq_Nil_conv)

declare rtnl_from_file.simps [simp del]

section \<open>The first message of an answer\<close>

lemma sint_small:
  assumes "16 \<le> uint w" and "uint w \<le> 16384"
  shows "sint (w :: u32) = uint w" and "sint (w - 16) = uint w - 16"
proof -
  have "uint (w - 16) = uint w - 16" using assms(1) by (subst uint_minus_simple_alt [THEN iffD1]) (simp_all add: word_le_def)
  then show "sint w = uint w" and "sint (w - 16) = uint w - 16"
    using assms by (simp_all add: sint_uint signed_take_bit_int_eq_self)
qed

lemma next_msg_first:
  assumes "hdr_at be d = Some h" and "16 \<le> uint (nlmsg_len h)" and "uint (nlmsg_len h) \<le> int (length d)"
    and "length d \<le> 16384"
  shows "next_msg be (overlay d buf) 0 (int (length d)) trunc =
    Some (Inr (h, uint (nlmsg_len h), uint (nlmsg_len h) - 16))"
  using assms sint_small [of "nlmsg_len h"] hdr_at_append [OF assms(1)]
  by (simp add: next_msg_def overlay_def Let_def)

text \<open>A message of another exchange and no \<open>junk\<close> function: the loop stays at it.\<close>

lemma talk_msgs_stuck:
  fixes arg :: 'a
  assumes "next_msg be buf off status trunc = Some (Inr (h, len, l))" and "more_msgs status"
    and "sender \<noteq> peer \<or> nlmsg_pid h \<noteq> rth_pid rth \<or> nlmsg_seq h \<noteq> seq"
  shows "talk_msgs be rth peer seq None answer sender trunc buf off status arg = None"
proof (rule ccontr)
  assume "talk_msgs be rth peer seq None answer sender trunc buf off status arg \<noteq> None"
  then obtain r where r: "talk_msgs be rth peer seq None answer sender trunc buf off status arg = Some r"
    by blast
  let ?P = "\<lambda>be rth peer seq (junk :: (u32 \<Rightarrow> byte list \<Rightarrow> 'a \<Rightarrow> int \<times> 'a) option) answer sender trunc buf off status
      (arg :: 'a) (r :: (int outcome \<times> byte list option + int) \<times> 'a).
    \<forall>h len l. junk = None \<and> next_msg be buf off status trunc = Some (Inr (h, len, l)) \<and> more_msgs status \<longrightarrow>
      sender = peer \<and> nlmsg_pid h = rth_pid rth \<and> nlmsg_seq h = seq"
  have "?P be rth peer seq None answer sender trunc buf off status arg r"
    by (rule talk_msgs.raw_induct [OF _ r, of ?P]) (auto split: if_splits)
  then show False using assms by blast
qed

text \<open>
  What the first message of a datagram \<open>d\<close> does to an exchange that wants an answer and has no
  \<open>junk\<close> function: \<open>None\<close> never to return, otherwise the result and the caller's answer.
\<close>

definition first_answer ::
  "bool \<Rightarrow> rtnl_handle \<Rightarrow> u32 \<Rightarrow> u32 \<Rightarrow> u32 \<Rightarrow> byte list \<Rightarrow> nlmsghdr \<Rightarrow> byte list \<Rightarrow> (int \<times> byte list) option"
where
  "first_answer be rth peer seq sender d h a =
     (let len = unat (nlmsg_len h) in
      if sender \<noteq> peer \<or> nlmsg_pid h \<noteq> rth_pid rth \<or> nlmsg_seq h \<noteq> seq then None
      else if nlmsg_type h = NLMSG_ERROR \<and> (len < 36 \<or> load32 be (drop 16 d) \<noteq> Some 0) then Some (-1, a)
      else Some (0, take len d @ drop len a))"

lemma copy_answer_first:
  assumes "unat len \<le> length d" and "unat len \<le> length a"
  shows "copy_answer (overlay d buf) 0 len a = Some (take (unat len) d @ drop (unat len) a)"
proof -
  have "uint len = int (unat len)" by simp
  then have "uint len \<le> int (length d) + int (length buf - length d)" using assms(1) by linarith
  then show ?thesis
    using assms by (simp add: copy_answer_def buf_bytes_def overlay_def write_at_def)
qed

lemma talk_msgs_first:
  assumes h: "hdr_at be d = Some h" and len: "16 \<le> unat (nlmsg_len h)" "unat (nlmsg_len h) \<le> length d"
    and d: "length d \<le> 16384" and a: "unat (nlmsg_len h) \<le> length a"
  shows "talk_msgs be rth peer seq None (Some a) sender trunc (overlay d buf) 0 (int (length d)) arg =
    map_option (\<lambda>(r, a). (Inl (Ret r, Some a), arg)) (first_answer be rth peer seq sender d h a)"
proof -
  have u: "uint (nlmsg_len h) = int (unat (nlmsg_len h))" by simp
  have nx: "next_msg be (overlay d buf) 0 (int (length d)) trunc =
      Some (Inr (h, uint (nlmsg_len h), uint (nlmsg_len h) - 16))"
    using len d u by (intro next_msg_first [OF h]) linarith+
  have more: "more_msgs (int (length d))" using len by (simp add: more_msgs_def)
  show ?thesis
  proof (cases "sender \<noteq> peer \<or> nlmsg_pid h \<noteq> rth_pid rth \<or> nlmsg_seq h \<noteq> seq")
    case True
    then show ?thesis using talk_msgs_stuck [OF nx more] by (simp add: first_answer_def Let_def)
  next
    case False
    have copy: "copy_answer (overlay d buf) 0 (nlmsg_len h) a =
        Some (take (unat (nlmsg_len h)) d @ drop (unat (nlmsg_len h)) a)"
      using len a by (intro copy_answer_first)
    have short: "uint (nlmsg_len h) - 16 < 20 \<longleftrightarrow> unat (nlmsg_len h) < 36" using u by linarith
    have code: "\<exists>x. load32 be (drop 16 d) = Some x \<and> load32 be (drop 16 (overlay d buf)) = Some x"
      if big: "\<not> unat (nlmsg_len h) < 36"
    proof -
      have "4 \<le> length (drop 16 d)" using big len(2) unfolding length_drop by linarith
      then obtain x where x: "load32 be (drop 16 d) = Some x" using load32_defined by blast
      then show ?thesis
        using load_append(2) [OF x, of "drop (length d) buf"] big len by (simp add: overlay_def)
    qed
    show ?thesis
      using False nx more copy short code
      by (subst talk_msgs.simps) (auto simp: first_answer_def Let_def)
  qed
qed

text \<open>The kernel answers the next read of a descriptor with the datagram \<open>d\<close>.\<close>

definition answered :: "env \<Rightarrow> int \<Rightarrow> event list \<Rightarrow> byte list \<Rightarrow> bool" where
  "answered e fd h d \<longleftrightarrow> e_ret e h (Sys_recvmsg fd 16384) \<noteq> -1 \<and> r_bytes (e_recv e h fd) = d \<and>
     length d \<le> 16384 \<and> r_namelen (e_recv e h fd) = 12"

lemma talk_loop_first:
  assumes "answered e (rth_fd rth) (hist s) d" and "hdr_at (big_endian e) d = Some h"
    and "16 \<le> unat (nlmsg_len h)" and "unat (nlmsg_len h) \<le> length d" and "unat (nlmsg_len h) \<le> length a"
  shows "talk_loop e rth peer seq None (Some a) buf arg s =
    map_option (\<lambda>(r, a). (Ret (r, Some a, arg),
        s\<lparr>hist := (Sys_recvmsg (rth_fd rth) 16384, int (length d)) # hist s\<rparr>))
      (first_answer (big_endian e) rth peer seq (r_nlpid (e_recv e (hist s) (rth_fd rth))) d h a)"
proof -
  have r: "recvmsg e (rth_fd rth) 16384 s = Some (Ret (int (length d), e_recv e (hist s) (rth_fd rth)),
      s\<lparr>hist := (Sys_recvmsg (rth_fd rth) 16384, int (length d)) # hist s\<rparr>)"
    using assms(1) by (auto simp: recvmsg_run recv_ret_def answered_def)
  have d: "r_bytes (e_recv e (hist s) (rth_fd rth)) = d" "length d \<le> 16384"
    "r_namelen (e_recv e (hist s) (rth_fd rth)) = 12" "d \<noteq> []"
    using assms(1,3,4) by (auto simp: answered_def)
  show ?thesis
    using d(2,4)
    by (subst talk_loop.simps, cases "first_answer (big_endian e) rth peer seq
          (r_nlpid (e_recv e (hist s) (rth_fd rth))) d h a")
       (auto simp: run_simps r d(1,3) talk_msgs_first [OF assms(2-4) d(2) assms(5)])
qed

section \<open>Messages of a file\<close>

definition file_msg :: "bool \<Rightarrow> byte list \<Rightarrow> bool" where
  "file_msg be n \<longleftrightarrow> 16 \<le> length n \<and> length n \<le> 8192 \<and>
     (case hdr_at be n of None \<Rightarrow> False | Some h \<Rightarrow> unat (nlmsg_len h) = length n)"

lemma load_take:
  "2 \<le> n \<Longrightarrow> load16 be (take n xs) = load16 be xs"
  "4 \<le> m \<Longrightarrow> load32 be (take m xs) = load32 be xs"
proof -
  show "2 \<le> n \<Longrightarrow> load16 be (take n xs) = load16 be xs"
    by (cases xs; cases "tl xs") (auto simp: take_Cons split: nat.split)
  show "4 \<le> m \<Longrightarrow> load32 be (take m xs) = load32 be xs"
    by (cases xs; cases "tl xs"; cases "tl (tl xs)"; cases "tl (tl (tl xs))")
       (auto simp: take_Cons split: nat.split)
qed

lemma hdr_at_take: "hdr_at be (take 16 xs) = hdr_at be xs"
  by (simp add: hdr_at_def drop_take load_take)

lemma padded_align: "length (padded n) = nat (NLMSG_ALIGN (int (length n)))"
  by (simp add: align_padded)

lemma file_step:
  assumes n: "file_msg be n" and buf: "length buf = 8192"
  obtains mem where "length (n @ mem) = 8192"
    "rtnl_from_file be handler buf (padded n @ file) arg =
      (case handler 0 (n @ mem) arg of
         (err, arg) \<Rightarrow> if err < 0 then Some (err, arg) else rtnl_from_file be handler (n @ mem) file arg)"
proof -
  obtain h where h: "hdr_at be n = Some h" "unat (nlmsg_len h) = length n"
    and len: "16 \<le> length n" "length n \<le> 8192"
    using n by (auto simp: file_msg_def split: option.splits)
  let ?pad = "replicate ((4 - length n mod 4) mod 4) 0 :: byte list"
  let ?buf = "take 16 n @ drop 16 buf"
  let ?mem = "?pad @ drop (length (padded n)) buf"
  have u: "uint (nlmsg_len h) = int (length n)" using h(2) by (metis uint_nat)
  have sz: "sint (nlmsg_len h) = int (length n)" "sint (nlmsg_len h - 16) = int (length n) - 16"
    using sint_small [of "nlmsg_len h"] u len by simp_all
  have pad: "padded n = n @ ?pad" by (simp add: padded_def)
  have "NLMSG_ALIGN (int (length n) - 16) = NLMSG_ALIGN (int (length n)) - 16"
    unfolding NLMSG_ALIGN_def by presburger
  then have l: "nat (NLMSG_ALIGN (int (length n) - 16)) = length (padded n) - 16"
    by (simp add: align_padded)
  have "x \<le> (x + 3) div 4 * 4 \<and> (x \<le> 8192 \<longrightarrow> (x + 3) div 4 * 4 \<le> 8192)" for x :: int
    by presburger
  from this [of "int (length n)"]
  have fit: "length n \<le> length (padded n)" "length (padded n) \<le> 8192"
    using len(2) align_padded [of n] unfolding NLMSG_ALIGN_def by linarith+
  have xs: "take (length (padded n) - 16) (drop 16 (padded n @ file)) = drop 16 (padded n)"
    "drop (length (padded n) - 16) (drop 16 (padded n @ file)) = file"
    using fit(1) len(1) by simp_all
  have hd: "hdr_at be ?buf = Some h"
    using h(1) hdr_at_take [of be n] by (intro hdr_at_append) simp
  have b: "overlay (take 16 (padded n @ file)) buf = ?buf"
    using len by (simp add: overlay_def pad)
  have w: "write_at 16 (drop 16 (padded n)) ?buf = Some (n @ ?mem)"
    using len buf fit by (simp add: write_at_def pad)
  have long: "\<not> int (length (drop 16 (padded n))) < int (length n) - 16" using fit(1) len(1) by simp
  have ne: "padded n @ file \<noteq> []" using pad len by auto
  have "rtnl_from_file be handler buf (padded n @ file) arg =
      (case handler 0 (n @ ?mem) arg of
         (err, arg) \<Rightarrow> if err < 0 then Some (err, arg) else rtnl_from_file be handler (n @ ?mem) file arg)"
    using len long w
    by (subst rtnl_from_file.simps) (simp only: ne if_False b hd sz l xs Let_def option.case, simp)
  moreover have "length (n @ ?mem) = 8192" using fit buf by (simp add: padded_def)
  ultimately show thesis using that by blast
qed

section \<open>Properties\<close>

text \<open>
  C39: what \<open>rtnl_talk\<close> does when it is given room for an answer and no \<open>junk\<close>
  function depends on the first message of the first datagram alone. A message of another sender,
  process or sequence number makes it loop for ever: it is looked at again and again. An error message
  with a code, or a short one, gives -1; everything else, an acknowledgement too, is copied into the
  answer and gives 0.
\<close>

theorem talk_first_answer:
  assumes "stamp (big_endian e) False (rth_seq rth + 1) n = Some n'"
    and "Option.bind (load32 (big_endian e) n') (\<lambda>l. buf_bytes n' (uint l)) = Some xs"
    and "c = Sys_sendto (rth_fd rth) xs (Sockaddr_nl peer groups)" and "0 \<le> e_ret e (hist s) c"
    and "k = (c, e_ret e (hist s) c) # hist s" and "answered e (rth_fd rth) k d"
    and "hdr_at (big_endian e) d = Some h" and "16 \<le> unat (nlmsg_len h)"
    and "unat (nlmsg_len h) \<le> length d" and "unat (nlmsg_len h) \<le> length a"
  shows "rtnl_talk e rth n peer groups (Some a) None arg s =
    (if r_nlpid (e_recv e k (rth_fd rth)) \<noteq> peer \<or> nlmsg_pid h \<noteq> rth_pid rth \<or> nlmsg_seq h \<noteq> rth_seq rth + 1
     then None
     else let failed = nlmsg_type h = NLMSG_ERROR \<and>
                (unat (nlmsg_len h) < 36 \<or> load32 (big_endian e) (drop 16 d) \<noteq> Some 0);
              answer = (if failed then a else take (unat (nlmsg_len h)) d @ drop (unat (nlmsg_len h)) a)
          in Some (Ret (if failed then -1 else 0, rth\<lparr>rth_seq := rth_seq rth + 1\<rparr>, n', Some answer, arg),
               s\<lparr>hist := (Sys_recvmsg (rth_fd rth) 16384, int (length d)) # k\<rparr>))"
proof -
  let ?rth = "rth\<lparr>rth_seq := rth_seq rth + 1\<rparr>" and ?s = "s\<lparr>hist := k\<rparr>"
  have "answered e (rth_fd ?rth) (hist ?s) d" using assms(6) by simp
  note loop = talk_loop_first [OF this assms(7-10), of peer "rth_seq rth + 1" "replicate 16384 0" arg]
  show ?thesis
    using assms(1-4) loop unfolding rtnl_talk_def assms(5)
    by (auto simp: run_simps Let_def first_answer_def split: option.splits)
qed

definition talk_env :: "u32 \<Rightarrow> env" where
  "talk_env seq = sample_env\<lparr>e_recv := (\<lambda>_ _. \<lparr>r_bytes = hdr_bytes False \<lparr>nlmsg_len = 36, nlmsg_type = 2,
     nlmsg_flags = 0, nlmsg_seq = seq, nlmsg_pid = 77\<rparr> @ replicate 20 0, r_peer = 0, r_port = 0,
     r_pktinfo = [], r_pktinfo6 = [], r_nlpid = 0, r_trunc = False, r_namelen = 12\<rparr>)\<rparr>"

abbreviation talk_req :: "u32 \<Rightarrow> byte list" where
  "talk_req seq \<equiv> hdr_bytes False \<lparr>nlmsg_len = 16, nlmsg_type = 18, nlmsg_flags = 1, nlmsg_seq = seq, nlmsg_pid = 0\<rparr>"

theorem talk_first_answer_witness:
  "rtnl_talk (talk_env 8) \<lparr>rth_fd = 11, rth_pid = 77, rth_seq = 6, rth_dump = 0\<rparr> (talk_req 0) 0 0
     (Some (replicate 64 0)) None () sample0 = None \<and>
   (\<exists>t. rtnl_talk (talk_env 7) \<lparr>rth_fd = 11, rth_pid = 77, rth_seq = 6, rth_dump = 0\<rparr> (talk_req 0) 0 0
     (Some (replicate 64 0)) None () sample0 =
     Some (Ret (0, \<lparr>rth_fd = 11, rth_pid = 77, rth_seq = 7, rth_dump = 0\<rparr>, talk_req 7,
       Some (r_bytes (e_recv (talk_env 7) [] 11) @ replicate 28 0), ()), t))"
proof -
  let ?rth = "\<lparr>rth_fd = 11, rth_pid = 77, rth_seq = 6, rth_dump = 0\<rparr>"
  let ?c = "Sys_sendto 11 (talk_req 7) (Sockaddr_nl 0 0)"
  let ?h = "\<lambda>q. \<lparr>nlmsg_len = 36, nlmsg_type = 2, nlmsg_flags = 0, nlmsg_seq = q, nlmsg_pid = 77\<rparr>"
  have be: "big_endian (talk_env q) = False" for q by (simp add: talk_env_def)
  have st: "stamp (big_endian (talk_env q)) False (rth_seq ?rth + 1) (talk_req 0) = Some (talk_req 7)" for q
    unfolding be by code_simp
  have req: "Option.bind (load32 (big_endian (talk_env q)) (talk_req 7)) (\<lambda>l. buf_bytes (talk_req 7) (uint l)) =
      Some (talk_req 7)" for q
    unfolding be by code_simp
  have ret: "0 \<le> e_ret (talk_env q) (hist sample0) ?c" for q
    by (simp add: talk_env_def sample_env_def)
  have ans: "answered (talk_env q) (rth_fd ?rth) k (r_bytes (e_recv (talk_env q) [] 11))" for q k
    by (simp add: answered_def talk_env_def sample_env_def hdr_bytes_def)
  have hd: "hdr_at (big_endian (talk_env q)) (r_bytes (e_recv (talk_env q) [] 11)) = Some (?h q)" for q
    unfolding be by (simp add: talk_env_def hdr_bytes_def hdr_at_def)
  have c: "?c = Sys_sendto (rth_fd ?rth) (talk_req 7) (Sockaddr_nl 0 0)" by simp
  note spec = talk_first_answer [where a = "replicate 64 0" and arg = "()", OF st req c ret refl ans hd]
  have pid: "r_nlpid (e_recv (talk_env q) k fd) = 0" for q k fd by (simp add: talk_env_def)
  have "load32 False (replicate 20 0) = Some 0" by code_simp
  then have zero: "load32 False (drop 16 (r_bytes (e_recv (talk_env 7) [] 11))) = Some 0"
    by (simp add: talk_env_def hdr_bytes_def)
  have len: "length (r_bytes (e_recv (talk_env q) [] 11)) = 36" for q
    by (simp add: talk_env_def hdr_bytes_def)
  show ?thesis
    using spec [of 8] spec [of 7] by (simp add: pid be zero len)
qed

text \<open>
  \<open>rtnl_from_file\<close> on a file that holds whole messages, each padded to a multiple
  of four bytes, hands them to the handler one after the other, in order, and returns 0, whatever an
  earlier message left in its buffer; for a handler that looks at the message only and accepts it.
\<close>

theorem file_messages_read:
  assumes "\<forall>n \<in> set ns. file_msg be n \<and> (\<forall>mem arg. handler 0 (n @ mem) arg = (0, g n arg))"
    and "length buf = 8192"
  shows "rtnl_from_file be handler buf (datagram ns) arg = Some (0, fold g ns arg)"
  using assms
proof (induction ns arbitrary: buf arg)
  case Nil
  then show ?case by (simp add: datagram_def rtnl_from_file.simps)
next
  case (Cons n ns)
  obtain mem where mem: "length (n @ mem) = 8192"
    "rtnl_from_file be handler buf (padded n @ datagram ns) arg =
      (case handler 0 (n @ mem) arg of
         (err, arg) \<Rightarrow> if err < 0 then Some (err, arg) else rtnl_from_file be handler (n @ mem) (datagram ns) arg)"
    using Cons.prems by (auto intro: file_step [of be n buf handler "datagram ns" arg])
  have "handler 0 (n @ mem) arg = (0, g n arg)" using Cons.prems(1) by simp
  then have "rtnl_from_file be handler buf (datagram (n # ns)) arg =
      rtnl_from_file be handler (n @ mem) (datagram ns) (g n arg)"
    using mem(2) by (simp add: datagram_def)
  also have "\<dots> = Some (0, fold g ns (g n arg))"
    using Cons.prems(1) mem(1) by (intro Cons.IH) simp_all
  finally show ?case by simp
qed

theorem file_messages_read_witness:
  "rtnl_from_file False (\<lambda>_ mem acc. (0, acc @ [take 16 mem])) (replicate 8192 9) (datagram [talk_req 3, talk_req 4]) [] =
     Some (0, [talk_req 3, talk_req 4])"
proof -
  have "file_msg False (talk_req q)" for q
    using load32_mem32 [of False 0 "[]"] by (simp add: file_msg_def hdr_bytes_def hdr_at_def)
  moreover have "take 16 (talk_req q @ mem) = talk_req q" for q mem
    by (simp add: hdr_bytes_def)
  ultimately show ?thesis
    using file_messages_read [of "[talk_req 3, talk_req 4]" False "\<lambda>_ mem acc. (0, acc @ [take 16 mem])"
        "\<lambda>n acc. acc @ [n]" "replicate 8192 9" "[]"]
    by simp
qed

end
